(* ===== verification/Prelude.thy ===== *)
theory Prelude
  imports Main "HOL-Library.Word" "HOL-Library.Multiset" "HOL-Library.List_Lexorder"
begin

text \<open>
  Shared material of the development: Python values and exceptions, the error
  sequencing used for every fallible operation, Python list indexing and dict access,
  decimal and hexadecimal printing of integers (f-strings), little-endian byte strings
  (the part of the struct module the sources use), and the generic lemmas about them.
\<close>

unbundle bit_operations_syntax

named_theorems err_simps \<open>evaluation of the error sequencing operators\<close>
named_theorems const_defs \<open>definitions of numeric constants of the sources\<close>

section \<open>Python values and exceptions\<close>

text \<open>
  A Python object as the code can tell it apart with \<^verbatim>\<open>isinstance(x, int)\<close>, a membership test or a dict
  lookup. \<open>PyInt\<close> is an int, members of an IntEnum included. \<open>PyFloat (Some i)\<close> is a float equal to the
  int i, which hashes like it, \<open>PyFloat None\<close> any other float. \<open>PyOther\<close> is any other hashable object, such
  as None, and \<open>PyUnhashable\<close> an object without a hash, such as a list.
\<close>

datatype pyval = PyInt int | PyFloat "int option" | PyStr string | PyOther | PyUnhashable

text \<open>The int a value compares equal to, as membership tests and enum lookups use it.\<close>

fun int_value :: "pyval \<Rightarrow> int option" where
  "int_value (PyInt i) = Some i"
| "int_value (PyFloat x) = x"
| "int_value _ = None"

text \<open>
  Exceptions as values. A \<open>ValueError\<close>, \<open>TypeError\<close> or \<open>RuntimeError\<close> carries the fixed
  text of its message (an interpolated value is left out). \<open>SeccompError e\<close> is
  \<^verbatim>\<open>SeccompError(e, strerror(e))\<close>; \<open>UnsupportedError\<close> carries the errno attribute, which
  is None for an exception built from one message string. \<open>OSError\<close> is an OSError that is
  not a SeccompError (raised by the os module). \<open>StructError\<close> is struct.error,
  \<open>ArgumentError\<close> is ctypes.ArgumentError.
\<close>

datatype py_error =
    ValueError string
  | TypeError string
  | RuntimeError string
  | KeyError
  | IndexError
  | StructError
  | ArgumentError
  | AssertionError string
  | SeccompError int
  | UnsupportedError "int option"
  | OSError "int option"

type_synonym 'a result = "py_error + 'a"

section \<open>Error sequencing\<close>

definition bindE :: "'e + 'a \<Rightarrow> ('a \<Rightarrow> 'e + 'b) \<Rightarrow> 'e + 'b" where
  "bindE r f = (case r of Inl e \<Rightarrow> Inl e | Inr x \<Rightarrow> f x)"

definition guardE :: "bool \<Rightarrow> 'e \<Rightarrow> 'e + unit" where
  "guardE b e = (if b then Inr () else Inl e)"

lemma bindE_Inl [simp, err_simps]: "bindE (Inl e) f = Inl e"
  by (simp add: bindE_def)

lemma bindE_Inr [simp, err_simps]: "bindE (Inr x) f = f x"
  by (simp add: bindE_def)

lemma bindE_eq_Inr [simp]: "bindE r f = Inr y \<longleftrightarrow> (\<exists>x. r = Inr x \<and> f x = Inr y)"
  by (cases r) auto

lemma bindE_eq_Inl: "bindE r f = Inl e \<longleftrightarrow> r = Inl e \<or> (\<exists>x. r = Inr x \<and> f x = Inl e)"
  by (cases r) auto

lemma bindE_assoc: "bindE (bindE r f) g = bindE r (\<lambda>x. bindE (f x) g)"
  by (cases r) auto

lemma guardE_eq_Inr [simp]: "guardE b e = Inr u \<longleftrightarrow> b"
  by (simp add: guardE_def)

lemma guardE_eq_Inl [simp]: "guardE b e = Inl e' \<longleftrightarrow> \<not> b \<and> e' = e"
  by (auto simp: guardE_def)

lemma guardE_True [simp, err_simps]: "guardE True e = Inr ()"
  by (simp add: guardE_def)

lemma guardE_False [simp, err_simps]: "guardE False e = Inl e"
  by (simp add: guardE_def)

section \<open>Python lists and dicts\<close>

text \<open>Indexing \<^verbatim>\<open>xs[i]\<close>: negative indices count from the end, others out of range raise.\<close>

definition py_wrap :: "nat \<Rightarrow> int \<Rightarrow> int" where
  "py_wrap n i = (if 0 \<le> i then i else i + int n)"

fun py_index :: "'a list \<Rightarrow> pyval \<Rightarrow> 'a result" where
  "py_index xs (PyInt i) =
     (if py_wrap (length xs) i \<in> {0..<int (length xs)} then Inr (xs ! nat (py_wrap (length xs) i))
      else Inl IndexError)"
| "py_index xs _ = Inl (TypeError ''list indices must be integers or slices'')"

text \<open>The check \<^verbatim>\<open>isinstance(v, int) and lo <= v <= hi\<close> of a constructor or method, else ValueError.\<close>

definition int_in :: "int \<Rightarrow> int \<Rightarrow> pyval \<Rightarrow> string \<Rightarrow> int result" where
  "int_in lo hi v msg =
     (case v of
        PyInt i \<Rightarrow> if lo \<le> i \<and> i \<le> hi then Inr i else Inl (ValueError msg)
      | _ \<Rightarrow> Inl (ValueError msg))"

lemma int_in_Inr [simp]: "int_in lo hi v msg = Inr i \<longleftrightarrow> v = PyInt i \<and> lo \<le> i \<and> i \<le> hi"
  by (auto simp: int_in_def split: pyval.splits)

text \<open>Subscription \<^verbatim>\<open>d[k]\<close> of a dict.\<close>

definition py_getitem :: "('k \<rightharpoonup> 'v) \<Rightarrow> 'k \<Rightarrow> 'v result" where
  "py_getitem d k = (case d k of None \<Rightarrow> Inl KeyError | Some v \<Rightarrow> Inr v)"

text \<open>
  An insertion-ordered dict as an association list, \<^verbatim>\<open>d[k] = v\<close>: a key that is present
  keeps its place, a new one goes to the end.
\<close>

fun dict_set :: "('k \<times> 'v) list \<Rightarrow> 'k \<Rightarrow> 'v \<Rightarrow> ('k \<times> 'v) list" where
  "dict_set [] k v = [(k, v)]"
| "dict_set ((k', v') # d) k v = (if k' = k then (k, v) # d else (k', v') # dict_set d k v)"

lemma dict_set_new: "k \<notin> fst ` set d \<Longrightarrow> dict_set d k v = d @ [(k, v)]"
  by (induction d k v rule: dict_set.induct) auto

lemma map_of_dict_set [simp]: "map_of (dict_set d k v) = (map_of d)(k \<mapsto> v)"
  by (induction d k v rule: dict_set.induct) auto

lemma keys_dict_set: "fst ` set (dict_set d k v) = insert k (fst ` set d)"
  by (induction d k v rule: dict_set.induct) auto

lemma distinct_dict_set: "distinct (map fst d) \<Longrightarrow> distinct (map fst (dict_set d k v))"
proof (induction d k v rule: dict_set.induct)
  case (2 k' v' d k v)
  then show ?case using keys_dict_set [of d k v] by (auto simp flip: set_map)
qed simp

lemma py_index_nat [simp]:
  "py_index xs (PyInt (int i)) = (if i < length xs then Inr (xs ! i) else Inl IndexError)"
  by (simp add: py_wrap_def)

declare py_index.simps(1) [simp del]

lemma py_getitem_Some [simp]: "d k = Some v \<Longrightarrow> py_getitem d k = Inr v"
  by (simp add: py_getitem_def)

lemma drop_Cons_nth:
  assumes "drop i xs = x # ys"
  shows "i < length xs" and "xs ! i = x" and "drop (Suc i) xs = ys"
proof -
  show "i < length xs" using assms by (metis drop_all list.distinct(1) not_less)
  then have "drop i xs = xs ! i # drop (Suc i) xs" by (simp add: Cons_nth_drop_Suc)
  with assms show "xs ! i = x" and "drop (Suc i) xs = ys" by simp_all
qed

section \<open>Bytes\<close>

type_synonym byte = "8 word"
type_synonym bytes = "byte list"

text \<open>Little-endian encoding of an integer in \<open>n\<close> bytes and \<^verbatim>\<open>int.from_bytes(b, "little")\<close>.\<close>

primrec le_bytes :: "nat \<Rightarrow> int \<Rightarrow> bytes" where
  "le_bytes 0 v = []"
| "le_bytes (Suc n) v = word_of_int v # le_bytes n (v div 256)"

primrec le_int :: "bytes \<Rightarrow> int" where
  "le_int [] = 0"
| "le_int (b # bs) = uint b + 256 * le_int bs"

lemma length_le_bytes [simp]: "length (le_bytes n v) = n"
  by (induction n arbitrary: v) auto

lemma uint_byte_of_int [simp]: "uint (word_of_int v :: byte) = v mod 256"
  by (simp add: uint_word_of_int)

lemma mod_mult_256: "0 \<le> m \<Longrightarrow> (v::int) mod (256 * m) = v mod 256 + 256 * (v div 256 mod m)"
  by (simp add: zmod_zmult2_eq)

lemma le_int_le_bytes: "le_int (le_bytes n v) = v mod 256 ^ n"
  by (induction n arbitrary: v) (simp_all add: mod_mult_256)


lemma le_int_append: "le_int (xs @ ys) = le_int xs + 256 ^ length xs * le_int ys"
  by (induction xs) (simp_all add: algebra_simps)

lemma le_int_range: "0 \<le> le_int bs \<and> le_int bs < 256 ^ length bs"
proof (induction bs)
  case (Cons b bs)
  then show ?case using uint_lt2p [of b] by simp
qed simp

lemma le_int_halves:
  assumes "8 \<le> length bs"
  shows "le_int (take 8 bs) = le_int (take 4 bs) + 2 ^ 32 * le_int (take 4 (drop 4 bs))"
proof -
  have "take 8 bs = take 4 bs @ take 4 (drop 4 bs)" using take_add [of 4 4 bs] by simp
  with assms show ?thesis by (simp add: le_int_append)
qed

lemma le_bytes_add: "le_bytes (m + n) v = le_bytes m v @ le_bytes n (v div 256 ^ m)"
  by (induction m arbitrary: v) (simp_all add: zdiv_zmult2_eq)

text \<open>Reading one record of a sequence of records of equal width.\<close>

lemma concat_chunk_nth:
  assumes "\<And>x. length (f x) = n" and "i < length xs"
  shows "take n (drop (n * i) (concat (map f xs))) = f (xs ! i)"
  using assms(2)
proof (induction xs arbitrary: i)
  case (Cons x xs)
  show ?case
  proof (cases i)
    case (Suc j)
    then have "drop (n * i) (f x @ concat (map f xs)) = drop (n * j) (concat (map f xs))"
      using assms(1) by simp
    with Cons Suc show ?thesis by simp
  qed (use assms(1) in simp)
qed simp

lemma length_concat_chunks: "(\<And>x. length (f x) = n) \<Longrightarrow> length (concat (map f xs)) = n * length xs"
  by (induction xs) auto

text \<open>The four bytes at an offset, as \<^verbatim>\<open>data[k : k + 4].ljust(4, b"\0")\<close> reads them.\<close>

definition slice4 :: "bytes \<Rightarrow> nat \<Rightarrow> bytes" where
  "slice4 data k =
     (let s = take 4 (drop k data) in s @ replicate (4 - length s) 0)"

lemma length_slice4 [simp]: "length (slice4 data k) = 4"
  by (simp add: slice4_def Let_def)

lemma slice4_append [simp]:
  "length bs = 4 \<Longrightarrow> slice4 (pre @ bs @ post) (length pre) = bs"
  by (simp add: slice4_def Let_def)

section \<open>Halves of 64-bit values\<close>

lemma and_u32_mask: "(v::int) AND 0xFFFFFFFF = v mod 2 ^ 32"
proof -
  have "v AND 0xFFFFFFFF = v AND mask 32" by (simp add: mask_eq_exp_minus_1)
  then show ?thesis by (simp only: take_bit_eq_mask [symmetric] take_bit_eq_mod)
qed

lemma shift_u32_mask: "drop_bit 32 (v::int) AND 0xFFFFFFFF = v div 2 ^ 32 mod 2 ^ 32"
  by (simp add: and_u32_mask drop_bit_eq_div)

lemma halves_eq_iff: "(a::int) = v \<longleftrightarrow> a mod 2 ^ 32 = v mod 2 ^ 32 \<and> a div 2 ^ 32 = v div 2 ^ 32"
  by (metis mult_div_mod_eq)

lemma halves_less_iff:
  "(a::int) < v \<longleftrightarrow> a div 2 ^ 32 < v div 2 ^ 32 \<or>
     a div 2 ^ 32 = v div 2 ^ 32 \<and> a mod 2 ^ 32 < v mod 2 ^ 32"
proof -
  define q r q' r' where "q = a div 2 ^ 32" and "r = a mod 2 ^ 32"
    and "q' = v div 2 ^ 32" and "r' = v mod 2 ^ 32"
  have av: "a = 4294967296 * q + r" "v = 4294967296 * q' + r'"
    by (simp_all add: q_def r_def q'_def r'_def)
  have "0 \<le> r" "r < 4294967296" "0 \<le> r'" "r' < 4294967296"
    by (simp_all add: r_def r'_def)
  then have "a < v \<longleftrightarrow> q < q' \<or> q = q' \<and> r < r'"
    unfolding av by (cases q q' rule: linorder_cases) auto
  then show ?thesis by (simp add: q_def r_def q'_def r'_def)
qed

lemma halves_le_iff:
  "(a::int) \<le> v \<longleftrightarrow> a div 2 ^ 32 < v div 2 ^ 32 \<or>
     a div 2 ^ 32 = v div 2 ^ 32 \<and> a mod 2 ^ 32 \<le> v mod 2 ^ 32"
  using halves_less_iff [of v a] by (auto simp: not_less [symmetric])

lemma halves_and:
  "((a::int) AND m) mod 2 ^ 32 = a mod 2 ^ 32 AND m mod 2 ^ 32"
  "((a::int) AND m) div 2 ^ 32 = a div 2 ^ 32 AND m div 2 ^ 32"
  by (simp_all only: take_bit_eq_mod [symmetric] drop_bit_eq_div [symmetric] take_bit_and drop_bit_and)

lemma high_half_u64: "0 \<le> (v::int) \<Longrightarrow> v < 2 ^ 64 \<Longrightarrow> v div 2 ^ 32 mod 2 ^ 32 = v div 2 ^ 32"
  by simp

lemma subset_mask: "(v::int) AND NOT m = 0 \<longleftrightarrow> v AND m = v"
  by (auto simp: bit_eq_iff bit_and_iff bit_not_iff)

lemma push_or_add: "0 \<le> b \<Longrightarrow> b < 2 ^ n \<Longrightarrow> push_bit n a OR b = a * 2 ^ n + (b :: int)"
proof -
  assume "0 \<le> b" and "b < 2 ^ n"
  then have "take_bit n b = b" by (simp add: take_bit_int_eq_self_iff)
  with concat_bit_eq [of n b a] concat_bit_def [of n b a] show ?thesis
    by (simp add: push_bit_eq_mult or.commute add.commute)
qed

section \<open>Printing integers\<close>

text \<open>
  Digits of a number in a base of at most sixteen, \<^verbatim>\<open>str(i)\<close> (also the text an f-string
  interpolates for an int) and \<^verbatim>\<open>f"{i:#x}"\<close>.
\<close>

definition digit_char :: "nat \<Rightarrow> char" where
  "digit_char d = (if d < 10 then char_of (48 + d) else char_of (87 + d))"

function nat_str :: "nat \<Rightarrow> nat \<Rightarrow> string" where
  "nat_str b n =
     (if n < b \<or> b < 2 then [digit_char n] else nat_str b (n div b) @ [digit_char (n mod b)])"
  by pat_completeness auto
termination
  by (relation "measure snd") (auto simp: div_less_dividend)

declare nat_str.simps [simp del]

definition py_str :: "int \<Rightarrow> string" where
  "py_str i = (if i < 0 then ''-'' @ nat_str 10 (nat (- i)) else nat_str 10 (nat i))"

definition py_hex :: "int \<Rightarrow> string" where
  "py_hex i = (if i < 0 then ''-0x'' @ nat_str 16 (nat (- i)) else ''0x'' @ nat_str 16 (nat i))"

text \<open>The value of a digit string, a left inverse of the printer.\<close>

definition digit_val :: "char \<Rightarrow> nat" where
  "digit_val c = (if of_char c < (58::nat) then of_char c - 48 else of_char c - 87)"

definition nat_val :: "nat \<Rightarrow> string \<Rightarrow> nat" where
  "nat_val b s = foldl (\<lambda>a c. b * a + digit_val c) 0 s"

lemma digit_val_char [simp]: "d < 16 \<Longrightarrow> digit_val (digit_char d) = d"
  by (simp add: digit_val_def digit_char_def)

lemma of_char_digit: "d < 16 \<Longrightarrow> of_char (digit_char d) = (if d < 10 then 48 + d else 87 + d)"
  by (simp add: digit_char_def)

lemma digit_char_neq:
  assumes "d < 16"
  shows "digit_char d \<noteq> CHR ''_''" and "digit_char d \<noteq> CHR ''-''"
  using of_char_digit [OF assms] assms by (auto split: if_splits)

lemma digit_step:
  assumes "2 \<le> b" and "b \<le> 16" and "\<not> n < b"
  shows "n div b < n" and "n mod b < (16::nat)"
proof -
  show "n div b < n" using assms by simp
  have "n mod b < b" using assms by simp
  also note \<open>b \<le> 16\<close>
  finally show "n mod b < 16" .
qed

lemma nat_val_snoc [simp]: "nat_val b (s @ [c]) = b * nat_val b s + digit_val c"
  by (simp add: nat_val_def)

lemma nat_val_str:
  assumes "2 \<le> b" and "b \<le> 16"
  shows "nat_val b (nat_str b n) = n"
proof (induction n rule: less_induct)
  case (less n)
  show ?case
  proof (cases "n < b")
    case True
    with assms show ?thesis by (simp add: nat_str.simps [of b n] nat_val_def)
  next
    case False
    with assms have "n div b < n" and "n mod b < 16"
      by (simp_all add: digit_step)
    with False assms less.IH [of "n div b"] show ?thesis
      by (simp add: nat_str.simps [of b n])
  qed
qed

lemma nat_str_no_sep:
  assumes "2 \<le> b" and "b \<le> 16"
  shows "CHR ''_'' \<notin> set (nat_str b n) \<and> CHR ''-'' \<notin> set (nat_str b n)"
proof (induction n rule: less_induct)
  case (less n)
  show ?case
  proof (cases "n < b")
    case True
    with assms show ?thesis
      using digit_char_neq [of n] by (simp add: nat_str.simps [of b n])
  next
    case False
    with assms have "n div b < n" and "n mod b < 16"
      by (simp_all add: digit_step)
    with False assms less.IH [of "n div b"] digit_char_neq [of "n mod b"] show ?thesis
      by (simp add: nat_str.simps [of b n])
  qed
qed

lemma nat_str_inject [simp]:
  "2 \<le> b \<Longrightarrow> b \<le> 16 \<Longrightarrow> nat_str b m = nat_str b n \<longleftrightarrow> m = n"
  by (metis nat_val_str)

lemma py_str_nat: "py_str (int n) = nat_str 10 n"
  by (simp add: py_str_def)

lemma py_str_no_underscore [simp]: "CHR ''_'' \<notin> set (py_str i)"
  by (simp add: py_str_def nat_str_no_sep)

lemma py_str_inject [simp]: "py_str i = py_str j \<longleftrightarrow> i = j"
proof -
  have neg: "nat_str 10 m \<noteq> CHR ''-'' # s" for m s
    using nat_str_no_sep [of 10 m] by auto
  show ?thesis
    by (auto simp: py_str_def neg neg [symmetric] nat_eq_iff)
qed

text \<open>Text before the first separator is determined.\<close>

lemma sep_append_inject:
  assumes "c \<notin> set xs" and "c \<notin> set ys"
  shows "xs @ c # us = ys @ c # vs \<longleftrightarrow> xs = ys \<and> us = vs"
proof
  assume eq: "xs @ c # us = ys @ c # vs"
  have "takeWhile (\<lambda>x. x \<noteq> c) (zs @ c # ws) = zs" if "c \<notin> set zs" for zs ws
    using that by (induction zs) auto
  with assms eq have "xs = ys" by metis
  with eq show "xs = ys \<and> us = vs" by simp
qed simp

lemma sep_append_neq: "c \<notin> set xs \<Longrightarrow> xs \<noteq> ys @ c # vs"
  by auto


section \<open>Lower case\<close>

text \<open>\<^verbatim>\<open>s.lower()\<close> on ASCII text.\<close>

definition lower_char :: "char \<Rightarrow> char" where
  "lower_char c = (if of_char c \<in> {65..90 :: int} then char_of (of_char c + 32 :: int) else c)"

definition py_lower :: "string \<Rightarrow> string" where
  "py_lower s = map lower_char s"

section \<open>Distinctness by sorting\<close>

text \<open>
  A merge sort on integer lists and a linear test, used to evaluate that the keys of a
  large table are pairwise distinct.
\<close>

fun merge_asc :: "'a::linorder list \<Rightarrow> 'a list \<Rightarrow> 'a list" where
  "merge_asc [] ys = ys"
| "merge_asc (x # xs) [] = x # xs"
| "merge_asc (x # xs) (y # ys) =
     (if x < y then x # merge_asc xs (y # ys) else y # merge_asc (x # xs) ys)"

fun merge_pairs :: "'a::linorder list list \<Rightarrow> 'a list list" where
  "merge_pairs (a # b # r) = merge_asc a b # merge_pairs r"
| "merge_pairs r = r"

lemma length_merge_pairs: "length (merge_pairs r) \<le> length r"
  by (induction r rule: merge_pairs.induct) auto

function merge_all :: "'a::linorder list list \<Rightarrow> 'a list" where
  "merge_all [] = []"
| "merge_all [a] = a"
| "merge_all (a # b # r) = merge_all (merge_asc a b # merge_pairs r)"
  by pat_completeness auto
termination
  by (relation "measure length") (auto simp: le_imp_less_Suc length_merge_pairs)

fun increasing :: "'a::linorder list \<Rightarrow> bool" where
  "increasing (x # y # r) \<longleftrightarrow> x < y \<and> increasing (y # r)"
| "increasing _ \<longleftrightarrow> True"

definition distinct_strings :: "string list \<Rightarrow> bool" where
  "distinct_strings ks \<longleftrightarrow> increasing (merge_all (map (\<lambda>s. [map of_char s :: int list]) ks))"

lemma mset_merge_asc: "mset (merge_asc xs ys) = mset xs + mset ys"
  by (induction xs ys rule: merge_asc.induct) auto

lemma mset_merge_pairs: "mset (concat (merge_pairs r)) = mset (concat r)"
  by (induction r rule: merge_pairs.induct) (auto simp: mset_merge_asc)

lemma mset_merge_all: "mset (merge_all r) = mset (concat r)"
  by (induction r rule: merge_all.induct) (auto simp: mset_merge_asc mset_merge_pairs)

lemma increasing_sorted_wrt: "increasing xs \<Longrightarrow> sorted_wrt (<) xs"
  by (induction xs rule: increasing.induct) (auto simp: sorted_wrt2)

lemma increasing_distinct: "increasing xs \<Longrightarrow> distinct xs"
  using increasing_sorted_wrt strict_sorted_iff by blast

lemma distinct_strings_distinct:
  assumes "distinct_strings ks"
  shows "distinct ks"
proof -
  let ?code = "\<lambda>s. map of_char s :: int list"
  have "distinct (merge_all (map (\<lambda>s. [?code s]) ks))"
    using assms increasing_distinct by (auto simp: distinct_strings_def)
  moreover have "mset (merge_all (map (\<lambda>s. [?code s]) ks)) = mset (map ?code ks)"
    by (simp add: mset_merge_all concat_map_singleton)
  ultimately have "distinct (map ?code ks)"
    by (metis mset_eq_imp_distinct_iff)
  then show ?thesis by (simp add: distinct_map)
qed

end
