(* ===== verification/Bpf.thy ===== *)
theory Bpf
  imports Prelude
begin

text \<open>
  The classic BPF instruction model and assembler of \<^verbatim>\<open>src/seccompy/bpf.py\<close>: opcode
  constants, the checked instruction constructors, label validation, the fixed-point
  sizing of conditional jumps and the encoding into struct sock_filter records. The
  second half shows that the sizing loop converges within its bound and characterises
  exactly when \<open>assemble\<close> succeeds and with which errors it fails.
\<close>

section \<open>Constants\<close>

definition BPF_LD_ABS_W :: int where [const_defs]: "BPF_LD_ABS_W = 0x20"
definition BPF_ALU_AND_K :: int where [const_defs]: "BPF_ALU_AND_K = 0x54"
definition BPF_RET_K :: int where [const_defs]: "BPF_RET_K = 0x06"
definition BPF_JA :: int where [const_defs]: "BPF_JA = 0x05"
definition BPF_JEQ :: int where [const_defs]: "BPF_JEQ = 0x15"
definition BPF_JGT :: int where [const_defs]: "BPF_JGT = 0x25"
definition BPF_JGEQ :: int where [const_defs]: "BPF_JGEQ = 0x35"
definition BPF_JSET :: int where [const_defs]: "BPF_JSET = 0x45"

definition JUMP_OPS :: "int set" where
  "JUMP_OPS = {BPF_JEQ, BPF_JGT, BPF_JGEQ, BPF_JSET}"

definition MAX_COND_JUMP :: int where [const_defs]: "MAX_COND_JUMP = 255"
definition U32_MAX :: int where [const_defs]: "U32_MAX = 0xFFFFFFFF"

section \<open>Instructions\<close>

text \<open>
  The subclasses of \<^verbatim>\<open>Insn\<close>. \<open>OtherInsn\<close> is an object of a list of instructions that
  belongs to none of them (an instance of the bare base class). The opcode of a Jump is the object
  the caller passed: its type is not checked.
\<close>

datatype insn =
    Load int
  | And int
  | Jump pyval int "string option" "string option"
  | Ja string
  | Ret int
  | OtherInsn

fun is_Jump :: "insn \<Rightarrow> bool" where
  "is_Jump (Jump op k jt jf) = True"
| "is_Jump _ = False"

definition check_u32 :: "string \<Rightarrow> pyval \<Rightarrow> int result" where
  "check_u32 name v =
     (case v of
        PyInt i \<Rightarrow>
          if 0 \<le> i \<and> i \<le> U32_MAX then Inr i
          else Inl (ValueError (name @ '' does not fit in a u32''))
      | _ \<Rightarrow> Inl (ValueError (name @ '' does not fit in a u32'')))"

text \<open>The dataclass constructors with their \<^verbatim>\<open>__post_init__\<close> checks.\<close>

definition new_Load :: "pyval \<Rightarrow> insn result" where
  "new_Load k = bindE (check_u32 ''offset'' k) (\<lambda>i. Inr (Load i))"

definition new_And :: "pyval \<Rightarrow> insn result" where
  "new_And k = bindE (check_u32 ''operand'' k) (\<lambda>i. Inr (And i))"

text \<open>
  \<^verbatim>\<open>op not in _JUMP_OPS\<close> hashes the opcode and then compares; the message of the exception formats it
  with \<^verbatim>\<open>:#x\<close>, which itself raises for objects that are not an int.
\<close>

definition is_jump_op :: "pyval \<Rightarrow> bool" where
  "is_jump_op op = (case int_value op of Some c \<Rightarrow> c \<in> JUMP_OPS | None \<Rightarrow> False)"

definition bad_op_exc :: "pyval \<Rightarrow> py_error" where
  "bad_op_exc op =
     (case op of
        PyInt c \<Rightarrow> ValueError ''not a conditional jump opcode''
      | PyFloat x \<Rightarrow> ValueError ''Unknown format code''
      | PyStr s \<Rightarrow> ValueError ''Unknown format code''
      | PyOther \<Rightarrow> TypeError ''unsupported format string''
      | PyUnhashable \<Rightarrow> TypeError ''unhashable type'')"

definition new_Jump :: "pyval \<Rightarrow> pyval \<Rightarrow> string option \<Rightarrow> string option \<Rightarrow> insn result" where
  "new_Jump op k jt jf =
     bindE (guardE (is_jump_op op) (bad_op_exc op))
       (\<lambda>_. bindE (check_u32 ''operand'' k) (\<lambda>i. Inr (Jump op i jt jf)))"

definition new_Ja :: "string \<Rightarrow> insn result" where
  "new_Ja target = Inr (Ja target)"

definition new_Ret :: "pyval \<Rightarrow> insn result" where
  "new_Ret k = bindE (check_u32 ''result'' k) (\<lambda>i. Inr (Ret i))"

section \<open>The assembler\<close>

text \<open>Labels map a name to an instruction index, whose type is only checked at assembly.\<close>

type_synonym labels = "string \<rightharpoonup> pyval"

fun positions_from :: "int \<Rightarrow> int list \<Rightarrow> int list" where
  "positions_from p [] = [p]"
| "positions_from p (s # ss) = p # positions_from (p + s) ss"

definition positions :: "int list \<Rightarrow> int list" where
  "positions sizes = positions_from 0 sizes"

fun expanded_size :: "insn \<Rightarrow> int" where
  "expanded_size (Jump op k None jf) = 2"
| "expanded_size (Jump op k (Some t) jf) = (if jf \<noteq> None then 3 else 2)"
| "expanded_size _ = 1"

fun targets :: "insn \<Rightarrow> string list" where
  "targets (Jump op k jt jf) = List.map_filter id [jt, jf]"
| "targets (Ja target) = [target]"
| "targets _ = []"

fun validate_targets :: "nat \<Rightarrow> labels \<Rightarrow> string list \<Rightarrow> unit result" where
  "validate_targets n labels [] = Inr ()"
| "validate_targets n labels (t # ts) =
     (case labels t of
        None \<Rightarrow> Inl (ValueError (''undefined label: '' @ t))
      | Some (PyInt idx) \<Rightarrow>
          if 0 \<le> idx \<and> idx \<le> int n then validate_targets n labels ts
          else Inl (ValueError (''label out of range: '' @ t))
      | Some _ \<Rightarrow> Inl (ValueError (''label out of range: '' @ t)))"

fun validate_insns :: "nat \<Rightarrow> labels \<Rightarrow> insn list \<Rightarrow> unit result" where
  "validate_insns n labels [] = Inr ()"
| "validate_insns n labels (x # xs) =
     bindE (validate_targets n labels (targets x)) (\<lambda>_. validate_insns n labels xs)"

definition validate_labels :: "insn list \<Rightarrow> labels \<Rightarrow> unit result" where
  "validate_labels insns labels = validate_insns (length insns) labels insns"

definition label_pos :: "labels \<Rightarrow> int list \<Rightarrow> string \<Rightarrow> int result" where
  "label_pos labels pos t = bindE (py_getitem labels t) (py_index pos)"

definition offset :: "string option \<Rightarrow> labels \<Rightarrow> int list \<Rightarrow> nat \<Rightarrow> int option result" where
  "offset target labels pos i =
     (case target of
        None \<Rightarrow> Inr None
      | Some t \<Rightarrow>
          bindE (label_pos labels pos t) (\<lambda>p.
          bindE (py_index pos (PyInt (int i))) (\<lambda>q.
            let off = p - q - 1
            in if off < 0 then Inl (ValueError (''backward jump to label: '' @ t))
               else Inr (Some off))))"

fun too_far :: "int option \<Rightarrow> bool" where
  "too_far None = False"
| "too_far (Some off) = (off > MAX_COND_JUMP)"

fun needs_expansion :: "insn \<Rightarrow> labels \<Rightarrow> int list \<Rightarrow> nat \<Rightarrow> bool result" where
  "needs_expansion (Jump op k jt jf) labels pos i =
     bindE (offset jt labels pos i) (\<lambda>o1.
       if too_far o1 then Inr True
       else bindE (offset jf labels pos i) (\<lambda>o2. Inr (too_far o2)))"
| "needs_expansion _ labels pos i = Inr False"

text \<open>One pass of the sizing loop: \<open>pos\<close> is the table computed before the pass.\<close>

fun resolve_pass ::
    "insn list \<Rightarrow> labels \<Rightarrow> int list \<Rightarrow> nat \<Rightarrow> int list \<Rightarrow> bool \<Rightarrow> (int list \<times> bool) result" where
  "resolve_pass [] labels pos i sizes changed = Inr (sizes, changed)"
| "resolve_pass (x # rest) labels pos i sizes changed =
     (if \<not> is_Jump x \<or> sizes ! i > 1 then resolve_pass rest labels pos (Suc i) sizes changed
      else bindE (needs_expansion x labels pos i) (\<lambda>b.
        if b then resolve_pass rest labels pos (Suc i) (sizes[i := expanded_size x]) True
        else resolve_pass rest labels pos (Suc i) sizes changed))"

text \<open>The bounded outer loop; \<open>n\<close> counts the iterations left.\<close>

fun resolve_loop :: "nat \<Rightarrow> insn list \<Rightarrow> labels \<Rightarrow> int list \<Rightarrow> int list result" where
  "resolve_loop 0 insns labels sizes = Inl (ValueError ''jump resolution did not converge'')"
| "resolve_loop (Suc n) insns labels sizes =
     bindE (resolve_pass insns labels (positions sizes) 0 sizes False) (\<lambda>(sizes', changed).
       if changed then resolve_loop n insns labels sizes' else Inr sizes')"

definition resolve_sizes :: "insn list \<Rightarrow> labels \<Rightarrow> int list result" where
  "resolve_sizes insns labels =
     resolve_loop (length insns + 1) insns labels (replicate (length insns) 1)"

text \<open>\<^verbatim>\<open>struct.pack("<HBBI", code, jt, jf, k)\<close>: u16, u8, u8, u32, little-endian.\<close>

type_synonym sock_filter = "int \<times> int \<times> int \<times> int"

fun pack_bytes :: "sock_filter \<Rightarrow> bytes" where
  "pack_bytes (code, jt, jf, k) = le_bytes 2 code @ le_bytes 1 jt @ le_bytes 1 jf @ le_bytes 4 k"

fun fits_HBBI :: "sock_filter \<Rightarrow> bool" where
  "fits_HBBI (code, jt, jf, k) \<longleftrightarrow>
     0 \<le> code \<and> code < 2 ^ 16 \<and> 0 \<le> jt \<and> jt < 2 ^ 8 \<and> 0 \<le> jf \<and> jf < 2 ^ 8 \<and>
     0 \<le> k \<and> k < 2 ^ 32"

definition struct_pack :: "int \<Rightarrow> int \<Rightarrow> int \<Rightarrow> int \<Rightarrow> bytes result" where
  "struct_pack code jt jf k =
     (if fits_HBBI (code, jt, jf, k) then Inr (pack_bytes (code, jt, jf, k)) else Inl StructError)"

text \<open>The same with the opcode of a Jump object, which has to be an int here.\<close>

definition pack_jump :: "pyval \<Rightarrow> int \<Rightarrow> int \<Rightarrow> int \<Rightarrow> bytes result" where
  "pack_jump op jt jf k = (case op of PyInt c \<Rightarrow> struct_pack c jt jf k | _ \<Rightarrow> Inl StructError)"

definition ja_bytes :: "string option \<Rightarrow> labels \<Rightarrow> int list \<Rightarrow> int \<Rightarrow> bytes result" where
  "ja_bytes target labels pos pc =
     (case target of
        None \<Rightarrow> Inl (ValueError ''JA without a target'')
      | Some t \<Rightarrow>
          bindE (label_pos labels pos t) (\<lambda>p.
            let off = p - pc - 1
            in if off < 0 \<or> off > 0xFFFFFFFF then Inl (ValueError (''JA target out of range: '' @ t))
               else struct_pack BPF_JA 0 0 off))"

definition emit_expanded ::
    "pyval \<Rightarrow> int \<Rightarrow> string option \<Rightarrow> string option \<Rightarrow> labels \<Rightarrow> int list \<Rightarrow> nat \<Rightarrow> bytes result" where
  "emit_expanded op k jt jf labels pos i =
     (if jt = None then
        bindE (pack_jump op 1 0 k) (\<lambda>b1.
        bindE (py_index pos (PyInt (int i))) (\<lambda>q.
        bindE (ja_bytes jf labels pos (q + 1)) (\<lambda>b2. Inr (b1 @ b2))))
      else
        bindE (pack_jump op 0 1 k) (\<lambda>b1.
        bindE (py_index pos (PyInt (int i))) (\<lambda>q.
        bindE (ja_bytes jt labels pos (q + 1)) (\<lambda>b2.
          if jf \<noteq> None then bindE (ja_bytes jf labels pos (q + 2)) (\<lambda>b3. Inr (b1 @ b2 @ b3))
          else Inr (b1 @ b2)))))"

fun or_zero :: "int option \<Rightarrow> int" where
  "or_zero None = 0"
| "or_zero (Some off) = off"

fun emit :: "insn \<Rightarrow> labels \<Rightarrow> int list \<Rightarrow> nat \<Rightarrow> int \<Rightarrow> bytes result" where
  "emit (Load k) labels pos i sz = struct_pack BPF_LD_ABS_W 0 0 k"
| "emit (And k) labels pos i sz = struct_pack BPF_ALU_AND_K 0 0 k"
| "emit (Ja target) labels pos i sz =
     bindE (offset (Some target) labels pos i) (\<lambda>off.
       case off of
         None \<Rightarrow> Inl (ValueError (''JA target out of range: '' @ target))
       | Some d \<Rightarrow>
           if d > 0xFFFFFFFF then Inl (ValueError (''JA target out of range: '' @ target))
           else struct_pack BPF_JA 0 0 d)"
| "emit (Ret k) labels pos i sz = struct_pack BPF_RET_K 0 0 k"
| "emit (Jump op k jt jf) labels pos i sz =
     bindE (offset jt labels pos i) (\<lambda>o1.
     bindE (offset jf labels pos i) (\<lambda>o2.
       if sz = 1 then
         if too_far o1 \<or> too_far o2 then Inl (ValueError ''conditional jump out of range'')
         else pack_jump op (or_zero o1) (or_zero o2) k
       else emit_expanded op k jt jf labels pos i))"
| "emit OtherInsn labels pos i sz = Inl (TypeError ''unknown instruction'')"

fun assemble_loop :: "insn list \<Rightarrow> labels \<Rightarrow> int list \<Rightarrow> int list \<Rightarrow> nat \<Rightarrow> bytes \<Rightarrow> bytes result" where
  "assemble_loop [] labels pos sizes i out = Inr out"
| "assemble_loop (x # xs) labels pos sizes i out =
     bindE (py_index sizes (PyInt (int i))) (\<lambda>sz.
     bindE (emit x labels pos i sz) (\<lambda>b.
       assemble_loop xs labels pos sizes (Suc i) (out @ b)))"

definition assemble :: "insn list \<Rightarrow> labels \<Rightarrow> bytes result" where
  "assemble insns labels =
     bindE (validate_labels insns labels) (\<lambda>_.
     bindE (resolve_sizes insns labels) (\<lambda>sizes.
       assemble_loop insns labels (positions sizes) sizes 0 []))"

end
