(* ===== verification/Bpf_Layout.thy ===== *)
theory Bpf_Layout
  imports Bpf
begin

text \<open>
  Correctness of the layout phase of the assembler: what label validation accepts, the
  position table, convergence of the sizing loop within its iteration bound, and the
  records each instruction is encoded to.
\<close>

section \<open>Well-formed instructions and labels\<close>

fun wf_insn :: "insn \<Rightarrow> bool" where
  "wf_insn (Load k) \<longleftrightarrow> 0 \<le> k \<and> k \<le> U32_MAX"
| "wf_insn (And k) \<longleftrightarrow> 0 \<le> k \<and> k \<le> U32_MAX"
| "wf_insn (Jump op k jt jf) \<longleftrightarrow> op \<in> PyInt ` JUMP_OPS \<and> 0 \<le> k \<and> k \<le> U32_MAX"
| "wf_insn (Ja t) \<longleftrightarrow> True"
| "wf_insn (Ret k) \<longleftrightarrow> 0 \<le> k \<and> k \<le> U32_MAX"
| "wf_insn OtherInsn \<longleftrightarrow> False"

definition resolves :: "labels \<Rightarrow> nat \<Rightarrow> string \<Rightarrow> nat \<Rightarrow> bool" where
  "resolves labels n t j \<longleftrightarrow> labels t = Some (PyInt (int j)) \<and> j \<le> n"

definition valid_labels :: "insn list \<Rightarrow> labels \<Rightarrow> bool" where
  "valid_labels insns labels \<longleftrightarrow>
     (\<forall>x \<in> set insns. \<forall>t \<in> set (targets x). \<exists>j. resolves labels (length insns) t j)"

definition label_index :: "labels \<Rightarrow> string \<Rightarrow> nat" where
  "label_index labels t = (case labels t of Some (PyInt i) \<Rightarrow> nat i | _ \<Rightarrow> 0)"

definition forward :: "insn list \<Rightarrow> labels \<Rightarrow> bool" where
  "forward insns labels \<longleftrightarrow>
     (\<forall>i < length insns. \<forall>t \<in> set (targets (insns ! i)).
        \<exists>j. resolves labels (length insns) t j \<and> i < j)"

lemma resolves_index: "resolves labels n t j \<Longrightarrow> label_index labels t = j"
  by (simp add: resolves_def label_index_def)

lemma forward_valid: "forward insns labels \<Longrightarrow> valid_labels insns labels"
  unfolding forward_def valid_labels_def by (metis in_set_conv_nth)

lemma forward_valid_iff:
  "forward insns labels \<longleftrightarrow>
     valid_labels insns labels \<and>
     (\<forall>i < length insns. \<forall>t \<in> set (targets (insns ! i)). i < label_index labels t)"
    (is "?F \<longleftrightarrow> ?V \<and> ?I")
proof
  assume F: ?F
  then have ?V by (rule forward_valid)
  moreover have ?I using F by (auto simp: forward_def dest: resolves_index)
  ultimately show "?V \<and> ?I" ..
next
  assume VI: "?V \<and> ?I"
  show ?F
    unfolding forward_def
  proof (intro allI impI ballI)
    fix i t assume i: "i < length insns" and t: "t \<in> set (targets (insns ! i))"
    with VI obtain j where "resolves labels (length insns) t j"
      unfolding valid_labels_def by (meson nth_mem)
    with VI i t show "\<exists>j. resolves labels (length insns) t j \<and> i < j"
      by (auto dest: resolves_index)
  qed
qed

lemma validate_targets_iff:
  "validate_targets n labels ts = Inr u \<longleftrightarrow> (\<forall>t \<in> set ts. \<exists>j. resolves labels n t j)"
proof (induction ts)
  case (Cons t ts)
  have "(\<exists>j. resolves labels n t j) \<longleftrightarrow>
          (\<exists>idx. labels t = Some (PyInt idx) \<and> 0 \<le> idx \<and> idx \<le> int n)"
    unfolding resolves_def by (metis nat_le_iff int_nat_eq of_nat_0_le_iff of_nat_le_iff)
  with Cons show ?case
    by (auto split: option.splits pyval.splits)
qed simp

lemma validate_insns_iff:
  "validate_insns n labels xs = Inr u \<longleftrightarrow>
     (\<forall>x \<in> set xs. \<forall>t \<in> set (targets x). \<exists>j. resolves labels n t j)"
  by (induction xs) (auto simp: validate_targets_iff)

lemma validate_labels_iff: "validate_labels insns labels = Inr u \<longleftrightarrow> valid_labels insns labels"
  by (simp add: validate_labels_def validate_insns_iff valid_labels_def)

lemma validate_targets_error: "validate_targets n labels ts = Inl e \<Longrightarrow> \<exists>m. e = ValueError m"
  by (induction ts) (auto split: option.splits pyval.splits if_splits)

lemma validate_labels_error: "validate_labels insns labels = Inl e \<Longrightarrow> \<exists>m. e = ValueError m"
proof -
  have "validate_insns n labels xs = Inl e \<Longrightarrow> \<exists>m. e = ValueError m" for n xs
    by (induction xs) (auto simp: bindE_eq_Inl dest: validate_targets_error)
  then show "validate_labels insns labels = Inl e \<Longrightarrow> \<exists>m. e = ValueError m"
    by (auto simp: validate_labels_def)
qed

section \<open>The position table\<close>

lemma length_positions [simp]: "length (positions sizes) = Suc (length sizes)"
proof -
  have "length (positions_from p sizes) = Suc (length sizes)" for p
    by (induction sizes arbitrary: p) auto
  then show ?thesis by (simp add: positions_def)
qed

lemma positions_nth: "i \<le> length sizes \<Longrightarrow> positions sizes ! i = sum_list (take i sizes)"
proof -
  have "i \<le> length sizes \<Longrightarrow> positions_from p sizes ! i = p + sum_list (take i sizes)" for p
  proof (induction sizes arbitrary: p i)
    case (Cons s ss)
    then show ?case by (cases i) auto
  qed simp
  then show "i \<le> length sizes \<Longrightarrow> positions sizes ! i = sum_list (take i sizes)"
    by (simp add: positions_def)
qed

lemma positions_0 [simp]: "positions sizes ! 0 = 0"
  by (simp add: positions_nth)

lemma positions_Suc:
  "i < length sizes \<Longrightarrow> positions sizes ! Suc i = positions sizes ! i + sizes ! i"
  by (simp add: positions_nth take_Suc_conv_app_nth)

text \<open>Sizes the loop can reach: an instruction has size one, or is an expanded jump.\<close>

definition size_ok :: "insn \<Rightarrow> int \<Rightarrow> bool" where
  "size_ok x s \<longleftrightarrow> s = 1 \<or> is_Jump x \<and> targets x \<noteq> [] \<and> s = expanded_size x"

definition sizes_ok :: "insn list \<Rightarrow> int list \<Rightarrow> bool" where
  "sizes_ok insns sizes \<longleftrightarrow> list_all2 size_ok insns sizes"

lemma size_ok_bounds: "size_ok x s \<Longrightarrow> 1 \<le> s \<and> s \<le> 3"
  by (cases x rule: expanded_size.cases) (auto simp: size_ok_def)

lemma sizes_ok_length: "sizes_ok insns sizes \<Longrightarrow> length sizes = length insns"
  by (simp add: sizes_ok_def list_all2_lengthD [symmetric])

lemma sizes_ok_nth: "sizes_ok insns sizes \<Longrightarrow> i < length insns \<Longrightarrow> size_ok (insns ! i) (sizes ! i)"
  by (simp add: sizes_ok_def list_all2_nthD)

lemma sizes_ok_bounds:
  "sizes_ok insns sizes \<Longrightarrow> i < length insns \<Longrightarrow> 1 \<le> sizes ! i \<and> sizes ! i \<le> 3"
  by (blast dest: sizes_ok_nth size_ok_bounds)

lemma sizes_ok_replicate: "sizes_ok insns (replicate (length insns) 1)"
  by (simp add: sizes_ok_def list_all2_conv_all_nth size_ok_def)

lemma sizes_ok_update:
  assumes "sizes_ok insns sizes" and "i < length insns" and "size_ok (insns ! i) s"
  shows "sizes_ok insns (sizes[i := s])"
  using assms by (auto simp: sizes_ok_def list_all2_conv_all_nth nth_list_update)

lemma positions_step:
  assumes "sizes_ok insns sizes" and "i < j" and "j \<le> length insns"
  shows "positions sizes ! i + sizes ! i \<le> positions sizes ! j"
  using \<open>i < j\<close> \<open>j \<le> length insns\<close>
proof (induction j)
  case (Suc j)
  have len: "length sizes = length insns"
    using assms(1) by (rule sizes_ok_length)
  show ?case
  proof (cases "i = j")
    case True
    with Suc.prems len show ?thesis by (simp add: positions_Suc)
  next
    case False
    with Suc have "positions sizes ! i + sizes ! i \<le> positions sizes ! j" by simp
    moreover have "1 \<le> sizes ! j"
      using sizes_ok_bounds [OF assms(1), of j] Suc.prems by simp
    ultimately show ?thesis
      using Suc.prems len by (simp add: positions_Suc)
  qed
qed simp

lemma positions_less_iff:
  assumes "sizes_ok insns sizes" and "i < length insns" and "j \<le> length insns"
  shows "positions sizes ! j - positions sizes ! i - 1 < 0 \<longleftrightarrow> j \<le> i"
proof (cases "i < j")
  case True
  with positions_step [OF assms(1), of i j] sizes_ok_bounds [OF assms(1,2)] assms show ?thesis by simp
next
  case False
  then consider "j = i" | "j < i" by linarith
  then show ?thesis
  proof cases
    case 2
    with positions_step [OF assms(1), of j i] sizes_ok_bounds [OF assms(1), of j] assms
    show ?thesis by simp
  qed simp
qed

lemma positions_bound:
  assumes "sizes_ok insns sizes" and "i \<le> length insns"
  shows "int i \<le> positions sizes ! i \<and> positions sizes ! i \<le> 3 * int i"
  using assms(2)
proof (induction i)
  case (Suc i)
  then show ?case
    using sizes_ok_bounds [OF assms(1), of i] sizes_ok_length [OF assms(1)]
    by (simp add: positions_Suc)
qed simp


section \<open>Offsets\<close>

definition dist :: "labels \<Rightarrow> int list \<Rightarrow> nat \<Rightarrow> string \<Rightarrow> int" where
  "dist labels pos i t = pos ! label_index labels t - pos ! i - 1"

lemma label_pos_resolved:
  "resolves labels n t j \<Longrightarrow> length pos = Suc n \<Longrightarrow> label_pos labels pos t = Inr (pos ! label_index labels t)"
  by (auto simp: label_pos_def resolves_def label_index_def)

lemma offset_resolved:
  assumes ok: "sizes_ok insns sizes" and i: "i < length insns"
    and res: "resolves labels (length insns) t j"
  shows "offset (Some t) labels (positions sizes) i =
    (if label_index labels t \<le> i then Inl (ValueError (''backward jump to label: '' @ t))
     else Inr (Some (dist labels (positions sizes) i t)))"
proof -
  have len: "length (positions sizes) = Suc (length insns)"
    using sizes_ok_length [OF ok] by simp
  have j: "label_index labels t = j" "j \<le> length insns"
    using res resolves_index by (auto simp: resolves_def)
  show ?thesis
    using label_pos_resolved [OF res len] positions_less_iff [OF ok i j(2)] i j len
    by (simp add: offset_def dist_def)
qed

text \<open>With valid labels the only exception an offset computation can raise is a ValueError.\<close>

definition target_ok :: "insn list \<Rightarrow> labels \<Rightarrow> string option \<Rightarrow> bool" where
  "target_ok insns labels t \<longleftrightarrow> (\<forall>s. t = Some s \<longrightarrow> (\<exists>j. resolves labels (length insns) s j))"

lemma target_ok_jump:
  assumes "valid_labels insns labels" and "Jump op k jt jf \<in> set insns"
  shows "target_ok insns labels jt" and "target_ok insns labels jf"
proof -
  have "\<exists>j. resolves labels (length insns) t j" if "t \<in> set (targets (Jump op k jt jf))" for t
    using assms that unfolding valid_labels_def by blast
  then show "target_ok insns labels jt" and "target_ok insns labels jf"
    by (cases jt; cases jf; simp add: target_ok_def)+
qed

lemma offset_error:
  assumes "sizes_ok insns sizes" and "i < length insns" and "target_ok insns labels t"
    and "offset t labels (positions sizes) i = Inl e"
  shows "\<exists>m. e = ValueError m"
proof (cases t)
  case (Some s)
  with assms(3) obtain j where "resolves labels (length insns) s j"
    by (auto simp: target_ok_def)
  with offset_resolved [OF assms(1,2)] assms(4) Some show ?thesis
    by (auto split: if_splits)
qed (use assms(4) in \<open>simp add: offset_def\<close>)

lemma offset_None [simp]: "offset None labels pos i = Inr None"
  by (simp add: offset_def)

section \<open>The sizing loop\<close>

definition ones :: "int list \<Rightarrow> nat" where
  "ones sizes = length (filter (\<lambda>s. s = 1) sizes)"

text \<open>Instruction \<open>j\<close>, if it is an unexpanded jump, fits its conditional offsets.\<close>

definition settled :: "insn list \<Rightarrow> labels \<Rightarrow> int list \<Rightarrow> int list \<Rightarrow> nat \<Rightarrow> bool" where
  "settled insns labels pos sizes j \<longleftrightarrow>
     (is_Jump (insns ! j) \<longrightarrow> sizes ! j \<le> 1 \<longrightarrow>
        needs_expansion (insns ! j) labels pos j = Inr False)"

lemma ones_update:
  assumes "i < length sizes" and "sizes ! i = 1" and "s \<noteq> 1"
  shows "ones (sizes[i := s]) < ones sizes"
proof -
  have eq: "sizes = take i sizes @ 1 # drop (Suc i) sizes"
    using assms by (metis id_take_nth_drop)
  have "sizes[i := s] = take i sizes @ s # drop (Suc i) sizes"
    using assms(1) by (simp add: upd_conv_take_nth_drop)
  then have "ones (sizes[i := s]) = ones (take i sizes) + ones (drop (Suc i) sizes)"
    using assms(3) by (simp add: ones_def)
  moreover have "ones sizes = ones (take i sizes) + Suc (ones (drop (Suc i) sizes))"
    by (subst eq) (simp add: ones_def)
  ultimately show ?thesis by simp
qed

lemma needs_expansion_size:
  assumes "needs_expansion x labels pos i = Inr True"
  shows "size_ok x (expanded_size x)" and "expanded_size x \<noteq> 1"
proof -
  have "size_ok x (expanded_size x) \<and> expanded_size x \<noteq> 1"
  proof (cases x)
    case (Jump op k jt jf)
    with assms show ?thesis
      by (cases jt; cases jf) (auto simp: size_ok_def)
  qed (use assms in simp_all)
  then show "size_ok x (expanded_size x)" and "expanded_size x \<noteq> 1" by simp_all
qed

text \<open>A pass that returns keeps the sizes reachable and either expands a jump or finds all settled.\<close>

lemma resolve_pass_result:
  assumes "resolve_pass rest labels pos i sizes ch = Inr (sizes', ch')"
    and "drop i insns = rest" and "sizes_ok insns sizes"
  shows "sizes_ok insns sizes' \<and> ones sizes' \<le> ones sizes \<and>
    (if ch' then ch \<or> ones sizes' < ones sizes
     else \<not> ch \<and> sizes' = sizes \<and>
       (\<forall>j. i \<le> j \<and> j < length insns \<longrightarrow> settled insns labels pos sizes j))"
  using assms
proof (induction rest arbitrary: i sizes ch)
  case (Cons x rest)
  note i = drop_Cons_nth [OF Cons.prems(2)]
  have step: ?case if "resolve_pass rest labels pos (Suc i) sizes ch = Inr (sizes', ch')"
    and "settled insns labels pos sizes i"
    using Cons.IH [OF that(1) i(3) Cons.prems(3)] that(2)
    by (auto split: if_splits) (metis Suc_leI le_neq_implies_less)
  show ?case
  proof (cases "\<not> is_Jump x \<or> sizes ! i > 1")
    case True
    with Cons.prems(1) i(2) show ?thesis
      by (intro step) (auto simp: settled_def)
  next
    case False
    with Cons.prems(1) obtain b where b: "needs_expansion x labels pos i = Inr b"
      and rest: "(if b then resolve_pass rest labels pos (Suc i) (sizes[i := expanded_size x]) True
                  else resolve_pass rest labels pos (Suc i) sizes ch) = Inr (sizes', ch')"
      by auto
    show ?thesis
    proof (cases b)
      case True
      from b True have "needs_expansion x labels pos i = Inr True" by simp
      note new = needs_expansion_size [OF this]
      have "sizes ! i = 1"
        using sizes_ok_bounds [OF Cons.prems(3) i(1)] False by simp
      then have "ones (sizes[i := expanded_size x]) < ones sizes"
        using ones_update i(1) new(2) sizes_ok_length [OF Cons.prems(3)] by metis
      moreover have "sizes_ok insns (sizes[i := expanded_size x])"
        using sizes_ok_update Cons.prems(3) i new(1) by metis
      ultimately show ?thesis
        using Cons.IH [OF _ i(3)] rest True by (fastforce split: if_splits)
    next
      case False
      with rest b i(2) show ?thesis by (intro step) (auto simp: settled_def)
    qed
  qed
qed auto


lemma resolve_loop_result:
  assumes "resolve_loop n insns labels sizes = Inr sizes'" and "sizes_ok insns sizes"
  shows "sizes_ok insns sizes' \<and>
    (\<forall>j < length insns. settled insns labels (positions sizes') sizes' j)"
  using assms
proof (induction n arbitrary: sizes)
  case (Suc n)
  then obtain s ch where pass: "resolve_pass insns labels (positions sizes) 0 sizes False = Inr (s, ch)"
    and rest: "(if ch then resolve_loop n insns labels s else Inr s) = Inr sizes'"
    by auto
  note res = resolve_pass_result [OF pass drop_0 Suc.prems(2)]
  show ?case
  proof (cases ch)
    case True
    with rest res Suc.IH [of s] show ?thesis by simp
  next
    case False
    with rest res show ?thesis by auto
  qed
qed simp

text \<open>
  The loop never runs out of iterations: every changing pass expands at least one of the
  instructions that still have size one, so \<open>length insns + 1\<close> iterations are enough.
\<close>

lemma resolve_loop_error:
  assumes "resolve_loop n insns labels sizes = Inl e" and "ones sizes < n" and "sizes_ok insns sizes"
  shows "\<exists>s. sizes_ok insns s \<and> resolve_pass insns labels (positions s) 0 s False = Inl e"
  using assms
proof (induction n arbitrary: sizes)
  case (Suc n)
  show ?case
  proof (cases "resolve_pass insns labels (positions sizes) 0 sizes False")
    case (Inl e')
    with Suc.prems show ?thesis by auto
  next
    case (Inr r)
    then obtain s ch where pass: "resolve_pass insns labels (positions sizes) 0 sizes False = Inr (s, ch)"
      by (cases r) auto
    note res = resolve_pass_result [OF pass drop_0 Suc.prems(3)]
    with pass Suc.prems have "ch" and "ones s < n" and "resolve_loop n insns labels s = Inl e"
      by (auto split: if_splits)
    with Suc.IH res show ?thesis by blast
  qed
qed simp

lemma ones_replicate: "ones (replicate n 1) = n"
  by (simp add: ones_def)

lemma resolve_sizes_result:
  assumes "resolve_sizes insns labels = Inr sizes"
  shows "sizes_ok insns sizes"
    and "j < length insns \<Longrightarrow> settled insns labels (positions sizes) sizes j"
  using resolve_loop_result [OF assms [unfolded resolve_sizes_def] sizes_ok_replicate] by simp_all

section \<open>Exceptions of the sizing loop\<close>

lemma needs_expansion_error:
  assumes "valid_labels insns labels" and "sizes_ok insns sizes" and "i < length insns"
    and "needs_expansion (insns ! i) labels (positions sizes) i = Inl e"
  shows "(\<exists>s. e = ValueError (''backward jump to label: '' @ s)) \<and> \<not> forward insns labels"
proof -
  obtain op k jt jf where x: "insns ! i = Jump op k jt jf"
    using assms(4) by (cases "insns ! i") auto
  then have "Jump op k jt jf \<in> set insns" using assms(3) by (metis nth_mem)
  note ok = target_ok_jump [OF assms(1) this]
  from assms(4) x obtain t where t: "t = jt \<or> t = jf"
    and off: "offset t labels (positions sizes) i = Inl e"
    by (auto simp: bindE_eq_Inl split: if_splits)
  then obtain s where s: "t = Some s" by (cases t) auto
  obtain j where j: "resolves labels (length insns) s j"
    using ok t s by (auto simp: target_ok_def)
  have bwd: "label_index labels s \<le> i" and e: "e = ValueError (''backward jump to label: '' @ s)"
    using offset_resolved [OF assms(2,3) j] off s by (auto split: if_splits)
  have "s \<in> set (targets (insns ! i))"
    using x t s by (cases jt; cases jf) auto
  with bwd assms(3) have "\<not> forward insns labels"
    unfolding forward_valid_iff using leD by blast
  with e show ?thesis by blast
qed

lemma resolve_pass_error:
  assumes "resolve_pass rest labels (positions sizes) i s ch = Inl e" and "drop i insns = rest"
    and "valid_labels insns labels" and "sizes_ok insns sizes"
  shows "(\<exists>s. e = ValueError (''backward jump to label: '' @ s)) \<and> \<not> forward insns labels"
  using assms(1,2)
proof (induction rest arbitrary: i s ch)
  case (Cons x rest)
  note i = drop_Cons_nth [OF Cons.prems(2)]
  show ?case
  proof (cases "needs_expansion x labels (positions sizes) i = Inl e")
    case True
    with needs_expansion_error [OF assms(3,4) i(1)] i(2) show ?thesis by simp
  next
    case False
    with Cons.prems(1) have "\<exists>s' ch'. resolve_pass rest labels (positions sizes) (Suc i) s' ch' = Inl e"
      by (auto simp: bindE_eq_Inl split: if_splits)
    with Cons.IH [OF _ i(3)] show ?thesis by blast
  qed
qed simp

lemma resolve_sizes_error:
  assumes "valid_labels insns labels" and "resolve_sizes insns labels = Inl e"
  shows "(\<exists>s. e = ValueError (''backward jump to label: '' @ s)) \<and> \<not> forward insns labels"
proof -
  obtain s where "sizes_ok insns s" "resolve_pass insns labels (positions s) 0 s False = Inl e"
    using resolve_loop_error [OF assms(2) [unfolded resolve_sizes_def]]
    by (auto simp: ones_replicate sizes_ok_replicate)
  with resolve_pass_error [OF _ drop_0 assms(1)] show ?thesis by blast
qed

lemma resolve_sizes_forward:
  assumes "forward insns labels"
  obtains sizes where "resolve_sizes insns labels = Inr sizes"
  using resolve_sizes_error [OF forward_valid [OF assms]] assms
  by (cases "resolve_sizes insns labels") auto


section \<open>Encoding\<close>

text \<open>The records an instruction at index \<open>i\<close> of size \<open>s\<close> is encoded to.\<close>

fun opt_dist :: "labels \<Rightarrow> int list \<Rightarrow> nat \<Rightarrow> string option \<Rightarrow> int" where
  "opt_dist labels pos i None = 0"
| "opt_dist labels pos i (Some t) = dist labels pos i t"

fun op_code :: "pyval \<Rightarrow> int" where
  "op_code (PyInt c) = c"
| "op_code _ = 0"

fun insn_words :: "labels \<Rightarrow> int list \<Rightarrow> nat \<Rightarrow> int \<Rightarrow> insn \<Rightarrow> sock_filter list" where
  "insn_words labels pos i s (Load k) = [(BPF_LD_ABS_W, 0, 0, k)]"
| "insn_words labels pos i s (And k) = [(BPF_ALU_AND_K, 0, 0, k)]"
| "insn_words labels pos i s (Ja t) = [(BPF_JA, 0, 0, dist labels pos i t)]"
| "insn_words labels pos i s (Ret k) = [(BPF_RET_K, 0, 0, k)]"
| "insn_words labels pos i s (Jump op k jt jf) =
     (if s = 1 then [(op_code op, opt_dist labels pos i jt, opt_dist labels pos i jf, k)]
      else case jt of
        None \<Rightarrow> [(op_code op, 1, 0, k), (BPF_JA, 0, 0, opt_dist labels pos i jf - 1)]
      | Some t \<Rightarrow>
          (op_code op, 0, 1, k) # (BPF_JA, 0, 0, dist labels pos i t - 1) #
          (case jf of None \<Rightarrow> [] | Some f \<Rightarrow> [(BPF_JA, 0, 0, dist labels pos i f - 2)]))"
| "insn_words labels pos i s OtherInsn = []"

lemma struct_pack_fits: "fits_HBBI (c, jt, jf, k) \<Longrightarrow> struct_pack c jt jf k = Inr (pack_bytes (c, jt, jf, k))"
  by (simp add: struct_pack_def)

lemma jump_ops_bound: "op \<in> JUMP_OPS \<Longrightarrow> 0 \<le> op \<and> op < 2 ^ 16"
  by (auto simp: JUMP_OPS_def const_defs)

lemma length_insn_words:
  "wf_insn x \<Longrightarrow> size_ok x s \<Longrightarrow> int (length (insn_words labels pos i s x)) = s"
  by (cases x) (auto simp: size_ok_def split: option.splits)

text \<open>Bounds on the distance of a forward target, from the position table.\<close>

lemma dist_bounds:
  assumes "sizes_ok insns sizes" and "i < length insns"
    and "resolves labels (length insns) t j" and "i < j" and "3 * length insns < 2 ^ 32"
  shows "sizes ! i - 1 \<le> dist labels (positions sizes) i t"
    and "dist labels (positions sizes) i t < 2 ^ 32"
proof -
  have j: "label_index labels t = j" "j \<le> length insns"
    using assms(3) resolves_index by (auto simp: resolves_def)
  show "sizes ! i - 1 \<le> dist labels (positions sizes) i t"
    using positions_step [OF assms(1,4) j(2)] j(1) by (simp add: dist_def)
  have "positions sizes ! j \<le> 3 * int (length insns)"
    using positions_bound [OF assms(1) j(2)] j(2) by linarith
  moreover have "0 \<le> positions sizes ! i"
    using positions_bound [OF assms(1), of i] assms(2) by linarith
  moreover have "3 * int (length insns) < 2 ^ 32"
    using assms(5) by simp
  ultimately show "dist labels (positions sizes) i t < 2 ^ 32"
    using j(1) by (simp add: dist_def)
qed

lemma ja_bytes_resolved:
  assumes "resolves labels n t j" and "length pos = Suc n"
    and "pc = pos ! i + d" and "0 \<le> dist labels pos i t - d" and "dist labels pos i t - d < 2 ^ 32"
  shows "ja_bytes (Some t) labels pos pc = Inr (pack_bytes (BPF_JA, 0, 0, dist labels pos i t - d))"
  using label_pos_resolved [OF assms(1,2)] assms(3-5)
  by (auto simp: ja_bytes_def dist_def struct_pack_def const_defs algebra_simps)


text \<open>What encoding an instruction relies on: forward targets, and short distances if unexpanded.\<close>

definition encodable :: "insn list \<Rightarrow> labels \<Rightarrow> int list \<Rightarrow> nat \<Rightarrow> bool" where
  "encodable insns labels sizes i \<longleftrightarrow>
     (\<forall>t \<in> set (targets (insns ! i)).
        (\<exists>j. resolves labels (length insns) t j) \<and>
        offset (Some t) labels (positions sizes) i = Inr (Some (dist labels (positions sizes) i t)) \<and>
        sizes ! i - 1 \<le> dist labels (positions sizes) i t \<and>
        dist labels (positions sizes) i t < 2 ^ 32 \<and>
        (is_Jump (insns ! i) \<longrightarrow> sizes ! i = 1 \<longrightarrow> dist labels (positions sizes) i t \<le> MAX_COND_JUMP))"

lemma forward_offset:
  assumes "forward insns labels" and "sizes_ok insns sizes" and "i < length insns"
    and "t \<in> set (targets (insns ! i))"
  obtains j where "resolves labels (length insns) t j" and "i < j"
    and "offset (Some t) labels (positions sizes) i = Inr (Some (dist labels (positions sizes) i t))"
proof -
  obtain j where j: "resolves labels (length insns) t j" "i < j"
    using assms unfolding forward_def by blast
  with offset_resolved [OF assms(2,3) j(1)] resolves_index [OF j(1)] that show thesis by simp
qed

lemma encodableI:
  assumes fwd: "forward insns labels" and ok: "sizes_ok insns sizes" and i: "i < length insns"
    and set: "settled insns labels (positions sizes) sizes i" and len: "3 * length insns < 2 ^ 32"
  shows "encodable insns labels sizes i"
  unfolding encodable_def
proof
  fix t assume t: "t \<in> set (targets (insns ! i))"
  obtain j where j: "resolves labels (length insns) t j" "i < j"
    and off: "offset (Some t) labels (positions sizes) i = Inr (Some (dist labels (positions sizes) i t))"
    using forward_offset [OF fwd ok i t] .
  have short: "dist labels (positions sizes) i t \<le> MAX_COND_JUMP"
    if jump: "is_Jump (insns ! i)" and one: "sizes ! i = 1"
  proof -
    obtain op k jt jf where x: "insns ! i = Jump op k jt jf"
      using jump by (cases "insns ! i") auto
    have "needs_expansion (Jump op k jt jf) labels (positions sizes) i = Inr False"
      using set jump one x by (simp add: settled_def)
    moreover have "jt = Some t \<or> jf = Some t"
      using t x by (cases jt; cases jf) auto
    ultimately show ?thesis
      using off by (auto split: if_splits)
  qed
  show "(\<exists>j. resolves labels (length insns) t j) \<and>
      offset (Some t) labels (positions sizes) i = Inr (Some (dist labels (positions sizes) i t)) \<and>
      sizes ! i - 1 \<le> dist labels (positions sizes) i t \<and>
      dist labels (positions sizes) i t < 2 ^ 32 \<and>
      (is_Jump (insns ! i) \<longrightarrow> sizes ! i = 1 \<longrightarrow> dist labels (positions sizes) i t \<le> MAX_COND_JUMP)"
    using dist_bounds [OF ok i j len] off j(1) short by blast
qed

lemma emit_jump:
  assumes enc: "encodable insns labels sizes i" and x: "insns ! i = Jump (PyInt op) k jt jf"
    and wf: "wf_insn (Jump (PyInt op) k jt jf)" and sz: "size_ok (Jump (PyInt op) k jt jf) (sizes ! i)"
    and len: "length (positions sizes) = Suc (length insns)" and i: "i < length insns"
  defines "ws \<equiv> insn_words labels (positions sizes) i (sizes ! i) (Jump (PyInt op) k jt jf)"
  shows "emit (Jump (PyInt op) k jt jf) labels (positions sizes) i (sizes ! i) = Inr (concat (map pack_bytes ws))
    \<and> (\<forall>w \<in> set ws. fits_HBBI w)"
proof -
  let ?pos = "positions sizes"
  have tgt: "offset (Some t) labels ?pos i = Inr (Some (dist labels ?pos i t))"
      "sizes ! i - 1 \<le> dist labels ?pos i t" "dist labels ?pos i t < 2 ^ 32"
      "sizes ! i = 1 \<Longrightarrow> dist labels ?pos i t \<le> 255"
      "\<exists>j. resolves labels (length insns) t j"
    if "t \<in> set (targets (Jump (PyInt op) k jt jf))" for t
    using enc that x by (auto simp: encodable_def MAX_COND_JUMP_def)
  have opt: "offset t labels ?pos i = Inr (map_option (dist labels ?pos i) t)"
    if "t = jt \<or> t = jf" for t
    using that tgt(1) by (cases t; cases jt; cases jf) auto
  have k: "0 \<le> k" "k < 2 ^ 32" "0 \<le> op" "op < 2 ^ 16"
    using wf jump_ops_bound by (auto simp: const_defs)
  have q: "py_index ?pos (PyInt (int i)) = Inr (?pos ! i)"
    using len i by simp
  have ja: "ja_bytes (Some t) labels ?pos (?pos ! i + d) = Inr (pack_bytes (BPF_JA, 0, 0, dist labels ?pos i t - d))
      \<and> fits_HBBI (BPF_JA, 0, 0, dist labels ?pos i t - d)"
    if "t \<in> set (targets (Jump (PyInt op) k jt jf))" and "0 \<le> d" and "d \<le> sizes ! i - 1" for t d
  proof -
    have "0 \<le> dist labels ?pos i t - d" "dist labels ?pos i t - d < 2 ^ 32"
      using tgt(2,3) [OF that(1)] that(2,3) by linarith+
    then show ?thesis
      using tgt(5) [OF that(1)] ja_bytes_resolved [OF _ len refl] by (auto simp: const_defs)
  qed
  show ?thesis
  proof (cases "sizes ! i = 1")
    case True
    have "0 \<le> opt_dist labels ?pos i t \<and> opt_dist labels ?pos i t < 256 \<and>
        or_zero (map_option (dist labels ?pos i) t) = opt_dist labels ?pos i t \<and>
        \<not> too_far (map_option (dist labels ?pos i) t)" if "t = jt \<or> t = jf" for t
    proof (cases t)
      case (Some u)
      with that have "u \<in> set (targets (Jump (PyInt op) k jt jf))" by (cases jt; cases jf) auto
      with tgt(2,4) [OF this] True Some show ?thesis by (simp add: const_defs)
    qed simp
    then show ?thesis
      using True k opt by (simp add: ws_def pack_jump_def struct_pack_def)
  next
    case False
    with sz have s: "sizes ! i = expanded_size (Jump (PyInt op) k jt jf)" "jt \<noteq> None \<or> jf \<noteq> None"
      by (cases jt; cases jf; simp add: size_ok_def)+
    show ?thesis
      using False s k q opt ja [where d = 1] ja [where d = 2] unfolding ws_def
      by (cases jt; cases jf) (simp_all add: emit_expanded_def pack_jump_def struct_pack_def BPF_JA_def)
  qed
qed


lemma emit_words:
  assumes enc: "encodable insns labels sizes i" and ok: "sizes_ok insns sizes"
    and i: "i < length insns" and wf: "wf_insn (insns ! i)"
  shows "emit (insns ! i) labels (positions sizes) i (sizes ! i) =
      Inr (concat (map pack_bytes (insn_words labels (positions sizes) i (sizes ! i) (insns ! i))))"
    and "\<forall>w \<in> set (insn_words labels (positions sizes) i (sizes ! i) (insns ! i)). fits_HBBI w"
proof -
  have len: "length (positions sizes) = Suc (length insns)"
    using sizes_ok_length [OF ok] by simp
  have "emit (insns ! i) labels (positions sizes) i (sizes ! i) =
      Inr (concat (map pack_bytes (insn_words labels (positions sizes) i (sizes ! i) (insns ! i))))
    \<and> (\<forall>w \<in> set (insn_words labels (positions sizes) i (sizes ! i) (insns ! i)). fits_HBBI w)"
  proof (cases "insns ! i")
    case (Jump op k jt jf)
    then obtain c where "insns ! i = Jump (PyInt c) k jt jf" using wf by auto
    with emit_jump [OF enc this] wf sizes_ok_nth [OF ok i] len i show ?thesis by simp
  next
    case (Ja t)
    with enc sizes_ok_bounds [OF ok i] show ?thesis
      by (auto simp: encodable_def struct_pack_def const_defs)
  qed (use wf in \<open>auto simp: struct_pack_def const_defs\<close>)
  then show "emit (insns ! i) labels (positions sizes) i (sizes ! i) =
      Inr (concat (map pack_bytes (insn_words labels (positions sizes) i (sizes ! i) (insns ! i))))"
    and "\<forall>w \<in> set (insn_words labels (positions sizes) i (sizes ! i) (insns ! i)). fits_HBBI w"
    by simp_all
qed

text \<open>The records of the instructions from index \<open>i\<close> on.\<close>

fun prog_words :: "labels \<Rightarrow> int list \<Rightarrow> int list \<Rightarrow> nat \<Rightarrow> insn list \<Rightarrow> sock_filter list" where
  "prog_words labels pos sizes i [] = []"
| "prog_words labels pos sizes i (x # xs) =
     insn_words labels pos i (sizes ! i) x @ prog_words labels pos sizes (Suc i) xs"

lemma assemble_loop_words:
  assumes "\<And>j. j < length insns \<Longrightarrow> encodable insns labels sizes j"
    and "sizes_ok insns sizes" and "list_all wf_insn insns" and "drop i insns = xs"
  shows "assemble_loop xs labels (positions sizes) sizes i out =
      Inr (out @ concat (map pack_bytes (prog_words labels (positions sizes) sizes i xs)))
    \<and> (\<forall>w \<in> set (prog_words labels (positions sizes) sizes i xs). fits_HBBI w)"
  using assms(4)
proof (induction xs arbitrary: i out)
  case (Cons x xs)
  note i = drop_Cons_nth [OF Cons.prems]
  have wf: "wf_insn (insns ! i)" using assms(3) i(1) by (simp add: list_all_length)
  note em = emit_words [OF assms(1) [OF i(1)] assms(2) i(1) wf]
  with Cons.IH [OF i(3)] i sizes_ok_length [OF assms(2)] show ?case by auto
qed simp


section \<open>Success and failure of \<open>assemble\<close>\<close>

definition layout :: "insn list \<Rightarrow> labels \<Rightarrow> int list \<Rightarrow> bool" where
  "layout insns labels sizes \<longleftrightarrow>
     sizes_ok insns sizes \<and> (\<forall>i < length insns. encodable insns labels sizes i)"

lemma assemble_forward:
  assumes "forward insns labels" and "list_all wf_insn insns" and "3 * length insns < 2 ^ 32"
  obtains sizes where "layout insns labels sizes"
    and "assemble insns labels =
           Inr (concat (map pack_bytes (prog_words labels (positions sizes) sizes 0 insns)))"
    and "\<forall>w \<in> set (prog_words labels (positions sizes) sizes 0 insns). fits_HBBI w"
proof -
  obtain sizes where sizes: "resolve_sizes insns labels = Inr sizes"
    using resolve_sizes_forward [OF assms(1)] .
  note ok = resolve_sizes_result [OF sizes]
  have enc: "encodable insns labels sizes i" if "i < length insns" for i
    using encodableI [OF assms(1) ok(1) that ok(2) assms(3)] that by simp
  have "validate_labels insns labels = Inr ()"
    using forward_valid [OF assms(1)] by (simp add: validate_labels_iff)
  with sizes assemble_loop_words [OF enc ok(1) assms(2) drop_0, of "[]"]
  have "assemble insns labels =
        Inr (concat (map pack_bytes (prog_words labels (positions sizes) sizes 0 insns)))"
    and "\<forall>w \<in> set (prog_words labels (positions sizes) sizes 0 insns). fits_HBBI w"
    by (simp_all add: assemble_def)
  with enc ok(1) that show thesis by (auto simp: layout_def)
qed

lemma emit_success_offset:
  assumes "emit x labels pos i s = Inr b" and "t \<in> set (targets x)"
  shows "\<exists>d. offset (Some t) labels pos i = Inr d"
proof (cases x)
  case (Jump op k jt jf)
  then have "t \<in> set_option jt \<union> set_option jf"
    using assms(2) by (cases jt; cases jf) auto
  with assms(1) Jump show ?thesis by auto
qed (use assms in auto)

lemma assemble_loop_success:
  assumes "assemble_loop xs labels pos sizes i out = Inr prog" and "drop i insns = xs"
    and "i \<le> j" and "j < length insns"
  shows "\<exists>s b. emit (insns ! j) labels pos j s = Inr b"
  using assms
proof (induction xs arbitrary: i out)
  case (Cons x xs)
  note i = drop_Cons_nth [OF Cons.prems(2)]
  from Cons.prems(1) obtain s b where e: "emit x labels pos i s = Inr b"
    and rest: "assemble_loop xs labels pos sizes (Suc i) (out @ b) = Inr prog"
    by auto
  show ?case
  proof (cases "i = j")
    case True
    with e i(2) show ?thesis by auto
  next
    case False
    with Cons.IH [OF rest i(3)] Cons.prems(3,4) show ?thesis by simp
  qed
qed simp

lemma assemble_success_forward:
  assumes "assemble insns labels = Inr prog"
  shows "forward insns labels"
proof -
  obtain sizes where val: "validate_labels insns labels = Inr ()"
    and sizes: "resolve_sizes insns labels = Inr sizes"
    and loop: "assemble_loop insns labels (positions sizes) sizes 0 [] = Inr prog"
    using assms by (auto simp: assemble_def)
  from val have valid: "valid_labels insns labels" by (simp add: validate_labels_iff)
  note ok = resolve_sizes_result(1) [OF sizes]
  show ?thesis
    unfolding forward_valid_iff
  proof (intro conjI valid allI impI ballI)
    fix i t assume i: "i < length insns" and t: "t \<in> set (targets (insns ! i))"
    obtain s b where "emit (insns ! i) labels (positions sizes) i s = Inr b"
      using assemble_loop_success [OF loop drop_0 le0 i] by blast
    then obtain d where d: "offset (Some t) labels (positions sizes) i = Inr d"
      using emit_success_offset t by blast
    obtain j where "resolves labels (length insns) t j"
      using valid i t unfolding valid_labels_def by (meson nth_mem)
    from offset_resolved [OF ok i this] d show "i < label_index labels t"
      by (auto split: if_splits)
  qed
qed


section \<open>Exceptions of the encoder\<close>

lemma label_pos_valid: "target_ok insns labels (Some t) \<Longrightarrow> length pos = Suc (length insns) \<Longrightarrow>
    \<exists>p. label_pos labels pos t = Inr p"
  using label_pos_resolved by (fastforce simp: target_ok_def)

lemma ja_bytes_error:
  assumes "target_ok insns labels t" and "length pos = Suc (length insns)"
    and "ja_bytes t labels pos pc = Inl e"
  shows "\<exists>m. e = ValueError m"
proof (cases t)
  case (Some u)
  with label_pos_valid assms(1,2) obtain p where "label_pos labels pos u = Inr p" by blast
  with assms(3) Some show ?thesis
    by (auto simp: ja_bytes_def Let_def struct_pack_def BPF_JA_def split: if_splits)
qed (use assms(3) in \<open>auto simp: ja_bytes_def\<close>)

lemma offset_nonneg: "offset t labels pos i = Inr (Some d) \<Longrightarrow> 0 \<le> d"
  by (auto simp: offset_def Let_def split: option.splits if_splits)

lemma or_zero_range: "offset t labels pos i = Inr d \<Longrightarrow> \<not> too_far d \<Longrightarrow> 0 \<le> or_zero d \<and> or_zero d < 2 ^ 8"
  by (cases d) (auto simp: MAX_COND_JUMP_def dest: offset_nonneg)

lemma emit_jump_error:
  assumes ok: "sizes_ok insns sizes" and i: "i < length insns"
    and t: "target_ok insns labels jt" "target_ok insns labels jf"
    and wf: "wf_insn (Jump (PyInt op) k jt jf)"
    and err: "emit (Jump (PyInt op) k jt jf) labels (positions sizes) i s = Inl e"
  shows "\<exists>m. e = ValueError m"
proof -
  have len: "length (positions sizes) = Suc (length insns)" using sizes_ok_length [OF ok] by simp
  have k: "0 \<le> k" "k < 2 ^ 32" "0 \<le> op" "op < 2 ^ 16"
    using wf jump_ops_bound by (auto simp: const_defs)
  from err consider "offset jt labels (positions sizes) i = Inl e"
    | "offset jf labels (positions sizes) i = Inl e"
    | o1 o2 where "offset jt labels (positions sizes) i = Inr o1"
        "offset jf labels (positions sizes) i = Inr o2" "s = 1"
        "(if too_far o1 \<or> too_far o2 then Inl (ValueError ''conditional jump out of range'')
          else pack_jump (PyInt op) (or_zero o1) (or_zero o2) k) = Inl e"
    | "emit_expanded (PyInt op) k jt jf labels (positions sizes) i = Inl e"
    by (auto simp: bindE_eq_Inl split: if_splits)
  then show ?thesis
  proof cases
    case 3
    then show ?thesis
      using k or_zero_range by (auto simp: pack_jump_def struct_pack_def split: if_splits)
  next
    case 4
    then show ?thesis
      using ja_bytes_error [OF t(1) len] ja_bytes_error [OF t(2) len] k len i
      by (auto simp: emit_expanded_def bindE_eq_Inl pack_jump_def struct_pack_def split: if_splits)
  qed (use offset_error [OF ok i] t in blast)+
qed

lemma emit_error:
  assumes "valid_labels insns labels" and "sizes_ok insns sizes" and "i < length insns"
    and "wf_insn (insns ! i)" and "emit (insns ! i) labels (positions sizes) i s = Inl e"
  shows "\<exists>m. e = ValueError m"
proof (cases "insns ! i")
  case (Jump op k jt jf)
  then obtain c where c: "op = PyInt c" using assms(4) by auto
  from Jump have "Jump op k jt jf \<in> set insns" using assms(3) by (metis nth_mem)
  from c emit_jump_error [OF assms(2,3) target_ok_jump [OF assms(1) this]] assms(4,5) Jump
  show ?thesis by simp
next
  case (Ja t)
  then have "t \<in> set (targets (insns ! i))" by simp
  then have "target_ok insns labels (Some t)"
    using assms(1,3) nth_mem unfolding valid_labels_def target_ok_def by blast
  from offset_error [OF assms(2,3) this] assms(5) Ja show ?thesis
    by (auto simp: bindE_eq_Inl struct_pack_def BPF_JA_def dest: offset_nonneg
        split: option.splits if_splits)
qed (use assms(4,5) in \<open>auto simp: struct_pack_def const_defs\<close>)

lemma assemble_loop_error:
  assumes "assemble_loop xs labels (positions sizes) sizes i out = Inl e" and "drop i insns = xs"
    and "valid_labels insns labels" and "sizes_ok insns sizes" and "list_all wf_insn insns"
  shows "\<exists>m. e = ValueError m"
  using assms(1,2)
proof (induction xs arbitrary: i out)
  case (Cons x xs)
  note i = drop_Cons_nth [OF Cons.prems(2)]
  have "emit x labels (positions sizes) i (sizes ! i) = Inl e \<or>
      (\<exists>out'. assemble_loop xs labels (positions sizes) sizes (Suc i) out' = Inl e)"
    using Cons.prems(1) i(1) sizes_ok_length [OF assms(4)] by (auto simp: bindE_eq_Inl)
  with Cons.IH [OF _ i(3)] emit_error [OF assms(3,4) i(1)] assms(5) i show ?case
    by (auto simp: list_all_length)
qed simp

lemma assemble_error:
  assumes "list_all wf_insn insns" and "assemble insns labels = Inl e"
  shows "\<exists>m. e = ValueError m"
proof (cases "validate_labels insns labels")
  case (Inl e')
  with assms(2) validate_labels_error show ?thesis by (auto simp: assemble_def)
next
  case (Inr u)
  then have valid: "valid_labels insns labels" by (simp add: validate_labels_iff)
  show ?thesis
  proof (cases "resolve_sizes insns labels")
    case (Inl e')
    with resolve_sizes_error [OF valid Inl] \<open>validate_labels insns labels = Inr u\<close> assms(2)
    show ?thesis by (auto simp: assemble_def)
  next
    case (Inr sizes)
    with assemble_loop_error [OF _ drop_0 valid resolve_sizes_result(1) [OF Inr] assms(1)]
      \<open>validate_labels insns labels = Inr u\<close> assms(2)
    show ?thesis by (auto simp: assemble_def)
  qed
qed

end
