(* ===== verification/Bpf_Exec.thy ===== *)
theory Bpf_Exec
  imports Bpf_Layout
begin

text \<open>
  Execution of BPF programs. \<open>run_packed\<close> interprets assembled bytes and \<open>run_source\<close> the
  symbolic program; both are the interpreters of \<^verbatim>\<open>tests/test_bpf.py\<close>. The main result is
  that an assembled program computes what its source computes, whatever jumps had to be
  expanded, and that execution always ends.
\<close>

section \<open>The packed interpreter\<close>

text \<open>\<^verbatim>\<open>struct.unpack_from("<HBBI", prog, 8 * pc)\<close>: raises past the end of the buffer.\<close>

definition unpack_from :: "bytes \<Rightarrow> nat \<Rightarrow> sock_filter result" where
  "unpack_from prog pc =
     (if 8 * pc + 8 \<le> length prog
      then let b = take 8 (drop (8 * pc) prog)
           in Inr (le_int (take 2 b), le_int (take 1 (drop 2 b)), le_int (take 1 (drop 3 b)), le_int (drop 4 b))
      else Inl StructError)"

definition load_word :: "bytes \<Rightarrow> int \<Rightarrow> int" where
  "load_word data k = le_int (slice4 data (nat k))"

text \<open>The condition of a jump opcode; None for an opcode that is not a conditional jump.\<close>

definition jump_cond :: "int \<Rightarrow> int \<Rightarrow> int \<Rightarrow> bool option" where
  "jump_cond code acc k =
     (if code = BPF_JEQ then Some (acc = k)
      else if code = BPF_JGT then Some (acc > k)
      else if code = BPF_JGEQ then Some (acc \<ge> k)
      else if code = BPF_JSET then Some (acc AND k \<noteq> 0)
      else None)"

lemma unpack_from_bound: "unpack_from prog pc = Inr w \<Longrightarrow> pc < length prog"
  by (auto simp: unpack_from_def split: if_splits)

function run_packed :: "bytes \<Rightarrow> bytes \<Rightarrow> int \<Rightarrow> nat \<Rightarrow> int result" where
  "run_packed prog data acc pc =
     (case unpack_from prog pc of
        Inl e \<Rightarrow> Inl e
      | Inr (code, jt, jf, k) \<Rightarrow>
          if code = BPF_LD_ABS_W then run_packed prog data (load_word data k) (pc + 1)
          else if code = BPF_ALU_AND_K then run_packed prog data (acc AND k) (pc + 1)
          else if code = BPF_JA then run_packed prog data acc (pc + 1 + nat k)
          else if code = BPF_RET_K then Inr k
          else (case jump_cond code acc k of
                  Some b \<Rightarrow> run_packed prog data acc (pc + 1 + nat (if b then jt else jf))
                | None \<Rightarrow> Inl (AssertionError ''bad opcode'')))"
  by pat_completeness auto
termination
proof (relation "measure (\<lambda>(prog, data, acc, pc). length prog - pc)", goal_cases)
  case 1
  show ?case by simp
qed (auto dest!: unpack_from_bound)

declare run_packed.simps [simp del]

section \<open>The source interpreter\<close>

text \<open>
  \<^verbatim>\<open>labels[target]\<close> becomes the program counter and \<^verbatim>\<open>insns[pc]\<close> is a Python subscription, so
  the counter is any label value. A program with backward labels may run forever, which
  is the value None.
\<close>

fun source_target :: "labels \<Rightarrow> int \<Rightarrow> string option \<Rightarrow> pyval result" where
  "source_target labels pc None = Inr (PyInt (pc + 1))"
| "source_target labels pc (Some t) = py_getitem labels t"

fun pc_int :: "pyval \<Rightarrow> int" where
  "pc_int (PyInt i) = i"
| "pc_int _ = 0"

partial_function (option) run_source ::
    "insn list \<Rightarrow> labels \<Rightarrow> bytes \<Rightarrow> int \<Rightarrow> pyval \<Rightarrow> int result option" where
  "run_source insns labels data acc pc =
     (case py_index insns pc of
        Inl e \<Rightarrow> Some (Inl e)
      | Inr x \<Rightarrow>
         (case x of
            Load k \<Rightarrow> run_source insns labels data (load_word data k) (PyInt (pc_int pc + 1))
          | And k \<Rightarrow> run_source insns labels data (acc AND k) (PyInt (pc_int pc + 1))
          | Jump op k jt jf \<Rightarrow>
             (case Option.bind (int_value op) (\<lambda>c. jump_cond c acc k) of
                None \<Rightarrow> Some (Inl KeyError)
              | Some b \<Rightarrow>
                 (case source_target labels (pc_int pc) (if b then jt else jf) of
                    Inl e \<Rightarrow> Some (Inl e)
                  | Inr pc' \<Rightarrow> run_source insns labels data acc pc'))
          | Ja t \<Rightarrow>
             (case py_getitem labels t of
                Inl e \<Rightarrow> Some (Inl e)
              | Inr pc' \<Rightarrow> run_source insns labels data acc pc')
          | Ret k \<Rightarrow> Some (Inr k)
          | OtherInsn \<Rightarrow> Some (Inl (TypeError ''bad insn''))))"


section \<open>Fetching from an assembled program\<close>

lemma length_pack_bytes [simp]: "length (pack_bytes w) = 8"
  by (cases w) simp

lemma unpack_pack:
  assumes "fits_HBBI w"
  shows "unpack_from (pack_bytes w) 0 = Inr w"
proof -
  obtain c jt jf k where w: "w = (c, jt, jf, k)" by (cases w)
  have "take 2 (pack_bytes w) = le_bytes 2 c" "take 1 (drop 2 (pack_bytes w)) = le_bytes 1 jt"
    "take 1 (drop 3 (pack_bytes w)) = le_bytes 1 jf" "drop 4 (pack_bytes w) = le_bytes 4 k"
    by (simp_all add: w del: le_bytes.simps)
  with assms w show ?thesis
    by (simp add: unpack_from_def Let_def le_int_le_bytes del: pack_bytes.simps le_bytes.simps)
qed

lemma unpack_from_chunk: "8 * pc + 8 \<le> length prog \<Longrightarrow>
    unpack_from prog pc = unpack_from (take 8 (drop (8 * pc) prog)) 0"
  by (simp add: unpack_from_def)

lemma unpack_program:
  assumes "\<forall>w \<in> set ws. fits_HBBI w"
  shows "unpack_from (concat (map pack_bytes ws)) pc =
    (if pc < length ws then Inr (ws ! pc) else Inl StructError)"
proof -
  have len: "length (concat (map pack_bytes ws)) = 8 * length ws"
    by (rule length_concat_chunks) simp
  show ?thesis
  proof (cases "pc < length ws")
    case True
    then have "take 8 (drop (8 * pc) (concat (map pack_bytes ws))) = pack_bytes (ws ! pc)"
      by (intro concat_chunk_nth) simp_all
    moreover have "fits_HBBI (ws ! pc)" using assms True by simp
    moreover have "8 * pc + 8 \<le> length (concat (map pack_bytes ws))" using True len by simp
    ultimately have "unpack_from (concat (map pack_bytes ws)) pc = Inr (ws ! pc)"
      using unpack_from_chunk unpack_pack by metis
    then show ?thesis using True by simp
  next
    case False
    then show ?thesis using len by (simp add: unpack_from_def)
  qed
qed

lemma drop_prog_words:
  assumes "layout insns labels sizes" and "list_all wf_insn insns" and "i \<le> length insns"
  shows "drop (nat (positions sizes ! i)) (prog_words labels (positions sizes) sizes 0 insns) =
    prog_words labels (positions sizes) sizes i (drop i insns)"
  using assms(3)
proof (induction i)
  case (Suc i)
  let ?W = "prog_words labels (positions sizes) sizes"
  let ?w = "insn_words labels (positions sizes) i (sizes ! i) (insns ! i)"
  have ok: "sizes_ok insns sizes" using assms(1) by (simp add: layout_def)
  have i: "i < length insns" using Suc.prems by simp
  have w: "int (length ?w) = sizes ! i"
    using length_insn_words sizes_ok_nth [OF ok i] assms(2) i by (simp add: list_all_length)
  have "0 \<le> positions sizes ! i"
    using positions_bound [OF ok, of i] i by linarith
  then have "nat (positions sizes ! Suc i) = length ?w + nat (positions sizes ! i)"
    using w positions_Suc [of i sizes] sizes_ok_length [OF ok] i by simp
  then have "drop (nat (positions sizes ! Suc i)) (?W 0 insns) = drop (length ?w) (?W i (drop i insns))"
    using Suc.IH i by (simp flip: drop_drop)
  also have "drop i insns = insns ! i # drop (Suc i) insns"
    using i by (simp add: Cons_nth_drop_Suc)
  finally show ?case by simp
qed simp

lemma fetch_insn:
  assumes "layout insns labels sizes" and "list_all wf_insn insns" and "i < length insns"
    and "\<forall>w \<in> set (prog_words labels (positions sizes) sizes 0 insns). fits_HBBI w"
    and "d < length (insn_words labels (positions sizes) i (sizes ! i) (insns ! i))"
  shows "unpack_from (concat (map pack_bytes (prog_words labels (positions sizes) sizes 0 insns)))
      (nat (positions sizes ! i) + d) = Inr (insn_words labels (positions sizes) i (sizes ! i) (insns ! i) ! d)"
proof -
  let ?ws = "prog_words labels (positions sizes) sizes 0 insns"
  let ?w = "insn_words labels (positions sizes) i (sizes ! i) (insns ! i)"
  have "drop (nat (positions sizes ! i)) ?ws =
      ?w @ prog_words labels (positions sizes) sizes (Suc i) (drop (Suc i) insns)"
    using drop_prog_words [OF assms(1,2), of i] assms(3) by (simp flip: Cons_nth_drop_Suc)
  then have "drop (nat (positions sizes ! i)) ?ws ! d = ?w ! d"
      and "d < length (drop (nat (positions sizes ! i)) ?ws)"
    using assms(5) by (simp_all add: nth_append)
  then have "?ws ! (nat (positions sizes ! i) + d) = ?w ! d"
      and "nat (positions sizes ! i) + d < length ?ws"
    by auto
  then show ?thesis using unpack_program [OF assms(4)] by simp
qed

lemma fetch_end:
  assumes "layout insns labels sizes" and "list_all wf_insn insns"
    and "\<forall>w \<in> set (prog_words labels (positions sizes) sizes 0 insns). fits_HBBI w"
  shows "unpack_from (concat (map pack_bytes (prog_words labels (positions sizes) sizes 0 insns)))
      (nat (positions sizes ! length insns)) = Inl StructError"
proof -
  have "drop (nat (positions sizes ! length insns)) (prog_words labels (positions sizes) sizes 0 insns) = []"
    using drop_prog_words [OF assms(1,2) order_refl] by simp
  then show ?thesis using unpack_program [OF assms(3)] by simp
qed


section \<open>Single steps of the two interpreters\<close>

lemma packed_load: "unpack_from prog pc = Inr (BPF_LD_ABS_W, jt, jf, k) \<Longrightarrow>
    run_packed prog data acc pc = run_packed prog data (load_word data k) (pc + 1)"
  by (simp add: run_packed.simps [of prog data acc pc])

lemma packed_and: "unpack_from prog pc = Inr (BPF_ALU_AND_K, jt, jf, k) \<Longrightarrow>
    run_packed prog data acc pc = run_packed prog data (acc AND k) (pc + 1)"
  by (simp add: run_packed.simps [of prog data acc pc] const_defs)

lemma packed_ja: "unpack_from prog pc = Inr (BPF_JA, jt, jf, k) \<Longrightarrow>
    run_packed prog data acc pc = run_packed prog data acc (pc + 1 + nat k)"
  by (simp add: run_packed.simps [of prog data acc pc] const_defs)

lemma packed_ret: "unpack_from prog pc = Inr (BPF_RET_K, jt, jf, k) \<Longrightarrow>
    run_packed prog data acc pc = Inr k"
  by (simp add: run_packed.simps [of prog data acc pc] const_defs)

lemma packed_jump: "unpack_from prog pc = Inr (op, jt, jf, k) \<Longrightarrow> jump_cond op acc k = Some b \<Longrightarrow>
    run_packed prog data acc pc = run_packed prog data acc (pc + 1 + nat (if b then jt else jf))"
  by (simp add: run_packed.simps [of prog data acc pc] jump_cond_def const_defs split: if_splits)

lemma packed_stop: "unpack_from prog pc = Inl e \<Longrightarrow> run_packed prog data acc pc = Inl e"
  by (simp add: run_packed.simps [of prog data acc pc])

lemma jump_cond_ops: "op \<in> JUMP_OPS \<Longrightarrow> \<exists>b. jump_cond op acc k = Some b"
  by (auto simp: JUMP_OPS_def jump_cond_def)

text \<open>The program counter of the source after a taken label or a fall through.\<close>

fun next_pc :: "labels \<Rightarrow> nat \<Rightarrow> string option \<Rightarrow> nat" where
  "next_pc labels i None = Suc i"
| "next_pc labels i (Some t) = label_index labels t"

lemma source_stop: "length insns \<le> i \<Longrightarrow>
    run_source insns labels data acc (PyInt (int i)) = Some (Inl IndexError)"
  by (simp add: run_source.simps [of insns labels data acc])

lemma source_load: "i < length insns \<Longrightarrow> insns ! i = Load k \<Longrightarrow>
    run_source insns labels data acc (PyInt (int i)) =
    run_source insns labels data (load_word data k) (PyInt (int (Suc i)))"
  by (simp add: run_source.simps [of insns labels data acc] add.commute)

lemma source_and: "i < length insns \<Longrightarrow> insns ! i = And k \<Longrightarrow>
    run_source insns labels data acc (PyInt (int i)) =
    run_source insns labels data (acc AND k) (PyInt (int (Suc i)))"
  by (simp add: run_source.simps [of insns labels data acc] add.commute)

lemma source_ret: "i < length insns \<Longrightarrow> insns ! i = Ret k \<Longrightarrow>
    run_source insns labels data acc (PyInt (int i)) = Some (Inr k)"
  by (simp add: run_source.simps [of insns labels data acc])

lemma source_ja: "i < length insns \<Longrightarrow> insns ! i = Ja t \<Longrightarrow> resolves labels n t j \<Longrightarrow>
    run_source insns labels data acc (PyInt (int i)) =
    run_source insns labels data acc (PyInt (int (label_index labels t)))"
  by (simp add: run_source.simps [of insns labels data acc "PyInt (int i)"] resolves_def label_index_def)

lemma source_jump:
  assumes "i < length insns" and "insns ! i = Jump (PyInt op) k jt jf" and "jump_cond op acc k = Some b"
    and "target_ok insns labels (if b then jt else jf)"
  shows "run_source insns labels data acc (PyInt (int i)) =
    run_source insns labels data acc (PyInt (int (next_pc labels i (if b then jt else jf))))"
proof (cases "if b then jt else jf")
  case None
  with assms show ?thesis
    by (simp add: run_source.simps [of insns labels data acc "PyInt (int i)"] add.commute)
next
  case (Some t)
  then obtain j where "labels t = Some (PyInt (int j))"
    using assms(4) by (auto simp: target_ok_def resolves_def)
  with assms Some show ?thesis
    by (simp add: run_source.simps [of insns labels data acc "PyInt (int i)"] label_index_def)
qed


section \<open>Assembly preserves execution\<close>

definition object_code :: "insn list \<Rightarrow> labels \<Rightarrow> int list \<Rightarrow> bytes" where
  "object_code insns labels sizes =
     concat (map pack_bytes (prog_words labels (positions sizes) sizes 0 insns))"

definition assembled :: "insn list \<Rightarrow> labels \<Rightarrow> int list \<Rightarrow> bool" where
  "assembled insns labels sizes \<longleftrightarrow>
     layout insns labels sizes \<and> list_all wf_insn insns \<and>
     (\<forall>w \<in> set (prog_words labels (positions sizes) sizes 0 insns). fits_HBBI w)"

lemma assembled_fetch:
  assumes "assembled insns labels sizes" and "i < length insns"
    and "d < length (insn_words labels (positions sizes) i (sizes ! i) (insns ! i))"
  shows "unpack_from (object_code insns labels sizes) (nat (positions sizes ! i) + d) =
    Inr (insn_words labels (positions sizes) i (sizes ! i) (insns ! i) ! d)"
  using assms fetch_insn unfolding assembled_def object_code_def by blast

lemma assembled_Suc:
  assumes "assembled insns labels sizes" and "i < length insns"
  shows "nat (positions sizes ! Suc i) = nat (positions sizes ! i) + nat (sizes ! i)"
proof -
  have ok: "sizes_ok insns sizes" using assms(1) by (simp add: assembled_def layout_def)
  then show ?thesis
    using positions_Suc [of i sizes] sizes_ok_length [OF ok] assms(2)
      positions_bound [OF ok, of i] sizes_ok_bounds [OF ok assms(2)]
    by (simp add: nat_add_distrib)
qed

lemma assembled_target:
  assumes "assembled insns labels sizes" and "i < length insns"
    and "t \<in> set (targets (insns ! i))" and "0 \<le> c" and "c \<le> sizes ! i - 1"
  shows "nat (positions sizes ! i) + nat c + 1 + nat (dist labels (positions sizes) i t - c) =
    nat (positions sizes ! label_index labels t)"
proof -
  have ok: "sizes_ok insns sizes" and "encodable insns labels sizes i"
    using assms(1,2) by (simp_all add: assembled_def layout_def)
  then have "sizes ! i - 1 \<le> dist labels (positions sizes) i t"
    using assms(3) by (simp add: encodable_def)
  moreover have "0 \<le> positions sizes ! i"
    using positions_bound [OF ok, of i] assms(2) by linarith
  ultimately show ?thesis
    using assms(4,5) by (simp add: dist_def nat_add_distrib [symmetric])
qed

text \<open>An encoded conditional jump, expanded or not, reaches the position of its target.\<close>

lemma packed_cond_jump:
  assumes asm: "assembled insns labels sizes" and i: "i < length insns"
    and x: "insns ! i = Jump (PyInt op) k jt jf" and b: "jump_cond op acc k = Some b"
  shows "run_packed (object_code insns labels sizes) data acc (nat (positions sizes ! i)) =
    run_packed (object_code insns labels sizes) data acc
      (nat (positions sizes ! next_pc labels i (if b then jt else jf)))"
proof -
  let ?prog = "object_code insns labels sizes" and ?p = "nat (positions sizes ! i)"
  let ?w = "insn_words labels (positions sizes) i (sizes ! i) (insns ! i)"
  have sz: "size_ok (Jump (PyInt op) k jt jf) (sizes ! i)"
    using asm i x sizes_ok_nth by (fastforce simp: assembled_def layout_def)
  note fetch = assembled_fetch [OF asm i] and tgt = assembled_target [OF asm i]
  show ?thesis
  proof (cases "sizes ! i = 1")
    case True
    then have f: "unpack_from ?prog ?p = Inr (op, opt_dist labels (positions sizes) i jt,
        opt_dist labels (positions sizes) i jf, k)"
      using fetch [of 0] x by simp
    show ?thesis
      using packed_jump [OF f b] True assembled_Suc [OF asm i] tgt [where c = 0] x
      by (cases jt; cases jf) auto
  next
    case False
    then have s: "sizes ! i = expanded_size (Jump (PyInt op) k jt jf)" "jt \<noteq> None \<or> jf \<noteq> None"
      using sz by (cases jt; cases jf; simp add: size_ok_def)+
    have ja: "run_packed ?prog data acc (?p + nat c) = run_packed ?prog data acc
          (nat (positions sizes ! label_index labels t))"
      if "?w ! nat c = (BPF_JA, 0, 0, dist labels (positions sizes) i t - c)"
        and "nat c < length ?w" and "t \<in> set (targets (insns ! i))"
        and "0 \<le> c" and "c \<le> sizes ! i - 1" for t c
      using packed_ja [of ?prog "?p + nat c"] fetch [OF that(2)] that(1) tgt [OF that(3-5)] by simp
    show ?thesis
    proof (cases jt)
      case None
      then obtain f where f: "jf = Some f" using s by auto
      have "unpack_from ?prog ?p = Inr (op, 1, 0, k)"
        using fetch [of 0] x False None f by simp
      then show ?thesis
        using packed_jump [OF _ b] assembled_Suc [OF asm i] ja [of 1 f] x s None f by auto
    next
      case (Some t)
      have "unpack_from ?prog ?p = Inr (op, 0, 1, k)"
        using fetch [of 0] x False Some by simp
      then show ?thesis
        using packed_jump [OF _ b] assembled_Suc [OF asm i] ja [of 1 t] ja [of 2 "the jf"] x s Some
        by (cases jf) (auto simp: numeral_2_eq_2)
    qed
  qed
qed


text \<open>
  Agreement of a source run with a packed run: the same result, or both ran past the last
  instruction (an IndexError of the one interpreter, a struct.error of the other).
\<close>

fun agree :: "int result option \<Rightarrow> int result \<Rightarrow> bool" where
  "agree s (Inr v) \<longleftrightarrow> s = Some (Inr v)"
| "agree s (Inl e) \<longleftrightarrow> e = StructError \<and> s = Some (Inl IndexError)"

lemma simulation:
  assumes fwd: "forward insns labels" and asm: "assembled insns labels sizes" and "i \<le> length insns"
  shows "agree (run_source insns labels data acc (PyInt (int i)))
    (run_packed (object_code insns labels sizes) data acc (nat (positions sizes ! i)))"
  using assms(3)
proof (induction "length insns - i" arbitrary: i acc rule: less_induct)
  case less
  let ?prog = "object_code insns labels sizes" and ?p = "nat (positions sizes ! i)"
  have wf: "list_all wf_insn insns" using asm by (simp add: assembled_def)
  show ?case
  proof (cases "i = length insns")
    case True
    have "unpack_from ?prog ?p = Inl StructError"
      using fetch_end asm True unfolding assembled_def object_code_def by blast
    then show ?thesis using True by (simp add: packed_stop source_stop)
  next
    case False
    with less.prems have i: "i < length insns" by simp
    have IH: "agree (run_source insns labels data a (PyInt (int j)))
        (run_packed ?prog data a (nat (positions sizes ! j)))" if "i < j" "j \<le> length insns" for j a
      using less.hyps [of j a] that i by simp
    have tgt: "i < label_index labels t \<and> label_index labels t \<le> length insns \<and>
        (\<exists>j. resolves labels (length insns) t j)" if "t \<in> set (targets (insns ! i))" for t
      using fwd i that unfolding forward_def by (metis resolves_def resolves_index)
    have one: "nat (positions sizes ! Suc i) = ?p + 1" if "\<not> is_Jump (insns ! i)"
      using assembled_Suc [OF asm i] asm sizes_ok_nth [of insns sizes i] i that
      by (auto simp: assembled_def layout_def size_ok_def)
    have wfi: "wf_insn (insns ! i)" using wf i by (simp add: list_all_length)
    note fetch = assembled_fetch [OF asm i, of 0]
    show ?thesis
    proof (cases "insns ! i")
      case (Jump opv k jt jf)
      then obtain op b where op: "insns ! i = Jump (PyInt op) k jt jf" and b: "jump_cond op acc k = Some b"
        using wfi jump_cond_ops by fastforce
      let ?t = "if b then jt else jf"
      have t: "?t = None \<or> (\<exists>t. ?t = Some t \<and> t \<in> set (targets (insns ! i)))"
        using Jump by (cases jt; cases jf) auto
      then have "target_ok insns labels ?t"
        using tgt by (auto simp: target_ok_def)
      moreover have "i < next_pc labels i ?t" "next_pc labels i ?t \<le> length insns"
        using t tgt i by auto
      ultimately show ?thesis
        using source_jump [OF i op b] packed_cond_jump [OF asm i op b] IH by simp
    next
      case (Ja t)
      with tgt [of t] obtain j where "resolves labels (length insns) t j" by auto
      with Ja i source_ja tgt [of t] fetch packed_ja assembled_target [OF asm i, of t 0] IH
        sizes_ok_bounds [of insns sizes i] asm
      show ?thesis by (simp add: assembled_def layout_def)
    qed (use i one fetch IH [of "Suc i"] wfi in
        \<open>simp_all add: source_load packed_load source_and packed_and source_ret packed_ret\<close>)
  qed
qed


lemma assemble_assembled:
  assumes "list_all wf_insn insns" and "3 * length insns < 2 ^ 32" and "forward insns labels"
  obtains sizes where "assembled insns labels sizes"
    and "assemble insns labels = Inr (object_code insns labels sizes)"
  using assemble_forward [OF assms(3,1,2)] assms(1)
  unfolding assembled_def object_code_def by metis

section \<open>Length of a program\<close>

definition whole_insns :: "bytes \<Rightarrow> bool" where
  "whole_insns b \<longleftrightarrow> 8 dvd length b \<and> 8 \<le> length b \<and> length b \<le> 24"

lemma struct_pack_length: "struct_pack code jt jf k = Inr b \<Longrightarrow> length b = 8"
  by (auto simp: struct_pack_def split: if_splits simp del: pack_bytes.simps)

lemma pack_jump_length: "pack_jump op jt jf k = Inr b \<Longrightarrow> length b = 8"
  by (auto simp: pack_jump_def split: pyval.splits dest: struct_pack_length)

lemma ja_bytes_length: "ja_bytes t labels pos pc = Inr b \<Longrightarrow> length b = 8"
  by (auto simp: ja_bytes_def Let_def split: option.splits if_splits dest: struct_pack_length)

lemma emit_length: "emit x labels pos i sz = Inr b \<Longrightarrow> whole_insns b"
  by (cases x) (auto simp: whole_insns_def emit_expanded_def split: if_splits option.splits
      dest!: struct_pack_length pack_jump_length ja_bytes_length)

lemma assemble_length:
  assumes "assemble insns labels = Inr prog"
  shows "8 dvd length prog \<and> 8 * length insns \<le> length prog \<and> length prog \<le> 24 * length insns"
proof -
  have "assemble_loop xs labels pos sizes i out = Inr res \<Longrightarrow> 8 dvd length out \<Longrightarrow>
      8 dvd length res \<and> length out + 8 * length xs \<le> length res \<and>
      length res \<le> length out + 24 * length xs" for xs pos sizes i out res
  proof (induction xs arbitrary: i out)
    case (Cons x xs)
    then obtain sz b where "emit x labels pos i sz = Inr b"
      and rest: "assemble_loop xs labels pos sizes (Suc i) (out @ b) = Inr res" by auto
    then have "8 dvd length b" "8 \<le> length b" "length b \<le> 24" using emit_length by (auto simp: whole_insns_def)
    with Cons.IH [OF rest] Cons.prems(2) show ?case by simp
  qed simp
  from this [of insns _ _ 0 "[]" prog] assms show ?thesis by (auto simp: assemble_def)
qed

section \<open>The assembler as an interface\<close>

text \<open>
  What a client that generates symbolic code relies on: checked forward programs are
  accepted, and a run of the encoded program returns what the symbolic program returns.
\<close>

locale assembler =
  fixes asm :: "insn list \<Rightarrow> labels \<Rightarrow> bytes result"
    and exec :: "bytes \<Rightarrow> bytes \<Rightarrow> int \<Rightarrow> nat \<Rightarrow> int result"
  assumes asm_accepts: "list_all wf_insn insns \<Longrightarrow> 3 * length insns < 2 ^ 32 \<Longrightarrow>
      forward insns labels \<Longrightarrow> \<exists>prog. asm insns labels = Inr prog"
    and exec_returns: "list_all wf_insn insns \<Longrightarrow> 3 * length insns < 2 ^ 32 \<Longrightarrow>
      asm insns labels = Inr prog \<Longrightarrow>
      run_source insns labels data acc (PyInt 0) = Some (Inr v) \<Longrightarrow> exec prog data acc 0 = Inr v"
begin

lemma generated_code:
  assumes "list_all wf_insn insns" and "3 * length insns < 2 ^ 32" and "forward insns labels"
    and "\<And>d acc. P d \<Longrightarrow> run_source insns labels (enc d) acc (PyInt 0) = Some (Inr (result d))"
  obtains prog where "asm insns labels = Inr prog"
    and "\<And>d acc. P d \<Longrightarrow> exec prog (enc d) acc 0 = Inr (result d)"
  using asm_accepts [OF assms(1-3)] exec_returns [OF assms(1,2)] assms(4) by blast

end

interpretation cbpf: assembler assemble run_packed
proof unfold_locales
  fix insns labels prog data acc v
  assume wf: "list_all wf_insn insns" and len: "3 * length insns < 2 ^ 32"
  show "\<exists>prog. assemble insns labels = Inr prog" if "forward insns labels"
    using assemble_assembled [OF wf len that] by blast
  assume asm: "assemble insns labels = Inr prog"
    and src: "run_source insns labels data acc (PyInt 0) = Some (Inr v)"
  have fwd: "forward insns labels" using asm by (rule assemble_success_forward)
  obtain sizes where "assembled insns labels sizes" and "prog = object_code insns labels sizes"
    using assemble_assembled [OF wf len fwd] asm by auto
  with simulation [OF fwd, of sizes 0 data acc] src show "run_packed prog data acc 0 = Inr v"
    by (cases "run_packed prog data acc 0") simp_all
qed

end
