(* ===== verification/Bpf_Props.thy ===== *)
theory Bpf_Props
  imports Bpf_Exec
begin

text \<open>
  The properties of the assembler, stated over its own definitions, each with a concrete
  instance. The sample program is the one of \<^verbatim>\<open>test_conditional_jump_offsets\<close>.
\<close>

definition sample_insns :: "insn list" where
  "sample_insns = [Load 4, Jump (PyInt BPF_JEQ) 0xC000003E None (Some ''kill''), Load 0,
     Jump (PyInt BPF_JEQ) 39 (Some ''allow'') None, Ret 0x80000000, Ret 0x7FFF0000]"

definition sample_labels :: labels where
  "sample_labels = [''kill'' \<mapsto> PyInt 4, ''allow'' \<mapsto> PyInt 5]"

definition sample_prog :: bytes where
  "sample_prog = concat (map pack_bytes
     [(0x20, 0, 0, 4), (0x15, 0, 2, 0xC000003E), (0x20, 0, 0, 0), (0x15, 1, 0, 39),
      (6, 0, 0, 0x80000000), (6, 0, 0, 0x7FFF0000)])"

text \<open>A jump over 300 instructions, which needs a trampoline.\<close>

definition far_insns :: "insn list" where
  "far_insns = [Load 0, Jump (PyInt BPF_JEQ) 42 (Some ''far'') None] @ replicate 300 (Load 0) @
     [Ret 0x80000000, Ret 0x7FFF0000]"

definition far_labels :: labels where
  "far_labels = [''far'' \<mapsto> PyInt 303]"

lemma sample_assembles: "assemble sample_insns sample_labels = Inr sample_prog"
  by code_simp

lemma sample_wf: "list_all wf_insn sample_insns \<and> 3 * length sample_insns < 2 ^ 32"
  by (simp add: sample_insns_def JUMP_OPS_def const_defs)

lemma far_wf: "list_all wf_insn far_insns \<and> 3 * length far_insns < 2 ^ 32"
  by (simp add: far_insns_def JUMP_OPS_def const_defs list_all_iff)

lemma far_forward: "forward far_insns far_labels"
proof -
  have "targets (far_insns ! i) = (if i = 1 then [''far''] else [])" if "i < length far_insns" for i
  proof -
    have "i = 0 \<or> i = 1 \<or> (2 \<le> i \<and> i < 302) \<or> i = 302 \<or> i = 303"
      using that by (auto simp: far_insns_def)
    then show ?thesis by (elim disjE) (auto simp: far_insns_def nth_append nth_Cons')
  qed
  moreover have "resolves far_labels (length far_insns) ''far'' 303"
    by (simp add: resolves_def far_labels_def far_insns_def)
  ultimately show ?thesis unfolding forward_def by (force split: if_splits)
qed

text \<open>
  C4. Assembling preserves execution. For checked instructions, running the assembled
  bytes from the start gives the result of running the symbolic program, for every input:
  the same return value, or both run past the last instruction. In particular both runs
  end. Conditional jumps beyond 255 instructions are covered: their expansion into a hop
  and JA trampolines reaches the same instruction.
\<close>

theorem assemble_preserves_execution:
  assumes "list_all wf_insn insns" and "3 * length insns < 2 ^ 32"
    and "assemble insns labels = Inr prog"
  shows "agree (run_source insns labels data acc (PyInt 0)) (run_packed prog data acc 0)"
proof -
  have fwd: "forward insns labels" using assms(3) by (rule assemble_success_forward)
  obtain sizes where "assembled insns labels sizes" and "prog = object_code insns labels sizes"
    using assemble_assembled [OF assms(1,2) fwd] assms(3) by auto
  with simulation [OF fwd, of sizes 0 data acc] show ?thesis by simp
qed

theorem assemble_preserves_execution_witness:
  "agree (run_source sample_insns sample_labels (le_bytes 4 39 @ le_bytes 4 0xC000003E) 0 (PyInt 0))
     (run_packed sample_prog (le_bytes 4 39 @ le_bytes 4 0xC000003E) 0 0)"
  using assemble_preserves_execution [OF _ _ sample_assembles] sample_wf by blast

text \<open>
  C10. When assembly succeeds. For checked instructions, \<open>assemble\<close> returns a program exactly
  when every label that is used is defined, is an int in range and lies strictly after
  the jump: sizing always converges and every distance can then be encoded.
\<close>

theorem assemble_succeeds_iff:
  assumes "list_all wf_insn insns" and "3 * length insns < 2 ^ 32"
  shows "(\<exists>prog. assemble insns labels = Inr prog) \<longleftrightarrow> forward insns labels"
  using assemble_success_forward assemble_assembled [OF assms] by metis

theorem assemble_succeeds_iff_witness: "\<exists>prog. assemble far_insns far_labels = Inr prog"
  using assemble_succeeds_iff [of far_insns far_labels] far_wf far_forward by blast

text \<open>
  C37. Exceptions of assembly. On checked instructions with int opcodes the only exception is ValueError:
  no KeyError, IndexError, TypeError or struct.error escapes, whatever the labels are.
\<close>

theorem assemble_raises_only_ValueError:
  assumes "list_all wf_insn insns" and "assemble insns labels = Inl e"
  shows "\<exists>m. e = ValueError m"
  using assms by (rule assemble_error)

theorem assemble_raises_only_ValueError_witness:
  "list_all wf_insn sample_insns \<and> (\<exists>m. assemble sample_insns (sample_labels(''kill'' \<mapsto> PyOther)) = Inl (ValueError m))"
proof -
  have "assemble sample_insns (sample_labels(''kill'' \<mapsto> PyOther)) = Inl (ValueError ''label out of range: kill'')"
    by code_simp
  with assemble_raises_only_ValueError [OF conjunct1 [OF sample_wf] this] sample_wf show ?thesis by auto
qed

text \<open>
  C14. The sizing loop converges within its bound. After label validation,
  \<open>resolve_sizes\<close> either reports a backward jump or returns sizes, one per
  instruction, at which every unexpanded conditional jump fits its 8-bit offsets; it
  never runs out of its \<open>length insns + 1\<close> iterations.
\<close>

theorem resolve_sizes_converges:
  assumes "validate_labels insns labels = Inr ()"
  shows "(\<exists>s. resolve_sizes insns labels = Inl (ValueError (''backward jump to label: '' @ s))) \<or>
    (\<exists>sizes. resolve_sizes insns labels = Inr sizes \<and> sizes_ok insns sizes \<and>
      (\<forall>i < length insns. is_Jump (insns ! i) \<longrightarrow> sizes ! i = 1 \<longrightarrow>
         needs_expansion (insns ! i) labels (positions sizes) i = Inr False))"
proof (cases "resolve_sizes insns labels")
  case (Inl e)
  with resolve_sizes_error [of insns labels] assms show ?thesis by (auto simp: validate_labels_iff)
next
  case (Inr sizes)
  with resolve_sizes_result [OF Inr] show ?thesis by (simp add: settled_def)
qed

theorem resolve_sizes_converges_witness:
  "(\<exists>s. resolve_sizes far_insns far_labels = Inl (ValueError (''backward jump to label: '' @ s))) \<or>
    (\<exists>sizes. resolve_sizes far_insns far_labels = Inr sizes \<and> sizes_ok far_insns sizes \<and>
      (\<forall>i < length far_insns. is_Jump (far_insns ! i) \<longrightarrow> sizes ! i = 1 \<longrightarrow>
         needs_expansion (far_insns ! i) far_labels (positions sizes) i = Inr False))"
proof -
  have "validate_labels far_insns far_labels = Inr ()"
    using far_forward by (simp add: validate_labels_iff forward_valid)
  then show ?thesis by (rule resolve_sizes_converges)
qed

text \<open>
  C35. The checked constructors. Load, And and Ret accept exactly the ints that fit 32 bits. Jump accepts exactly
  such an operand together with an opcode equal to one of 0x15, 0x25, 0x35 and 0x45 (a float equal to one of
  them included, since equality decides), and yields a well-formed instruction exactly if the opcode is an int.
  Everything else is a ValueError, except that an opcode that cannot be hashed or formatted raises TypeError.
\<close>

theorem constructors_accept:
  "(new_Load v = Inr x \<longleftrightarrow> (\<exists>k \<in> {0..2 ^ 32 - 1}. v = PyInt k \<and> x = Load k)) \<and>
   (new_And v = Inr x \<longleftrightarrow> (\<exists>k \<in> {0..2 ^ 32 - 1}. v = PyInt k \<and> x = And k)) \<and>
   (new_Ret v = Inr x \<longleftrightarrow> (\<exists>k \<in> {0..2 ^ 32 - 1}. v = PyInt k \<and> x = Ret k)) \<and>
   (new_Jump op v jt jf = Inr x \<longleftrightarrow>
      (\<exists>k \<in> {0..2 ^ 32 - 1}. \<exists>c \<in> {0x15, 0x25, 0x35, 0x45}. v = PyInt k \<and> (op = PyInt c \<or> op = PyFloat (Some c)) \<and>
         x = Jump op k jt jf \<and> (wf_insn x \<longleftrightarrow> op = PyInt c))) \<and>
   (new_Load v = Inl e \<or> new_And v = Inl e \<or> new_Ret v = Inl e \<longrightarrow> (\<exists>m. e = ValueError m)) \<and>
   (new_Jump op v jt jf = Inl e \<longrightarrow> (\<exists>m. e = ValueError m) \<or> op \<in> {PyOther, PyUnhashable} \<and> (\<exists>m. e = TypeError m))"
proof -
  have acc: "check_u32 n v = Inr k \<longleftrightarrow> v = PyInt k \<and> 0 \<le> k \<and> k \<le> 2 ^ 32 - 1" for n k
    by (auto simp: check_u32_def U32_MAX_def split: pyval.splits)
  have rej: "check_u32 n v = Inl e \<Longrightarrow> \<exists>m. e = ValueError m" for n
    by (auto simp: check_u32_def split: pyval.splits if_splits)
  have ops: "JUMP_OPS = {0x15, 0x25, 0x35, 0x45}" by (simp add: JUMP_OPS_def const_defs)
  have op: "is_jump_op op \<longleftrightarrow> (\<exists>c \<in> {0x15, 0x25, 0x35, 0x45}. op = PyInt c \<or> op = PyFloat (Some c))"
    by (cases op) (auto simp: is_jump_op_def ops split: option.splits)
  have bad: "bad_op_exc op = e \<Longrightarrow> (\<exists>m. e = ValueError m) \<or> op \<in> {PyOther, PyUnhashable} \<and> (\<exists>m. e = TypeError m)"
    by (cases op) (auto simp: bad_op_exc_def)
  have jump: "new_Jump op v jt jf = Inr x \<longleftrightarrow>
      (\<exists>k \<in> {0..2 ^ 32 - 1}. \<exists>c \<in> {0x15, 0x25, 0x35, 0x45}. v = PyInt k \<and> (op = PyInt c \<or> op = PyFloat (Some c)) \<and>
         x = Jump op k jt jf \<and> (wf_insn x \<longleftrightarrow> op = PyInt c))"
    unfolding new_Jump_def by (auto simp: acc op ops U32_MAX_def)
  have "new_Jump op v jt jf = Inl e \<longrightarrow> (\<exists>m. e = ValueError m) \<or> op \<in> {PyOther, PyUnhashable} \<and> (\<exists>m. e = TypeError m)"
    using rej bad by (auto simp: new_Jump_def bindE_eq_Inl)
  with jump rej show ?thesis
    by (auto simp: new_Load_def new_And_def new_Ret_def acc bindE_eq_Inl)
qed

theorem constructors_accept_witness:
  "new_Jump (PyFloat (Some 0x15)) (PyInt 7) None None = Inr (Jump (PyFloat (Some 0x15)) 7 None None) \<and>
   \<not> wf_insn (Jump (PyFloat (Some 0x15)) 7 None None) \<and> (\<exists>m. new_Jump (PyInt 5) (PyInt 7) None None = Inl (ValueError m))"
proof -
  have "new_Jump (PyFloat (Some 0x15)) (PyInt 7) None None = Inr (Jump (PyFloat (Some 0x15)) 7 None None)"
    using constructors_accept [of "PyInt 7" "Jump (PyFloat (Some 0x15)) 7 None None" "PyFloat (Some 0x15)" None None]
    by auto
  moreover have "new_Jump (PyInt 5) (PyInt 7) None None = Inl (ValueError ''not a conditional jump opcode'')"
    by (simp add: new_Jump_def is_jump_op_def bad_op_exc_def JUMP_OPS_def const_defs)
  ultimately show ?thesis by auto
qed

text \<open>
  Size of a program. An assembled program is a whole number of 8-byte instructions, at least one and at most three for each source
  instruction.
\<close>

theorem assemble_length_bounds:
  assumes "assemble insns labels = Inr prog"
  shows "length prog mod 8 = 0 \<and> length insns \<le> length prog div 8 \<and> length prog div 8 \<le> 3 * length insns"
  using assemble_length [OF assms] by auto

theorem assemble_length_bounds_witness: "length sample_prog mod 8 = 0 \<and> length sample_prog div 8 \<le> 3 * length sample_insns"
  using assemble_length_bounds [OF sample_assembles] by blast

end
