(* ===== verification/Arg_Cond.thy ===== *)
theory Arg_Cond
  imports Bpf_Exec
begin

text \<open>
  Argument conditions of \<^verbatim>\<open>src/seccompy/filter.py\<close>: the comparison operators, the checked
  \<^verbatim>\<open>ArgCmp\<close> constructor, coercion of tuples and the code emitted for one condition. The main
  lemma runs that code inside any larger program and shows that it decides the unsigned
  64-bit comparison, two 32-bit words at a time.
\<close>

section \<open>Model\<close>

definition U64_MAX :: int where [const_defs]: "U64_MAX = 0xFFFFFFFFFFFFFFFF"
definition OFF_NR :: int where [const_defs]: "OFF_NR = 0"
definition OFF_ARCH :: int where [const_defs]: "OFF_ARCH = 4"
definition OFF_ARG0 :: int where [const_defs]: "OFF_ARG0 = 16"

datatype cmp_op = EQ | NE | LT | LE | GT | GE | MASKED_EQ

fun cmp_value :: "cmp_op \<Rightarrow> int" where
  "cmp_value EQ = 0"
| "cmp_value NE = 1"
| "cmp_value LT = 2"
| "cmp_value LE = 3"
| "cmp_value GT = 4"
| "cmp_value GE = 5"
| "cmp_value MASKED_EQ = 6"

text \<open>
  \<^verbatim>\<open>CmpOp(op)\<close>: the member whose value compares equal, so a float such as 4.0 is accepted as well.
\<close>

definition cmp_of :: "pyval \<Rightarrow> cmp_op result" where
  "cmp_of v =
     (case find (\<lambda>c. int_value v = Some (cmp_value c)) [EQ, NE, LT, LE, GT, GE, MASKED_EQ] of
        Some c \<Rightarrow> Inr c
      | None \<Rightarrow> Inl (ValueError ''not a valid CmpOp''))"

text \<open>An IntEnum is ordered by its values.\<close>

lemma cmp_value_inject: "cmp_value a = cmp_value b \<Longrightarrow> a = b"
  by (cases a; cases b) simp_all

instantiation cmp_op :: linorder
begin

definition less_eq_cmp_op :: "cmp_op \<Rightarrow> cmp_op \<Rightarrow> bool" where
  "less_eq_cmp_op a b \<longleftrightarrow> cmp_value a \<le> cmp_value b"

definition less_cmp_op :: "cmp_op \<Rightarrow> cmp_op \<Rightarrow> bool" where
  "less_cmp_op a b \<longleftrightarrow> cmp_value a < cmp_value b"

instance
  by standard (auto simp: less_eq_cmp_op_def less_cmp_op_def intro: cmp_value_inject)

end

record arg_cmp =
  ac_index :: int
  ac_op :: cmp_op
  ac_value :: int
  ac_mask :: int

text \<open>\<^verbatim>\<open>ArgCmp(index, op, value, mask)\<close> with its \<^verbatim>\<open>__post_init__\<close> checks, in their order.\<close>

definition new_ArgCmp :: "pyval \<Rightarrow> pyval \<Rightarrow> pyval \<Rightarrow> pyval \<Rightarrow> arg_cmp result" where
  "new_ArgCmp index op val msk =
     bindE (cmp_of op) (\<lambda>c.
     bindE (int_in 0 5 index ''argument index out of range'') (\<lambda>i.
     bindE (int_in 0 U64_MAX val ''argument value out of range'') (\<lambda>v.
     bindE (int_in 0 U64_MAX msk ''argument mask out of range'') (\<lambda>m.
       if c = MASKED_EQ then
         if v AND NOT m \<noteq> 0 then Inl (ValueError ''masked-eq value has bits outside the mask'')
         else Inr \<lparr>ac_index = i, ac_op = c, ac_value = v, ac_mask = m\<rparr>
       else if m \<noteq> U64_MAX then Inl (ValueError ''mask is only meaningful with MASKED_EQ'')
       else Inr \<lparr>ac_index = i, ac_op = c, ac_value = v, ac_mask = m\<rparr>))))"

text \<open>
  A condition as passed by a caller: an \<^verbatim>\<open>ArgCmp\<close>, a tuple, or an object without a length.
\<close>

datatype arg_cond = CondObj arg_cmp | CondTuple "pyval list" | CondOther

fun coerce_cond :: "arg_cond \<Rightarrow> arg_cmp result" where
  "coerce_cond (CondObj c) = Inr c"
| "coerce_cond (CondTuple [index, op, value]) = new_ArgCmp index op value (PyInt U64_MAX)"
| "coerce_cond (CondTuple [index, op, val, msk]) = new_ArgCmp index op val msk"
| "coerce_cond CondOther = Inl (TypeError ''object has no len()'')"
| "coerce_cond (CondTuple _) = Inl (ValueError ''wrong number of values to unpack'')"

text \<open>A sequence of \<^verbatim>\<open>insns.append(<constructor>)\<close> statements.\<close>

fun append_all :: "insn list \<Rightarrow> insn result list \<Rightarrow> insn list result" where
  "append_all insns [] = Inr insns"
| "append_all insns (c # cs) = bindE c (\<lambda>x. append_all (insns @ [x]) cs)"

definition masked_word :: "int \<Rightarrow> int \<Rightarrow> int \<Rightarrow> string \<Rightarrow> insn result list" where
  "masked_word off m v fail =
     (if m = 0 then []
      else [new_Load (PyInt off), new_And (PyInt m), new_Jump (PyInt BPF_JEQ) (PyInt v) None (Some fail)])"

definition cond_insns :: "arg_cmp \<Rightarrow> string \<Rightarrow> string \<Rightarrow> insn result list" where
  "cond_insns cond fail passed =
     (let lo_off = OFF_ARG0 + 8 * ac_index cond; hi_off = lo_off + 4;
          lo = ac_value cond AND 0xFFFFFFFF; hi = drop_bit 32 (ac_value cond) AND 0xFFFFFFFF
      in case ac_op cond of
        EQ \<Rightarrow> [new_Load (PyInt lo_off), new_Jump (PyInt BPF_JEQ) (PyInt lo) None (Some fail),
               new_Load (PyInt hi_off), new_Jump (PyInt BPF_JEQ) (PyInt hi) None (Some fail)]
      | NE \<Rightarrow> [new_Load (PyInt lo_off), new_Jump (PyInt BPF_JEQ) (PyInt lo) None (Some passed),
               new_Load (PyInt hi_off), new_Jump (PyInt BPF_JEQ) (PyInt hi) (Some fail) None]
      | LT \<Rightarrow> [new_Load (PyInt hi_off), new_Jump (PyInt BPF_JGT) (PyInt hi) (Some fail) None,
               new_Jump (PyInt BPF_JEQ) (PyInt hi) None (Some passed), new_Load (PyInt lo_off),
               new_Jump (PyInt BPF_JGEQ) (PyInt lo) (Some fail) None]
      | LE \<Rightarrow> [new_Load (PyInt hi_off), new_Jump (PyInt BPF_JGT) (PyInt hi) (Some fail) None,
               new_Jump (PyInt BPF_JEQ) (PyInt hi) None (Some passed), new_Load (PyInt lo_off),
               new_Jump (PyInt BPF_JGT) (PyInt lo) (Some fail) None]
      | GT \<Rightarrow> [new_Load (PyInt hi_off), new_Jump (PyInt BPF_JGT) (PyInt hi) (Some passed) None,
               new_Jump (PyInt BPF_JEQ) (PyInt hi) None (Some fail), new_Load (PyInt lo_off),
               new_Jump (PyInt BPF_JGT) (PyInt lo) (Some passed) (Some fail)]
      | GE \<Rightarrow> [new_Load (PyInt hi_off), new_Jump (PyInt BPF_JGT) (PyInt hi) (Some passed) None,
               new_Jump (PyInt BPF_JEQ) (PyInt hi) None (Some fail), new_Load (PyInt lo_off),
               new_Jump (PyInt BPF_JGEQ) (PyInt lo) (Some passed) (Some fail)]
      | MASKED_EQ \<Rightarrow>
          (let mlo = ac_mask cond AND 0xFFFFFFFF; mhi = drop_bit 32 (ac_mask cond) AND 0xFFFFFFFF
           in masked_word lo_off mlo lo fail @ masked_word hi_off mhi hi fail))"

definition emit_cond ::
    "insn list \<Rightarrow> labels \<Rightarrow> arg_cmp \<Rightarrow> string \<Rightarrow> string \<Rightarrow> (insn list \<times> labels) result" where
  "emit_cond insns labels cond fail passed =
     bindE (append_all insns (cond_insns cond fail passed)) (\<lambda>insns'.
       Inr (insns', labels(passed \<mapsto> PyInt (int (length insns')))))"

section \<open>The data a filter sees\<close>

text \<open>
  \<^verbatim>\<open>struct seccomp_data\<close>: nr (a 32-bit pattern), arch, instruction_pointer and six 64-bit
  arguments, in memory order and little-endian.
\<close>

record seccomp_data =
  sd_nr :: "32 word"
  sd_arch :: "32 word"
  sd_instruction_pointer :: "64 word"
  sd_args :: "64 word list"

definition data_bytes :: "seccomp_data \<Rightarrow> bytes" where
  "data_bytes d =
     le_bytes 4 (uint (sd_nr d)) @ le_bytes 4 (uint (sd_arch d)) @
     le_bytes 8 (uint (sd_instruction_pointer d)) @
     concat (map (\<lambda>a. le_bytes 8 (uint a)) (sd_args d))"

definition wf_data :: "seccomp_data \<Rightarrow> bool" where
  "wf_data d \<longleftrightarrow> length (sd_args d) = 6"

section \<open>What a condition means\<close>

definition wf_cond :: "arg_cmp \<Rightarrow> bool" where
  "wf_cond c \<longleftrightarrow> 0 \<le> ac_index c \<and> ac_index c \<le> 5 \<and>
     0 \<le> ac_value c \<and> ac_value c \<le> U64_MAX \<and> 0 \<le> ac_mask c \<and> ac_mask c \<le> U64_MAX \<and>
     (if ac_op c = MASKED_EQ then ac_value c AND NOT (ac_mask c) = 0 else ac_mask c = U64_MAX)"

definition cmp_holds :: "cmp_op \<Rightarrow> int \<Rightarrow> int \<Rightarrow> int \<Rightarrow> bool" where
  "cmp_holds op arg val msk =
     (case op of
        EQ \<Rightarrow> arg = val | NE \<Rightarrow> arg \<noteq> val | LT \<Rightarrow> arg < val | LE \<Rightarrow> arg \<le> val
      | GT \<Rightarrow> arg > val | GE \<Rightarrow> arg \<ge> val | MASKED_EQ \<Rightarrow> arg AND msk = val)"

definition cond_holds :: "seccomp_data \<Rightarrow> arg_cmp \<Rightarrow> bool" where
  "cond_holds d c =
     cmp_holds (ac_op c) (uint (sd_args d ! nat (ac_index c))) (ac_value c) (ac_mask c)"

section \<open>Construction\<close>

lemma new_ArgCmp_wf: "new_ArgCmp index op val msk = Inr c \<Longrightarrow> wf_cond c"
  by (auto simp: new_ArgCmp_def wf_cond_def split: if_splits)

lemma coerce_cond_wf: "coerce_cond x = Inr c \<Longrightarrow> (\<And>c'. x = CondObj c' \<Longrightarrow> wf_cond c') \<Longrightarrow> wf_cond c"
  by (cases x rule: coerce_cond.cases) (auto dest: new_ArgCmp_wf)

section \<open>Emitted code\<close>

text \<open>The code of a condition, with the constructor checks discharged.\<close>

definition masked_code :: "int \<Rightarrow> int \<Rightarrow> int \<Rightarrow> string \<Rightarrow> insn list" where
  "masked_code off m v fail = (if m = 0 then [] else [Load off, And m, Jump (PyInt BPF_JEQ) v None (Some fail)])"

definition cond_code :: "arg_cmp \<Rightarrow> string \<Rightarrow> string \<Rightarrow> insn list" where
  "cond_code c fail passed =
     (let lo_off = 16 + 8 * ac_index c; hi_off = 20 + 8 * ac_index c;
          lo = ac_value c mod 2 ^ 32; hi = ac_value c div 2 ^ 32
      in case ac_op c of
        EQ \<Rightarrow> [Load lo_off, Jump (PyInt BPF_JEQ) lo None (Some fail), Load hi_off, Jump (PyInt BPF_JEQ) hi None (Some fail)]
      | NE \<Rightarrow> [Load lo_off, Jump (PyInt BPF_JEQ) lo None (Some passed), Load hi_off, Jump (PyInt BPF_JEQ) hi (Some fail) None]
      | LT \<Rightarrow> [Load hi_off, Jump (PyInt BPF_JGT) hi (Some fail) None, Jump (PyInt BPF_JEQ) hi None (Some passed),
               Load lo_off, Jump (PyInt BPF_JGEQ) lo (Some fail) None]
      | LE \<Rightarrow> [Load hi_off, Jump (PyInt BPF_JGT) hi (Some fail) None, Jump (PyInt BPF_JEQ) hi None (Some passed),
               Load lo_off, Jump (PyInt BPF_JGT) lo (Some fail) None]
      | GT \<Rightarrow> [Load hi_off, Jump (PyInt BPF_JGT) hi (Some passed) None, Jump (PyInt BPF_JEQ) hi None (Some fail),
               Load lo_off, Jump (PyInt BPF_JGT) lo (Some passed) (Some fail)]
      | GE \<Rightarrow> [Load hi_off, Jump (PyInt BPF_JGT) hi (Some passed) None, Jump (PyInt BPF_JEQ) hi None (Some fail),
               Load lo_off, Jump (PyInt BPF_JGEQ) lo (Some passed) (Some fail)]
      | MASKED_EQ \<Rightarrow> masked_code lo_off (ac_mask c mod 2 ^ 32) lo fail @
                     masked_code hi_off (ac_mask c div 2 ^ 32) hi fail)"

lemma append_all_Inr: "append_all insns (map Inr xs) = Inr (insns @ xs)"
  by (induction xs arbitrary: insns) auto

lemma new_Load_ok [simp]: "0 \<le> k \<Longrightarrow> k \<le> 0xFFFFFFFF \<Longrightarrow> new_Load (PyInt k) = Inr (Load k)"
  by (simp add: new_Load_def check_u32_def U32_MAX_def)

lemma new_And_ok [simp]: "0 \<le> k \<Longrightarrow> k \<le> 0xFFFFFFFF \<Longrightarrow> new_And (PyInt k) = Inr (And k)"
  by (simp add: new_And_def check_u32_def U32_MAX_def)

lemma new_Ret_ok [simp]: "0 \<le> k \<Longrightarrow> k \<le> 0xFFFFFFFF \<Longrightarrow> new_Ret (PyInt k) = Inr (Ret k)"
  by (simp add: new_Ret_def check_u32_def U32_MAX_def)

lemma new_Jump_ok [simp]: "op \<in> JUMP_OPS \<Longrightarrow> 0 \<le> k \<Longrightarrow> k \<le> 0xFFFFFFFF \<Longrightarrow>
    new_Jump (PyInt op) (PyInt k) jt jf = Inr (Jump (PyInt op) k jt jf)"
  by (simp add: new_Jump_def is_jump_op_def check_u32_def U32_MAX_def)

lemma jump_ops [simp]: "BPF_JEQ \<in> JUMP_OPS" "BPF_JGT \<in> JUMP_OPS" "BPF_JGEQ \<in> JUMP_OPS"
  by (simp_all add: JUMP_OPS_def)

lemma u32_halves:
  assumes "0 \<le> v" and "v \<le> U64_MAX"
  shows "v AND 0xFFFFFFFF = v mod 2 ^ 32" and "drop_bit 32 v AND 0xFFFFFFFF = v div 2 ^ 32"
    and "0 \<le> v mod 2 ^ 32" and "v mod 2 ^ 32 \<le> 0xFFFFFFFF"
    and "0 \<le> v div 2 ^ 32" and "v div 2 ^ 32 \<le> 0xFFFFFFFF"
proof -
  show "v AND 0xFFFFFFFF = v mod 2 ^ 32" by (rule and_u32_mask)
  show "drop_bit 32 v AND 0xFFFFFFFF = v div 2 ^ 32"
    using assms by (simp add: shift_u32_mask U64_MAX_def)
  show "0 \<le> v mod 2 ^ 32" "v mod 2 ^ 32 \<le> 0xFFFFFFFF"
    using pos_mod_bound [of "2 ^ 32" v] by simp_all
  show "0 \<le> v div 2 ^ 32" "v div 2 ^ 32 \<le> 0xFFFFFFFF"
    using assms by (simp_all add: U64_MAX_def)
qed

lemma masked_word_code:
  "0 \<le> off \<Longrightarrow> off \<le> 0xFFFFFFFF \<Longrightarrow> 0 \<le> m \<Longrightarrow> m \<le> 0xFFFFFFFF \<Longrightarrow> 0 \<le> v \<Longrightarrow> v \<le> 0xFFFFFFFF \<Longrightarrow>
   masked_word off m v fail = map Inr (masked_code off m v fail)"
  by (simp add: masked_word_def masked_code_def)

lemma cond_insns_code:
  assumes "wf_cond c"
  shows "cond_insns c fail passed = map Inr (cond_code c fail passed)"
proof -
  have v: "0 \<le> ac_value c" "ac_value c \<le> U64_MAX" and m: "0 \<le> ac_mask c" "ac_mask c \<le> U64_MAX"
    and i: "0 \<le> ac_index c" "ac_index c \<le> 5"
    using assms by (simp_all add: wf_cond_def)
  obtain lo hi mlo mhi where h: "ac_value c mod 2 ^ 32 = lo" "ac_value c div 2 ^ 32 = hi"
      "ac_mask c mod 2 ^ 32 = mlo" "ac_mask c div 2 ^ 32 = mhi"
    by blast
  have bounds: "0 \<le> lo" "lo \<le> 0xFFFFFFFF" "0 \<le> hi" "hi \<le> 0xFFFFFFFF"
      "0 \<le> mlo" "mlo \<le> 0xFFFFFFFF" "0 \<le> mhi" "mhi \<le> 0xFFFFFFFF"
    using u32_halves(3-6) [OF v] u32_halves(3-6) [OF m] unfolding h by blast+
  have off: "16 + 8 * ac_index c + 4 = 20 + 8 * ac_index c" "0 \<le> 16 + 8 * ac_index c"
      "20 + 8 * ac_index c \<le> 0xFFFFFFFF"
    using i by simp_all
  show ?thesis
    unfolding cond_insns_def cond_code_def Let_def OFF_ARG0_def u32_halves(1,2) [OF v]
      u32_halves(1,2) [OF m] h off(1)
    using bounds off(2,3) by (cases "ac_op c") (simp_all add: masked_word_code)
qed

lemma emit_cond_code:
  "wf_cond c \<Longrightarrow> emit_cond insns labels c fail passed =
    Inr (insns @ cond_code c fail passed,
         labels(passed \<mapsto> PyInt (int (length insns + length (cond_code c fail passed)))))"
  by (simp add: emit_cond_def cond_insns_code append_all_Inr)


section \<open>Reading the data\<close>

lemma load_word_at: "nat k = length pre \<Longrightarrow> load_word (pre @ le_bytes 4 v @ post) k = v mod 2 ^ 32"
  by (simp add: load_word_def le_int_le_bytes)

lemma load_nr: "load_word (data_bytes d) OFF_NR = uint (sd_nr d)"
proof -
  have "load_word ([] @ le_bytes 4 (uint (sd_nr d)) @ rest) OFF_NR = uint (sd_nr d) mod 2 ^ 32" for rest
    by (rule load_word_at) (simp add: OFF_NR_def)
  then show ?thesis
    using uint_lt2p [of "sd_nr d"] by (simp add: data_bytes_def)
qed

lemma load_arch: "load_word (data_bytes d) OFF_ARCH = uint (sd_arch d)"
proof -
  have "load_word (le_bytes 4 (uint (sd_nr d)) @ le_bytes 4 (uint (sd_arch d)) @ rest) OFF_ARCH =
      uint (sd_arch d) mod 2 ^ 32" for rest
    by (rule load_word_at) (simp add: OFF_ARCH_def)
  then show ?thesis
    using uint_lt2p [of "sd_arch d"] by (simp add: data_bytes_def)
qed

lemma data_bytes_arg:
  assumes "i < length (sd_args d)"
  obtains pre post where "data_bytes d = pre @ le_bytes 8 (uint (sd_args d ! i)) @ post"
    and "length pre = 16 + 8 * i"
proof
  let ?b = "\<lambda>a :: 64 word. le_bytes 8 (uint a)"
  let ?pre = "le_bytes 4 (uint (sd_nr d)) @ le_bytes 4 (uint (sd_arch d)) @
     le_bytes 8 (uint (sd_instruction_pointer d)) @ concat (map ?b (take i (sd_args d)))"
  show "data_bytes d = ?pre @ ?b (sd_args d ! i) @ concat (map ?b (drop (Suc i) (sd_args d)))"
    by (subst id_take_nth_drop [OF assms, THEN arg_cong [of _ _ "\<lambda>xs. data_bytes (d\<lparr>sd_args := xs\<rparr>)"], simplified])
      (simp add: data_bytes_def)
  have "length (concat (map ?b (take i (sd_args d)))) = 8 * length (take i (sd_args d))"
    by (rule length_concat_chunks) simp
  then show "length ?pre = 16 + 8 * i" using assms by simp
qed

lemma load_arg:
  assumes "wf_data d" and "0 \<le> i" and "i \<le> 5"
  shows "load_word (data_bytes d) (16 + 8 * i) = uint (sd_args d ! nat i) mod 2 ^ 32"
    and "load_word (data_bytes d) (20 + 8 * i) = uint (sd_args d ! nat i) div 2 ^ 32"
proof -
  let ?v = "uint (sd_args d ! nat i)"
  have "nat i < length (sd_args d)" using assms by (simp add: wf_data_def)
  then obtain pre post where "data_bytes d = pre @ le_bytes 8 ?v @ post" and len: "length pre = 16 + 8 * nat i"
    by (rule data_bytes_arg)
  moreover have "le_bytes 8 ?v = le_bytes 4 ?v @ le_bytes 4 (?v div 2 ^ 32)"
    using le_bytes_add [of 4 4 ?v] by simp
  ultimately have eq: "data_bytes d = pre @ le_bytes 4 ?v @ le_bytes 4 (?v div 2 ^ 32) @ post" by simp
  show "load_word (data_bytes d) (16 + 8 * i) = ?v mod 2 ^ 32"
    unfolding eq using assms(2) len by (intro load_word_at) simp
  have "load_word ((pre @ le_bytes 4 ?v) @ le_bytes 4 (?v div 2 ^ 32) @ post) (20 + 8 * i) =
      ?v div 2 ^ 32 mod 2 ^ 32"
    using assms(2) len by (intro load_word_at) simp
  then show "load_word (data_bytes d) (20 + 8 * i) = ?v div 2 ^ 32"
    unfolding eq using high_half_u64 [of ?v] uint_lt2p [of "sd_args d ! nat i"] by simp
qed

section \<open>Running a condition\<close>

text \<open>Code at a place in a program.\<close>

fun code_at :: "insn list \<Rightarrow> nat \<Rightarrow> insn list \<Rightarrow> bool" where
  "code_at insns n [] \<longleftrightarrow> n \<le> length insns"
| "code_at insns n (x # xs) \<longleftrightarrow> n < length insns \<and> insns ! n = x \<and> code_at insns (Suc n) xs"

lemma code_at_append [simp]:
  "code_at insns n (xs @ ys) \<longleftrightarrow> code_at insns n xs \<and> code_at insns (n + length xs) ys"
proof (induction xs arbitrary: n)
  case Nil
  have "code_at insns n ys \<Longrightarrow> n \<le> length insns" by (cases ys) auto
  then show ?case by auto
qed auto

lemma code_at_suffix [intro]: "code_at (pre @ code @ post) (length pre) code"
proof (induction code arbitrary: pre)
  case (Cons x xs)
  from Cons [of "pre @ [x]"] show ?case by simp
qed simp

text \<open>The rest of a run does not depend on the accumulator it starts with, up to a choice of it.\<close>

definition reaches :: "insn list \<Rightarrow> labels \<Rightarrow> bytes \<Rightarrow> nat \<Rightarrow> nat \<Rightarrow> bool" where
  "reaches insns labels data n m \<longleftrightarrow>
     (\<forall>acc. \<exists>acc'. run_source insns labels data acc (PyInt (int n)) =
                  run_source insns labels data acc' (PyInt (int m)))"

lemma reaches_refl [simp]: "reaches insns labels data n n"
  by (auto simp: reaches_def)

lemma reaches_trans: "reaches insns labels data l m \<Longrightarrow> reaches insns labels data m n \<Longrightarrow>
    reaches insns labels data l n"
  unfolding reaches_def by metis

text \<open>A conditional jump whose labels resolve.\<close>

lemma run_jump:
  assumes "n < length insns" and "insns ! n = Jump (PyInt op) k jt jf" and "jump_cond op acc k = Some b"
    and "\<And>t. (if b then jt else jf) = Some t \<Longrightarrow> \<exists>j. resolves labels (length insns) t j"
  shows "run_source insns labels data acc (PyInt (int n)) =
    run_source insns labels data acc (PyInt (int (next_pc labels n (if b then jt else jf))))"
  using assms by (intro source_jump) (auto simp: target_ok_def)

lemma jump_cond_simps [simp]:
  "jump_cond BPF_JEQ acc k = Some (acc = k)"
  "jump_cond BPF_JGT acc k = Some (acc > k)"
  "jump_cond BPF_JGEQ acc k = Some (acc \<ge> k)"
  by (simp_all add: jump_cond_def const_defs)


lemma cond_holds_halves:
  fixes c :: arg_cmp and d :: seccomp_data
  assumes "wf_cond c"
  defines "a \<equiv> uint (sd_args d ! nat (ac_index c))"
  defines "alo \<equiv> a mod 2 ^ 32" and "ahi \<equiv> a div 2 ^ 32"
    and "lo \<equiv> ac_value c mod 2 ^ 32" and "hi \<equiv> ac_value c div 2 ^ 32"
    and "mlo \<equiv> ac_mask c mod 2 ^ 32" and "mhi \<equiv> ac_mask c div 2 ^ 32"
  shows "cond_holds d c \<longleftrightarrow>
    (case ac_op c of
       EQ \<Rightarrow> alo = lo \<and> ahi = hi
     | NE \<Rightarrow> \<not> (alo = lo \<and> ahi = hi)
     | LT \<Rightarrow> ahi < hi \<or> ahi = hi \<and> alo < lo
     | LE \<Rightarrow> ahi < hi \<or> ahi = hi \<and> alo \<le> lo
     | GT \<Rightarrow> hi < ahi \<or> hi = ahi \<and> lo < alo
     | GE \<Rightarrow> hi < ahi \<or> hi = ahi \<and> lo \<le> alo
     | MASKED_EQ \<Rightarrow> (mlo = 0 \<or> alo AND mlo = lo) \<and> (mhi = 0 \<or> ahi AND mhi = hi))"
proof (cases "ac_op c = MASKED_EQ")
  case True
  have sub: "ac_value c AND ac_mask c = ac_value c"
    using assms(1) True by (simp add: wf_cond_def subset_mask)
  have "lo AND mlo = lo" and "hi AND mhi = hi"
    unfolding lo_def mlo_def hi_def mhi_def halves_and [symmetric] sub by simp_all
  then have "mlo = 0 \<Longrightarrow> lo = 0" and "mhi = 0 \<Longrightarrow> hi = 0" by auto
  moreover have "a AND ac_mask c = ac_value c \<longleftrightarrow> alo AND mlo = lo \<and> ahi AND mhi = hi"
    using halves_eq_iff [of "a AND ac_mask c" "ac_value c"]
    unfolding halves_and lo_def mlo_def hi_def mhi_def alo_def ahi_def .
  ultimately show ?thesis
    using True by (auto simp: cond_holds_def cmp_holds_def a_def)
next
  case False
  then show ?thesis
    using halves_eq_iff [of a "ac_value c"] halves_less_iff [of a "ac_value c"]
      halves_le_iff [of a "ac_value c"] halves_less_iff [of "ac_value c" a]
      halves_le_iff [of "ac_value c" a]
    unfolding cond_holds_def cmp_holds_def lo_def hi_def alo_def ahi_def
    by (cases "ac_op c") (simp_all only: a_def cmp_op.case cmp_op.simps simp_thms)
qed

lemma cond_exec:
  assumes wf: "wf_cond c" and d: "wf_data d"
    and code: "code_at insns n (cond_code c fail passed)"
    and fail: "resolves labels (length insns) fail F"
    and passed: "resolves labels (length insns) passed (n + length (cond_code c fail passed))"
  shows "reaches insns labels (data_bytes d) n
    (if cond_holds d c then n + length (cond_code c fail passed) else F)"
proof -
  let ?a = "uint (sd_args d ! nat (ac_index c))" and ?data = "data_bytes d"
  define P where "P = n + length (cond_code c fail passed)"
  define R where "R acc m = run_source insns labels ?data acc (PyInt (int m))" for acc m
  have i: "0 \<le> ac_index c" "ac_index c \<le> 5" using wf by (simp_all add: wf_cond_def)
  note ld = load_arg [OF d i]
  have L: "R acc m = R (load_word ?data k) (Suc m)" if "insns ! m = Load k" "m < length insns" for acc m k
    unfolding R_def using that by (intro source_load)
  have A: "R acc m = R (acc AND k) (Suc m)" if "insns ! m = And k" "m < length insns" for acc m k
    unfolding R_def using that by (intro source_and)
  have J: "R acc m = R acc (next_pc labels m (if b then jt else jf))"
    if "insns ! m = Jump (PyInt op) k jt jf" "m < length insns" "jump_cond op acc k = Some b"
      "jt \<in> {None, Some fail, Some passed}" "jf \<in> {None, Some fail, Some passed}" for acc m op k jt jf b
    unfolding R_def using that fail passed by (intro run_jump) (auto split: if_splits)
  have idx: "label_index labels fail = F" "label_index labels passed = P"
    using fail passed resolves_index unfolding P_def by blast+
  obtain alo ahi lo hi mlo mhi where h: "?a mod 2 ^ 32 = alo" "?a div 2 ^ 32 = ahi"
      "ac_value c mod 2 ^ 32 = lo" "ac_value c div 2 ^ 32 = hi"
      "ac_mask c mod 2 ^ 32 = mlo" "ac_mask c div 2 ^ 32 = mhi"
    by blast
  note sem = cond_holds_halves [OF wf, of d, unfolded h] and ld = ld [unfolded h]
  note code = code [unfolded cond_code_def Let_def h] and P = P_def [unfolded cond_code_def Let_def h]
  have "\<exists>acc'. R acc n = R acc' (if cond_holds d c then P else F)" for acc
  proof (cases "ac_op c = MASKED_EQ")
    case True
    show ?thesis
    proof (cases "mlo = 0"; cases "mhi = 0")
    qed (use code True in \<open>auto simp: sem masked_code_def ld idx L J A P\<close>)
  next
    case False
    with code show ?thesis by (cases "ac_op c") (auto simp: sem ld idx L J P)
  qed
  then show ?thesis unfolding reaches_def R_def P_def by blast
qed

end
