(* ===== verification/Syscalls.thy ===== *)
theory Syscalls
  imports Syscall_Tables
begin

text \<open>
  Architecture selection and syscall name resolution of \<^verbatim>\<open>src/seccompy/syscalls.py\<close>. The
  value of \<^verbatim>\<open>platform.machine()\<close> is the parameter \<open>machine\<close> of every function that reads it.
  The locale \<open>syscall_table\<close> states what resolution needs of a table; both tables of the
  source are instances, proved by evaluation.
\<close>

section \<open>Model\<close>

definition AUDIT_ARCH_X86_64 :: int where [const_defs]: "AUDIT_ARCH_X86_64 = 0xC000003E"
definition AUDIT_ARCH_AARCH64 :: int where [const_defs]: "AUDIT_ARCH_AARCH64 = 0xC00000B7"

type_synonym arch_entry = "string \<times> int \<times> (string \<times> int) list"

definition ARCHES :: "(string \<times> arch_entry) list" where
  "ARCHES = [
     (''x86_64'', (''x86_64'', AUDIT_ARCH_X86_64, X86_64_SYSCALLS)),
     (''amd64'', (''x86_64'', AUDIT_ARCH_X86_64, X86_64_SYSCALLS)),
     (''aarch64'', (''aarch64'', AUDIT_ARCH_AARCH64, AARCH64_SYSCALLS)),
     (''arm64'', (''aarch64'', AUDIT_ARCH_AARCH64, AARCH64_SYSCALLS))]"

definition native :: "string \<Rightarrow> arch_entry result" where
  "native machine =
     (case map_of ARCHES (py_lower machine) of
        None \<Rightarrow> Inl (UnsupportedError None)
      | Some entry \<Rightarrow> Inr entry)"

definition arch :: "string \<Rightarrow> string result" where
  "arch machine = bindE (native machine) (\<lambda>(name, audit, table). Inr name)"

definition audit_arch :: "string \<Rightarrow> int result" where
  "audit_arch machine = bindE (native machine) (\<lambda>(name, audit, table). Inr audit)"

definition table_nr :: "(string \<times> int) list \<Rightarrow> string \<Rightarrow> int result" where
  "table_nr table s =
     (case map_of table s of None \<Rightarrow> Inl (ValueError ''unknown syscall'') | Some nr \<Rightarrow> Inr nr)"

fun syscall_nr :: "string \<Rightarrow> pyval \<Rightarrow> int result" where
  "syscall_nr machine (PyInt nr) =
     (if 0 \<le> nr \<and> nr \<le> 0xFFFFFFFF then Inr nr
      else Inl (ValueError ''syscall number out of range''))"
| "syscall_nr machine (PyStr s) =
     bindE (native machine) (\<lambda>(name, audit, table). table_nr table s)"
| "syscall_nr machine PyUnhashable =
     bindE (native machine) (\<lambda>_. Inl (TypeError ''unhashable type''))"
| "syscall_nr machine _ =
     bindE (native machine) (\<lambda>_. Inl (ValueError ''unknown syscall''))"

fun table_name :: "(string \<times> int) list \<Rightarrow> int \<Rightarrow> string result" where
  "table_name [] nr = Inl (ValueError ''unknown syscall number'')"
| "table_name ((name, number) # rest) nr =
     (if number = nr then Inr name else table_name rest nr)"

definition syscall_name :: "string \<Rightarrow> int \<Rightarrow> string result" where
  "syscall_name machine nr = bindE (native machine) (\<lambda>(name, audit, table). table_name table nr)"

section \<open>Tables as an interface\<close>

text \<open>What name resolution relies on: keys of a dict are distinct, numbers are below the x32 bit.\<close>

locale syscall_table =
  fixes table :: "(string \<times> int) list"
  assumes distinct_names: "distinct (map fst table)"
    and numbers: "(name, nr) \<in> set table \<Longrightarrow> 0 \<le> nr \<and> nr < 0x40000000"
begin

lemma nr_iff: "table_nr table name = Inr nr \<longleftrightarrow> (name, nr) \<in> set table"
  using map_of_eq_Some_iff [OF distinct_names, of name nr]
  by (cases "map_of table name") (simp_all add: table_nr_def)

lemma name_member: "table_name table nr = Inr name \<Longrightarrow> (name, nr) \<in> set table"
proof -
  have "table_name t nr = Inr name \<Longrightarrow> (name, nr) \<in> set t" for t
    by (induction t nr rule: table_name.induct) (auto split: if_splits)
  then show "table_name table nr = Inr name \<Longrightarrow> (name, nr) \<in> set table" .
qed

lemma nr_of_name: "table_name table nr = Inr name \<Longrightarrow> table_nr table name = Inr nr"
  by (simp add: nr_iff name_member)

lemma name_of_nr: "table_nr table name = Inr nr \<Longrightarrow> \<exists>name'. table_name table nr = Inr name'"
proof -
  have "(name, nr) \<in> set t \<Longrightarrow> \<exists>name'. table_name t nr = Inr name'" for t
    by (induction t nr rule: table_name.induct) auto
  then show "table_nr table name = Inr nr \<Longrightarrow> \<exists>name'. table_name table nr = Inr name'"
    by (simp add: nr_iff)
qed

lemma nr_native: "table_nr table name = Inr nr \<Longrightarrow> 0 \<le> nr \<and> nr < 0x40000000"
  by (simp add: nr_iff numbers)

lemma nr_range: "table_nr table name = Inr nr \<Longrightarrow> 0 \<le> nr \<and> nr \<le> 0xFFFFFFFF"
  using nr_native by fastforce

end

text \<open>A table in which no two names share a number.\<close>

locale injective_syscall_table = syscall_table +
  assumes distinct_numbers: "distinct (map snd table)"
begin

lemma name_of_nr_unique: "table_nr table name = Inr nr \<Longrightarrow> table_name table nr = Inr name"
proof -
  assume nr: "table_nr table name = Inr nr"
  then obtain name' where name': "table_name table nr = Inr name'"
    using name_of_nr by blast
  then have "(name', nr) \<in> set table" and "(name, nr) \<in> set table"
    using name_member nr by (simp_all add: nr_iff)
  then have "name' = name"
    using distinct_numbers by (auto simp: distinct_map dest: inj_onD [of snd "set table" "(name', nr)" "(name, nr)"])
  with name' show ?thesis by simp
qed

end

section \<open>The two tables\<close>

definition entry_ok :: "string \<times> int \<Rightarrow> bool" where
  "entry_ok e \<longleftrightarrow> fst e \<noteq> ''memfd_secret'' \<and> snd e \<noteq> 447 \<and> 0 \<le> snd e \<and> snd e < 0x40000000"

abbreviation "x86_literal \<equiv> x86_64_syscalls_1 @ x86_64_syscalls_2 @ x86_64_syscalls_3"
abbreviation "aarch64_literal \<equiv> aarch64_syscalls_1 @ aarch64_syscalls_2 @ aarch64_syscalls_3"

lemma x86_names: "distinct_strings (map fst x86_literal)"
  by code_simp

lemma aarch64_names: "distinct_strings (map fst aarch64_literal)"
  by code_simp

lemma x86_numbers: "increasing (map snd x86_literal)"
  by code_simp

lemma x86_entries: "list_all entry_ok x86_literal"
  by code_simp

lemma aarch64_entries: "list_all entry_ok aarch64_literal"
  by code_simp

lemma memfd_secret_new:
  assumes "list_all entry_ok d"
  shows "''memfd_secret'' \<notin> fst ` set d" and "447 \<notin> snd ` set d"
  using assms by (auto simp: list_all_iff entry_ok_def)

lemma x86_table_eq: "X86_64_SYSCALLS = x86_literal @ [(''memfd_secret'', 447)]"
  unfolding X86_64_SYSCALLS_def by (intro dict_set_new memfd_secret_new x86_entries)

lemma aarch64_table_eq: "AARCH64_SYSCALLS = aarch64_literal @ [(''memfd_secret'', 447)]"
  unfolding AARCH64_SYSCALLS_def by (intro dict_set_new memfd_secret_new aarch64_entries)

text \<open>A table built by adding memfd_secret to a checked literal.\<close>

lemma extended_table:
  assumes "distinct_strings (map fst d)" and "list_all entry_ok d"
  shows "distinct (map fst (d @ [(''memfd_secret'', 447)]))"
    and "(name, nr) \<in> set (d @ [(''memfd_secret'', 447)]) \<Longrightarrow> 0 \<le> nr \<and> nr < 0x40000000"
  using distinct_strings_distinct [OF assms(1)] memfd_secret_new [OF assms(2)] assms(2)
  by (auto simp: list_all_iff entry_ok_def)

interpretation x86: injective_syscall_table X86_64_SYSCALLS
proof unfold_locales
  show "distinct (map fst X86_64_SYSCALLS)"
    unfolding x86_table_eq by (rule extended_table [OF x86_names x86_entries])
  show "0 \<le> nr \<and> nr < 0x40000000" if "(name, nr) \<in> set X86_64_SYSCALLS" for name nr
    using that unfolding x86_table_eq by (rule extended_table [OF x86_names x86_entries])
  have "distinct (map snd x86_literal @ [447])"
    using increasing_distinct [OF x86_numbers] memfd_secret_new(2) [OF x86_entries]
    unfolding distinct_append by (simp only: set_map) simp
  then show "distinct (map snd X86_64_SYSCALLS)"
    unfolding x86_table_eq map_append [of snd x86_literal] by simp
qed

interpretation aarch64: syscall_table AARCH64_SYSCALLS
proof unfold_locales
  show "distinct (map fst AARCH64_SYSCALLS)"
    unfolding aarch64_table_eq by (rule extended_table [OF aarch64_names aarch64_entries])
  show "0 \<le> nr \<and> nr < 0x40000000" if "(name, nr) \<in> set AARCH64_SYSCALLS" for name nr
    using that unfolding aarch64_table_eq by (rule extended_table [OF aarch64_names aarch64_entries])
qed


section \<open>Resolution on the native architecture\<close>

lemma native_cases:
  assumes "native machine = Inr (name, audit, table)"
  obtains (x86) "name = ''x86_64''" "audit = AUDIT_ARCH_X86_64" "table = X86_64_SYSCALLS"
  | (aarch64) "name = ''aarch64''" "audit = AUDIT_ARCH_AARCH64" "table = AARCH64_SYSCALLS"
  using assms by (auto simp: native_def ARCHES_def split: if_splits)

lemma native_table: "native machine = Inr (name, audit, table) \<Longrightarrow> syscall_table table"
  using x86.syscall_table_axioms aarch64.syscall_table_axioms by (elim native_cases) simp_all

lemma audit_arch_range: "audit_arch machine = Inr a \<Longrightarrow> 0 \<le> a \<and> a \<le> 0xFFFFFFFF"
  by (auto simp: audit_arch_def const_defs elim!: native_cases)

lemma syscall_nr_range: "syscall_nr machine v = Inr nr \<Longrightarrow> 0 \<le> nr \<and> nr \<le> 0xFFFFFFFF"
  by (cases "(machine, v)" rule: syscall_nr.cases)
    (auto split: if_splits dest!: native_table dest: syscall_table.nr_range)

lemma syscall_nr_native: "syscall_nr machine (PyStr s) = Inr nr \<Longrightarrow> nr < 0x40000000"
  by (auto dest!: native_table dest: syscall_table.nr_native)

text \<open>Two entries, used in the instances below.\<close>

lemma table_name_append: "table_name xs nr = Inr name \<Longrightarrow> table_name (xs @ ys) nr = Inr name"
  by (induction xs nr rule: table_name.induct) auto

lemma native_amd64: "native ''AMD64'' = Inr (''x86_64'', AUDIT_ARCH_X86_64, X86_64_SYSCALLS)"
proof -
  have "py_lower ''AMD64'' = ''amd64''" by code_simp
  then show ?thesis by (simp add: native_def ARCHES_def)
qed

lemma native_aarch64: "native ''aarch64'' = Inr (''aarch64'', AUDIT_ARCH_AARCH64, AARCH64_SYSCALLS)"
proof -
  have "py_lower ''aarch64'' = ''aarch64''" by code_simp
  then show ?thesis by (simp add: native_def ARCHES_def)
qed

lemma fcntl_aarch64: "syscall_name ''aarch64'' 25 = Inr ''fcntl''"
proof -
  have "table_name aarch64_syscalls_1 25 = Inr ''fcntl''" by code_simp
  then have "table_name AARCH64_SYSCALLS 25 = Inr ''fcntl''"
    unfolding aarch64_table_eq append_assoc by (rule table_name_append)
  then show ?thesis by (simp add: syscall_name_def native_aarch64)
qed

lemma openat_x86_64: "syscall_nr ''AMD64'' (PyStr ''openat'') = Inr 257"
proof -
  have "(''openat'', 257) \<in> set x86_64_syscalls_3"
    unfolding x86_64_syscalls_3_def by (rule list.set_intros(2), rule list.set_intros(1))
  then have "(''openat'', 257) \<in> set X86_64_SYSCALLS" by (simp add: x86_table_eq)
  then show ?thesis by (simp add: native_amd64 x86.nr_iff)
qed

text \<open>
  C31. Names resolve back. On every supported architecture a name that \<open>syscall_name\<close>
  returns for a number resolves to that number with \<open>syscall_nr\<close>, aliases included.
\<close>

theorem syscall_name_roundtrip:
  assumes "syscall_name machine nr = Inr name"
  shows "syscall_nr machine (PyStr name) = Inr nr"
  using assms syscall_table.nr_of_name [OF native_table] by (fastforce simp: syscall_name_def)

theorem syscall_name_roundtrip_witness:
  "syscall_name ''aarch64'' 25 = Inr ''fcntl'' \<and> syscall_nr ''aarch64'' (PyStr ''fcntl'') = Inr 25"
  using syscall_name_roundtrip [OF fcntl_aarch64] fcntl_aarch64 by blast

text \<open>
  C32. Numbers resolve back on x86_64. There \<open>syscall_name\<close> inverts \<open>syscall_nr\<close> on every name
  of the table, because no two names share a number.
\<close>

theorem syscall_nr_roundtrip_x86_64:
  assumes "arch machine = Inr ''x86_64''" and "syscall_nr machine (PyStr name) = Inr nr"
  shows "syscall_name machine nr = Inr name"
proof -
  obtain audit table where n: "native machine = Inr (''x86_64'', audit, table)"
    using assms(1) by (auto simp: arch_def)
  then have "table = X86_64_SYSCALLS" by (elim native_cases) simp_all
  with n assms(2) x86.name_of_nr_unique show ?thesis by (simp add: syscall_name_def)
qed

theorem syscall_nr_roundtrip_x86_64_witness:
  "syscall_name ''AMD64'' 257 = Inr ''openat''"
proof -
  have "arch ''AMD64'' = Inr ''x86_64''" by (simp add: arch_def native_amd64)
  then show ?thesis using openat_x86_64 by (rule syscall_nr_roundtrip_x86_64)
qed

end
