(* ===== verification/Seccomp_Filter.thy ===== *)
theory Seccomp_Filter
  imports Arg_Cond Syscalls
begin

text \<open>
  The Filter class of \<^verbatim>\<open>src/seccompy/filter.py\<close>: its state, the rule methods, compilation to
  a BPF program and the cached \<^verbatim>\<open>program\<close> property. The machine name read by
  \<^verbatim>\<open>platform.machine()\<close> is a parameter. An operation that raises leaves the filter unchanged,
  so its result is the exception alone.
\<close>

section \<open>Actions and flags\<close>

definition SECCOMP_RET_DATA :: int where [const_defs]: "SECCOMP_RET_DATA = 0x0000FFFF"

datatype action = KILL_PROCESS | KILL_THREAD | TRAP | ERRNO | USER_NOTIF | TRACE | LOG | ALLOW

abbreviation "KILL \<equiv> KILL_THREAD"

fun action_value :: "action \<Rightarrow> int" where
  "action_value KILL_PROCESS = 0x80000000"
| "action_value KILL_THREAD = 0x00000000"
| "action_value TRAP = 0x00030000"
| "action_value ERRNO = 0x00050000"
| "action_value USER_NOTIF = 0x7FC00000"
| "action_value TRACE = 0x7FF00000"
| "action_value LOG = 0x7FFC0000"
| "action_value ALLOW = 0x7FFF0000"

datatype filter_flag = FNONE | TSYNC | FLOG | SPEC_ALLOW | NEW_LISTENER | TSYNC_ESRCH | WAIT_KILLABLE_RECV

fun flag_value :: "filter_flag \<Rightarrow> int" where
  "flag_value FNONE = 0"
| "flag_value TSYNC = 1"
| "flag_value FLOG = 2"
| "flag_value SPEC_ALLOW = 4"
| "flag_value NEW_LISTENER = 8"
| "flag_value TSYNC_ESRCH = 16"
| "flag_value WAIT_KILLABLE_RECV = 32"

section \<open>State\<close>

record rule =
  r_action :: int
  r_args :: "arg_cmp list"

text \<open>The fields of a Filter; \<open>f_rules\<close> is the insertion-ordered dict from syscall numbers to rules.\<close>

record sfilter =
  f_default :: int
  f_flags :: int
  f_rules :: "(int \<times> rule list) list"
  f_program :: "bytes option"
  f_loaded :: bool

definition new_Filter :: "pyval \<Rightarrow> pyval \<Rightarrow> sfilter result" where
  "new_Filter dflt flags =
     bindE (int_in 0 0xFFFFFFFF dflt ''default action out of range'') (\<lambda>a.
     bindE (int_in 0 0xFFFFFFFF flags ''filter flags out of range'') (\<lambda>fl.
       Inr \<lparr>f_default = a, f_flags = fl, f_rules = [], f_program = None, f_loaded = False\<rparr>))"

section \<open>Adding rules\<close>

definition check_mutable :: "sfilter \<Rightarrow> unit result" where
  "check_mutable f = guardE (\<not> f_loaded f) (RuntimeError ''filter is already loaded'')"

text \<open>The \<open>args\<close> parameter: None, an index to value mapping, or an iterable of conditions.\<close>

datatype args = NoArgs | ArgsMap "(pyval \<times> pyval) list" | ArgsSeq "arg_cond list"

fun mapE :: "('a \<Rightarrow> 'b result) \<Rightarrow> 'a list \<Rightarrow> 'b list result" where
  "mapE g [] = Inr []"
| "mapE g (x # xs) = bindE (g x) (\<lambda>y. bindE (mapE g xs) (\<lambda>ys. Inr (y # ys)))"

fun conds_of :: "args \<Rightarrow> arg_cmp list result" where
  "conds_of NoArgs = Inr []"
| "conds_of (ArgsMap m) =
     bindE (mapE (\<lambda>(i, v). new_ArgCmp i (PyInt (cmp_value EQ)) v (PyInt U64_MAX)) m)
       (\<lambda>raw. Inr (sort_key ac_index raw))"
| "conds_of (ArgsSeq cs) = bindE (mapE coerce_cond cs) (\<lambda>raw. Inr (sort_key ac_index raw))"

definition add :: "string \<Rightarrow> sfilter \<Rightarrow> pyval \<Rightarrow> int \<Rightarrow> args \<Rightarrow> sfilter result" where
  "add machine f syscall act args =
     bindE (check_mutable f) (\<lambda>_.
     bindE (syscall_nr machine syscall) (\<lambda>nr.
     bindE (conds_of args) (\<lambda>conds.
       let old = (case map_of (f_rules f) nr of None \<Rightarrow> [] | Some rs \<Rightarrow> rs)
       in Inr (f\<lparr>f_rules := dict_set (f_rules f) nr (old @ [\<lparr>r_action = act, r_args = conds\<rparr>]),
                 f_program := None\<rparr>))))"

definition filter_allow :: "string \<Rightarrow> sfilter \<Rightarrow> pyval \<Rightarrow> args \<Rightarrow> sfilter result" where
  "filter_allow machine f syscall args = add machine f syscall (action_value ALLOW) args"

definition filter_kill :: "string \<Rightarrow> sfilter \<Rightarrow> pyval \<Rightarrow> args \<Rightarrow> sfilter result" where
  "filter_kill machine f syscall args = add machine f syscall (action_value KILL_PROCESS) args"

definition filter_kill_thread :: "string \<Rightarrow> sfilter \<Rightarrow> pyval \<Rightarrow> args \<Rightarrow> sfilter result" where
  "filter_kill_thread machine f syscall args = add machine f syscall (action_value KILL_THREAD) args"

definition filter_trap :: "string \<Rightarrow> sfilter \<Rightarrow> pyval \<Rightarrow> args \<Rightarrow> sfilter result" where
  "filter_trap machine f syscall args = add machine f syscall (action_value TRAP) args"

definition filter_errno :: "string \<Rightarrow> sfilter \<Rightarrow> pyval \<Rightarrow> pyval \<Rightarrow> args \<Rightarrow> sfilter result" where
  "filter_errno machine f syscall error args =
     bindE (int_in 0 SECCOMP_RET_DATA error ''errno out of range'') (\<lambda>e.
       add machine f syscall (action_value ERRNO OR e) args)"

definition filter_trace :: "string \<Rightarrow> sfilter \<Rightarrow> pyval \<Rightarrow> pyval \<Rightarrow> args \<Rightarrow> sfilter result" where
  "filter_trace machine f syscall msg args =
     bindE (int_in 0 SECCOMP_RET_DATA msg ''trace message out of range'') (\<lambda>m.
       add machine f syscall (action_value TRACE OR m) args)"

definition filter_log :: "string \<Rightarrow> sfilter \<Rightarrow> pyval \<Rightarrow> args \<Rightarrow> sfilter result" where
  "filter_log machine f syscall args = add machine f syscall (action_value LOG) args"

definition filter_notify :: "string \<Rightarrow> sfilter \<Rightarrow> pyval \<Rightarrow> args \<Rightarrow> sfilter result" where
  "filter_notify machine f syscall args = add machine f syscall (action_value USER_NOTIF) args"

section \<open>Compilation\<close>

definition block_label :: "int \<Rightarrow> string" where
  "block_label nr = ''block_'' @ py_str nr"

definition next_label :: "int \<Rightarrow> nat \<Rightarrow> string" where
  "next_label nr i = ''next_'' @ py_str nr @ ''_'' @ py_str (int i)"

definition hit_label :: "int \<Rightarrow> nat \<Rightarrow> nat \<Rightarrow> string" where
  "hit_label nr i j = ''hit_'' @ py_str nr @ ''_'' @ py_str (int i) @ ''_'' @ py_str (int j)"

fun emit_conds ::
    "insn list \<Rightarrow> labels \<Rightarrow> int \<Rightarrow> nat \<Rightarrow> nat \<Rightarrow> arg_cmp list \<Rightarrow> (insn list \<times> labels) result" where
  "emit_conds insns labels nr i j [] = Inr (insns, labels)"
| "emit_conds insns labels nr i j (c # cs) =
     bindE (emit_cond insns labels c (next_label nr i) (hit_label nr i j)) (\<lambda>(insns', labels').
       emit_conds insns' labels' nr i (Suc j) cs)"

text \<open>The rules of one syscall; the last component is \<open>falls_through\<close>.\<close>

fun emit_rules ::
    "insn list \<Rightarrow> labels \<Rightarrow> int \<Rightarrow> nat \<Rightarrow> rule list \<Rightarrow> (insn list \<times> labels \<times> bool) result" where
  "emit_rules insns labels nr i [] = Inr (insns, labels, True)"
| "emit_rules insns labels nr i (r # rs) =
     (if r_args r = [] then
        bindE (append_all insns [new_Ret (PyInt (r_action r))]) (\<lambda>insns'. Inr (insns', labels, False))
      else
        bindE (emit_conds insns labels nr i 0 (r_args r)) (\<lambda>(insns1, labels1).
        bindE (append_all insns1 [new_Ret (PyInt (r_action r))]) (\<lambda>insns2.
          emit_rules insns2 (labels1(next_label nr i \<mapsto> PyInt (int (length insns2)))) nr (Suc i) rs)))"

fun emit_blocks ::
    "int \<Rightarrow> insn list \<Rightarrow> labels \<Rightarrow> (int \<times> rule list) list \<Rightarrow> (insn list \<times> labels) result" where
  "emit_blocks dflt insns labels [] = Inr (insns, labels)"
| "emit_blocks dflt insns labels ((nr, rs) # items) =
     bindE (emit_rules insns (labels(block_label nr \<mapsto> PyInt (int (length insns)))) nr 0 rs)
       (\<lambda>(insns1, labels1, falls_through).
     bindE (if falls_through then append_all insns1 [new_Ret (PyInt dflt)] else Inr insns1)
       (\<lambda>insns2. emit_blocks dflt insns2 labels1 items))"

text \<open>The instruction list and label dict at the call of \<^verbatim>\<open>bpf.assemble\<close>.\<close>

definition compile_source :: "string \<Rightarrow> sfilter \<Rightarrow> (insn list \<times> labels) result" where
  "compile_source machine f =
     bindE (audit_arch machine) (\<lambda>audit.
     bindE (append_all []
              ([new_Load (PyInt OFF_ARCH), new_Jump (PyInt BPF_JEQ) (PyInt audit) None (Some ''kill''),
                new_Load (PyInt OFF_NR)] @
               map (\<lambda>(nr, rs). new_Jump (PyInt BPF_JEQ) (PyInt (nr AND 0xFFFFFFFF)) (Some (block_label nr)) None)
                 (f_rules f) @
               [new_Ret (PyInt (f_default f))])) (\<lambda>insns.
     bindE (emit_blocks (f_default f) insns Map.empty (f_rules f)) (\<lambda>(insns1, labels1).
     bindE (append_all insns1 [new_Ret (PyInt (action_value KILL_PROCESS))]) (\<lambda>insns2.
       Inr (insns2, labels1(''kill'' \<mapsto> PyInt (int (length insns1))))))))"

definition compile :: "string \<Rightarrow> sfilter \<Rightarrow> bytes result" where
  "compile machine f = bindE (compile_source machine f) (\<lambda>(insns, labels). assemble insns labels)"

text \<open>The \<^verbatim>\<open>program\<close> property: compiles on first use and caches the bytes.\<close>

definition filter_program :: "string \<Rightarrow> sfilter \<Rightarrow> (sfilter \<times> bytes) result" where
  "filter_program machine f =
     (case f_program f of
        Some p \<Rightarrow> Inr (f, p)
      | None \<Rightarrow> bindE (compile machine f) (\<lambda>p. Inr (f\<lparr>f_program := Some p\<rparr>, p)))"

text \<open>\<^verbatim>\<open>__repr__\<close>, \<^verbatim>\<open>__copy__\<close> and \<^verbatim>\<open>__deepcopy__\<close>.\<close>

definition filter_repr :: "sfilter \<Rightarrow> string" where
  "filter_repr f =
     ''Filter(default='' @ py_hex (f_default f) @ '', rules='' @
     py_str (int (sum_list (map (length \<circ> snd) (f_rules f)))) @ '', '' @
     (if f_loaded f then ''loaded'' else ''building'') @ '')''"

definition filter_copy :: "sfilter \<Rightarrow> sfilter result" where
  "filter_copy f = Inl (TypeError ''Filter cannot be copied: clone its rules instead'')"

end
