(* ===== verification/Filter_Correct.thy ===== *)
theory Filter_Correct
  imports Seccomp_Filter
begin

text \<open>
  Correctness of filter compilation. An abstract specification gives the decision of a
  filter on a system call: the first rule of the syscall whose conditions hold, the default
  otherwise, and process death on a foreign architecture. The generated instructions and
  labels are computed, shown to be checked and forward, and run to that decision; the
  assembler interface carries the result over to the bytes.
\<close>

section \<open>Specification\<close>

definition rule_matches :: "seccomp_data \<Rightarrow> rule \<Rightarrow> bool" where
  "rule_matches d r = list_all (cond_holds d) (r_args r)"

definition decide_rules :: "seccomp_data \<Rightarrow> rule list \<Rightarrow> int option" where
  "decide_rules d rs = map_option r_action (find (rule_matches d) rs)"

definition decide_syscall :: "seccomp_data \<Rightarrow> sfilter \<Rightarrow> int" where
  "decide_syscall d f =
     (case map_of (f_rules f) (uint (sd_nr d)) of
        None \<Rightarrow> f_default f
      | Some rs \<Rightarrow> (case decide_rules d rs of None \<Rightarrow> f_default f | Some a \<Rightarrow> a))"

definition decision :: "int \<Rightarrow> sfilter \<Rightarrow> seccomp_data \<Rightarrow> int" where
  "decision audit f d =
     (if uint (sd_arch d) = audit then decide_syscall d f else action_value KILL_PROCESS)"

text \<open>Filters as the operations build them.\<close>

definition is_u32 :: "int \<Rightarrow> bool" where
  "is_u32 v \<longleftrightarrow> 0 \<le> v \<and> v \<le> 0xFFFFFFFF"

definition wf_rule :: "rule \<Rightarrow> bool" where
  "wf_rule r \<longleftrightarrow> is_u32 (r_action r) \<and> list_all wf_cond (r_args r)"

definition wf_rules :: "(int \<times> rule list) list \<Rightarrow> bool" where
  "wf_rules items \<longleftrightarrow>
     distinct (map fst items) \<and> list_all (\<lambda>(nr, rs). is_u32 nr \<and> list_all wf_rule rs) items"

definition insn_bound :: "sfilter \<Rightarrow> nat" where
  "insn_bound f =
     5 + sum_list (map (\<lambda>(nr, rs). 2 + sum_list (map (\<lambda>r. 1 + 6 * length (r_args r)) rs)) (f_rules f))"

section \<open>Labels\<close>

lemma label_neq [simp]:
  "block_label nr \<noteq> next_label nr' i" "next_label nr' i \<noteq> block_label nr"
  "block_label nr \<noteq> hit_label nr' i j" "hit_label nr' i j \<noteq> block_label nr"
  "next_label nr' i' \<noteq> hit_label nr i j" "hit_label nr i j \<noteq> next_label nr' i'"
  "block_label nr \<noteq> ''kill''" "''kill'' \<noteq> block_label nr"
  "next_label nr i \<noteq> ''kill''" "''kill'' \<noteq> next_label nr i"
  "hit_label nr i j \<noteq> ''kill''" "''kill'' \<noteq> hit_label nr i j"
  by (simp_all add: block_label_def next_label_def hit_label_def)

lemma label_inject [simp]:
  "block_label nr = block_label nr' \<longleftrightarrow> nr = nr'"
  "next_label nr i = next_label nr' i' \<longleftrightarrow> nr = nr' \<and> i = i'"
  "hit_label nr i j = hit_label nr' i' j' \<longleftrightarrow> nr = nr' \<and> i = i' \<and> j = j'"
  by (simp_all add: block_label_def next_label_def hit_label_def sep_append_inject)

section \<open>Generated code\<close>

fun conds_code :: "int \<Rightarrow> nat \<Rightarrow> nat \<Rightarrow> arg_cmp list \<Rightarrow> insn list" where
  "conds_code nr i j [] = []"
| "conds_code nr i j (c # cs) =
     cond_code c (next_label nr i) (hit_label nr i j) @ conds_code nr i (Suc j) cs"

fun conds_labels :: "nat \<Rightarrow> int \<Rightarrow> nat \<Rightarrow> nat \<Rightarrow> arg_cmp list \<Rightarrow> (string \<times> nat) list" where
  "conds_labels n nr i j [] = []"
| "conds_labels n nr i j (c # cs) =
     (let m = n + length (cond_code c (next_label nr i) (hit_label nr i j))
      in (hit_label nr i j, m) # conds_labels m nr i (Suc j) cs)"

fun rules_code :: "int \<Rightarrow> nat \<Rightarrow> rule list \<Rightarrow> insn list" where
  "rules_code nr i [] = []"
| "rules_code nr i (r # rs) =
     (if r_args r = [] then [Ret (r_action r)]
      else conds_code nr i 0 (r_args r) @ Ret (r_action r) # rules_code nr (Suc i) rs)"

fun rules_labels :: "nat \<Rightarrow> int \<Rightarrow> nat \<Rightarrow> rule list \<Rightarrow> (string \<times> nat) list" where
  "rules_labels n nr i [] = []"
| "rules_labels n nr i (r # rs) =
     (if r_args r = [] then []
      else let m = Suc (n + length (conds_code nr i 0 (r_args r)))
           in conds_labels n nr i 0 (r_args r) @ (next_label nr i, m) # rules_labels m nr (Suc i) rs)"

definition falls_through :: "rule list \<Rightarrow> bool" where
  "falls_through rs = list_all (\<lambda>r. r_args r \<noteq> []) rs"

definition block_code :: "int \<Rightarrow> int \<Rightarrow> rule list \<Rightarrow> insn list" where
  "block_code dflt nr rs = rules_code nr 0 rs @ (if falls_through rs then [Ret dflt] else [])"

fun blocks_code :: "int \<Rightarrow> (int \<times> rule list) list \<Rightarrow> insn list" where
  "blocks_code dflt [] = []"
| "blocks_code dflt ((nr, rs) # items) = block_code dflt nr rs @ blocks_code dflt items"

fun blocks_labels :: "int \<Rightarrow> nat \<Rightarrow> (int \<times> rule list) list \<Rightarrow> (string \<times> nat) list" where
  "blocks_labels dflt n [] = []"
| "blocks_labels dflt n ((nr, rs) # items) =
     (block_label nr, n) # rules_labels n nr 0 rs @
     blocks_labels dflt (n + length (block_code dflt nr rs)) items"

definition dispatch_code :: "(int \<times> rule list) list \<Rightarrow> insn list" where
  "dispatch_code items = map (\<lambda>(nr, rs). Jump (PyInt BPF_JEQ) nr (Some (block_label nr)) None) items"

definition head_code :: "int \<Rightarrow> sfilter \<Rightarrow> insn list" where
  "head_code audit f =
     [Load OFF_ARCH, Jump (PyInt BPF_JEQ) audit None (Some ''kill''), Load OFF_NR] @
     dispatch_code (f_rules f) @ [Ret (f_default f)]"

definition body_code :: "int \<Rightarrow> sfilter \<Rightarrow> insn list" where
  "body_code audit f = head_code audit f @ blocks_code (f_default f) (f_rules f)"

definition filter_code :: "int \<Rightarrow> sfilter \<Rightarrow> insn list" where
  "filter_code audit f = body_code audit f @ [Ret (action_value KILL_PROCESS)]"

definition filter_labels :: "int \<Rightarrow> sfilter \<Rightarrow> (string \<times> nat) list" where
  "filter_labels audit f =
     blocks_labels (f_default f) (length (head_code audit f)) (f_rules f) @
     [(''kill'', length (body_code audit f))]"

text \<open>A label dict filled by a sequence of assignments.\<close>

fun add_labels :: "labels \<Rightarrow> (string \<times> nat) list \<Rightarrow> labels" where
  "add_labels labels [] = labels"
| "add_labels labels ((l, p) # ls) = add_labels (labels(l \<mapsto> PyInt (int p))) ls"

lemma add_labels_append [simp]:
  "add_labels labels (xs @ ys) = add_labels (add_labels labels xs) ys"
  by (induction labels xs rule: add_labels.induct) (simp_all del: fun_upd_apply)

lemma add_labels_other: "l \<notin> fst ` set ls \<Longrightarrow> add_labels labels ls l = labels l"
  by (induction labels ls rule: add_labels.induct) auto

lemma add_labels_lookup:
  "distinct (map fst ls) \<Longrightarrow> (l, p) \<in> set ls \<Longrightarrow> add_labels labels ls l = Some (PyInt (int p))"
  by (induction labels ls rule: add_labels.induct) (auto simp: add_labels_other image_iff)

subsection \<open>The emitting functions produce it\<close>

lemma emit_conds_code:
  "list_all wf_cond cs \<Longrightarrow> emit_conds insns labels nr i j cs =
     Inr (insns @ conds_code nr i j cs, add_labels labels (conds_labels (length insns) nr i j cs))"
  by (induction cs arbitrary: insns labels j) (simp_all add: emit_cond_code Let_def)

lemma wf_rule_Ret [simp]: "wf_rule r \<Longrightarrow> new_Ret (PyInt (r_action r)) = Inr (Ret (r_action r))"
  by (simp add: wf_rule_def is_u32_def)

lemma emit_rules_code:
  "list_all wf_rule rs \<Longrightarrow> emit_rules insns labels nr i rs =
     Inr (insns @ rules_code nr i rs, add_labels labels (rules_labels (length insns) nr i rs),
          falls_through rs)"
proof (induction rs arbitrary: insns labels i)
  case (Cons r rs)
  then have "list_all wf_cond (r_args r)" by (simp add: wf_rule_def)
  with Cons show ?case
    by (simp add: emit_conds_code Let_def falls_through_def del: fun_upd_apply)
qed (simp add: falls_through_def)

lemma emit_blocks_code:
  assumes "is_u32 dflt"
  shows "list_all (\<lambda>(nr, rs). is_u32 nr \<and> list_all wf_rule rs) items \<Longrightarrow>
    emit_blocks dflt insns labels items =
     Inr (insns @ blocks_code dflt items, add_labels labels (blocks_labels dflt (length insns) items))"
proof (induction items arbitrary: insns labels)
  case (Cons it items)
  with assms show ?case
    by (cases it) (simp add: emit_rules_code block_code_def is_u32_def del: fun_upd_apply)
qed simp

lemma u32_and: "is_u32 v \<Longrightarrow> v AND 0xFFFFFFFF = v"
  by (simp add: is_u32_def and_u32_mask)

lemma compile_source_code:
  assumes "audit_arch machine = Inr audit" and "is_u32 (f_default f)" and "wf_rules (f_rules f)"
  shows "compile_source machine f =
    Inr (filter_code audit f, add_labels Map.empty (filter_labels audit f))"
proof -
  have audit: "is_u32 audit" using audit_arch_range [OF assms(1)] by (simp add: is_u32_def)
  have "map (\<lambda>(nr, rs). new_Jump (PyInt BPF_JEQ) (PyInt (nr AND 0xFFFFFFFF)) (Some (block_label nr)) None)
      (f_rules f) = map Inr (dispatch_code (f_rules f))"
    using assms(3) by (auto simp: dispatch_code_def wf_rules_def list_all_iff u32_and is_u32_def)
  then have head: "append_all [] ([new_Load (PyInt OFF_ARCH),
        new_Jump (PyInt BPF_JEQ) (PyInt audit) None (Some ''kill''), new_Load (PyInt OFF_NR)] @
      map (\<lambda>(nr, rs). new_Jump (PyInt BPF_JEQ) (PyInt (nr AND 0xFFFFFFFF)) (Some (block_label nr)) None)
        (f_rules f) @ [new_Ret (PyInt (f_default f))]) = Inr (head_code audit f)"
    using append_all_Inr [of "[]" "head_code audit f"] audit assms(2)
    by (simp add: head_code_def is_u32_def OFF_ARCH_def OFF_NR_def)
  show ?thesis
    using assms emit_blocks_code [of "f_default f" "f_rules f"]
    unfolding compile_source_def assms(1) bindE_Inr head
    by (simp add: wf_rules_def filter_code_def filter_labels_def body_code_def)
qed


subsection \<open>Sizes and checks\<close>

lemma length_cond_code: "length (cond_code c fail passed) \<le> 6"
  by (cases "ac_op c") (simp_all add: cond_code_def Let_def masked_code_def)

lemma length_conds_code: "length (conds_code nr i j cs) \<le> 6 * length cs"
  using length_cond_code by (induction cs arbitrary: j) (simp_all add: add_mono)

lemma length_rules_code: "length (rules_code nr i rs) \<le> sum_list (map (\<lambda>r. 1 + 6 * length (r_args r)) rs)"
proof (induction rs arbitrary: i)
  case (Cons r rs)
  from Cons [of "Suc i"] length_conds_code [of nr i 0 "r_args r"] show ?case by simp
qed simp

lemma length_blocks_code:
  "length (blocks_code dflt items) + length items \<le>
     sum_list (map (\<lambda>(nr, rs). 2 + sum_list (map (\<lambda>r. 1 + 6 * length (r_args r)) rs)) items)"
proof (induction items)
  case (Cons it items)
  with length_rules_code [of "fst it" 0 "snd it"] show ?case
    by (cases it) (simp add: block_code_def)
qed simp

lemma length_filter_code: "length (filter_code audit f) \<le> insn_bound f"
  using length_blocks_code [of "f_default f" "f_rules f"]
  by (simp add: filter_code_def body_code_def head_code_def dispatch_code_def insn_bound_def)

lemma wf_insn_code [simp]:
  "wf_insn (Load k) = is_u32 k" "wf_insn (And k) = is_u32 k" "wf_insn (Ret k) = is_u32 k"
  "op \<in> JUMP_OPS \<Longrightarrow> wf_insn (Jump (PyInt op) k jt jf) = is_u32 k"
  by (simp_all add: is_u32_def U32_MAX_def)

lemma cond_code_wf:
  assumes "wf_cond c"
  shows "list_all wf_insn (cond_code c fail passed)"
proof -
  have v: "0 \<le> ac_value c" "ac_value c \<le> U64_MAX" and m: "0 \<le> ac_mask c" "ac_mask c \<le> U64_MAX"
    and i: "0 \<le> ac_index c" "ac_index c \<le> 5"
    using assms by (simp_all add: wf_cond_def)
  then have "is_u32 (16 + 8 * ac_index c)" "is_u32 (20 + 8 * ac_index c)"
    by (simp_all add: is_u32_def)
  moreover have "is_u32 (ac_value c mod 2 ^ 32)" "is_u32 (ac_value c div 2 ^ 32)"
      "is_u32 (ac_mask c mod 2 ^ 32)" "is_u32 (ac_mask c div 2 ^ 32)"
    using u32_halves(3-6) [OF v] u32_halves(3-6) [OF m] unfolding is_u32_def by blast+
  ultimately show ?thesis
    unfolding cond_code_def Let_def masked_code_def
    by (cases "ac_op c") (simp_all only: cmp_op.case list.pred_inject wf_insn_code jump_ops
        list_all_append if_distrib [of "list_all wf_insn"] simp_thms if_cancel split: if_split)
qed

lemma conds_code_wf: "list_all wf_cond cs \<Longrightarrow> list_all wf_insn (conds_code nr i j cs)"
  by (induction cs arbitrary: j) (simp_all add: cond_code_wf)

lemma rules_code_wf: "list_all wf_rule rs \<Longrightarrow> list_all wf_insn (rules_code nr i rs)"
  by (induction rs arbitrary: i) (simp_all add: conds_code_wf wf_rule_def del: wf_insn.simps)

lemma blocks_code_wf:
  "is_u32 dflt \<Longrightarrow> list_all (\<lambda>(nr, rs). is_u32 nr \<and> list_all wf_rule rs) items \<Longrightarrow>
   list_all wf_insn (blocks_code dflt items)"
  by (induction dflt items rule: blocks_code.induct)
    (simp_all add: block_code_def rules_code_wf del: wf_insn.simps)

lemma filter_code_wf:
  assumes "is_u32 audit" and "is_u32 (f_default f)" and "wf_rules (f_rules f)"
  shows "list_all wf_insn (filter_code audit f)"
proof -
  have "is_u32 OFF_ARCH" "is_u32 OFF_NR" "is_u32 (action_value KILL_PROCESS)"
    by (simp_all add: is_u32_def const_defs)
  moreover have "list_all wf_insn (dispatch_code (f_rules f))"
    using assms(3) by (auto simp: dispatch_code_def wf_rules_def list_all_iff simp del: wf_insn.simps)
  ultimately show ?thesis
    using assms blocks_code_wf [of "f_default f" "f_rules f"]
    by (simp add: filter_code_def body_code_def head_code_def wf_rules_def
        del: wf_insn.simps action_value.simps)
qed

subsection \<open>Label keys are distinct and in range\<close>

lemma conds_labels_keys:
  "map fst (conds_labels n nr i j cs) = map (hit_label nr i) [j ..< j + length cs]"
  by (induction cs arbitrary: n j) (simp_all add: Let_def upt_rec)

lemma rules_labels_keys:
  "fst ` set (rules_labels n nr i rs) \<subseteq> {next_label nr k |k. i \<le> k} \<union> {hit_label nr k j |k j. i \<le> k}"
proof (induction rs arbitrary: n i)
  case (Cons r rs)
  let ?m = "Suc (n + length (conds_code nr i 0 (r_args r)))"
  have "fst ` set (conds_labels n nr i 0 (r_args r)) \<subseteq> {hit_label nr i j |j. True}"
    using conds_labels_keys [of n nr i 0 "r_args r"] unfolding set_map [symmetric] by auto
  moreover note Cons [of ?m "Suc i"]
  ultimately show ?case by (auto simp: Let_def)
qed simp

lemma rules_labels_distinct: "distinct (map fst (rules_labels n nr i rs))"
proof (induction rs arbitrary: n i)
  case (Cons r rs)
  let ?m = "Suc (n + length (conds_code nr i 0 (r_args r)))"
  have hits: "distinct (map fst (conds_labels n nr i 0 (r_args r)))"
    by (simp add: conds_labels_keys distinct_map inj_on_def)
  have "fst ` set (conds_labels n nr i 0 (r_args r)) \<subseteq> {hit_label nr i j |j. True}"
    using conds_labels_keys [of n nr i 0 "r_args r"] unfolding set_map [symmetric] by auto
  with rules_labels_keys [of ?m nr "Suc i" rs] Cons [of ?m "Suc i"] hits show ?case
    by (auto simp: Let_def) fastforce+
qed simp

definition key_nrs :: "string \<Rightarrow> int set" where
  "key_nrs l = {nr. l = block_label nr \<or> (\<exists>k. l = next_label nr k) \<or> (\<exists>k j. l = hit_label nr k j)}"

lemma rules_label_nr: "l \<in> fst ` set (rules_labels n nr i rs) \<Longrightarrow> key_nrs l = {nr} \<and> l \<noteq> block_label nr"
proof -
  assume "l \<in> fst ` set (rules_labels n nr i rs)"
  with rules_labels_keys [of n nr i rs] consider k where "l = next_label nr k" | k j where "l = hit_label nr k j"
    by blast
  then show ?thesis by cases (simp_all add: key_nrs_def)
qed

lemma blocks_label_nr: "l \<in> fst ` set (blocks_labels dflt n items) \<Longrightarrow> \<exists>nr \<in> fst ` set items. key_nrs l = {nr}"
proof (induction dflt n items rule: blocks_labels.induct)
  case (2 dflt n nr rs items)
  consider "l = block_label nr" | "l \<in> fst ` set (rules_labels n nr 0 rs)"
    | "l \<in> fst ` set (blocks_labels dflt (n + length (block_code dflt nr rs)) items)"
    using 2(2) by auto
  then show ?case
  proof cases
    case 1 then show ?thesis by (simp add: key_nrs_def)
  next
    case 2 then show ?thesis using rules_label_nr by fastforce
  next
    case 3 then show ?thesis using 2(1) by auto
  qed
qed simp

lemma blocks_labels_distinct:
  "distinct (map fst items) \<Longrightarrow> distinct (map fst (blocks_labels dflt n items))"
proof (induction dflt n items rule: blocks_labels.induct)
  case (2 dflt n nr rs items)
  let ?rest = "blocks_labels dflt (n + length (block_code dflt nr rs)) items"
  have rest: "l \<notin> fst ` set ?rest" if "key_nrs l = {nr}" for l
    using blocks_label_nr [of l dflt _ items] that 2(2) by fastforce
  have "block_label nr \<notin> fst ` set (rules_labels n nr 0 rs)"
    using rules_label_nr by blast
  moreover have "block_label nr \<notin> fst ` set ?rest"
    by (rule rest) (simp add: key_nrs_def)
  moreover have "fst ` set (rules_labels n nr 0 rs) \<inter> fst ` set ?rest = {}"
    using rest rules_label_nr by blast
  ultimately show ?case
    using 2 rules_labels_distinct [of n nr 0 rs] by simp
qed simp

lemma filter_labels_distinct:
  "wf_rules (f_rules f) \<Longrightarrow> distinct (map fst (filter_labels audit f))"
  using blocks_labels_distinct [of "f_rules f" "f_default f" "length (head_code audit f)"]
    blocks_label_nr [of "''kill''" "f_default f" "length (head_code audit f)" "f_rules f"]
  by (auto simp: filter_labels_def wf_rules_def key_nrs_def)

lemma conds_labels_le: "(l, p) \<in> set (conds_labels n nr i j cs) \<Longrightarrow> n \<le> p \<and> p \<le> n + length (conds_code nr i j cs)"
  by (induction cs arbitrary: n j) (fastforce simp: Let_def)+

lemma rules_labels_le: "(l, p) \<in> set (rules_labels n nr i rs) \<Longrightarrow> p \<le> n + length (rules_code nr i rs)"
proof (induction rs arbitrary: n i)
  case (Cons r rs)
  from Cons(2) Cons(1) [of _ "Suc i"] show ?case
    by (fastforce simp: Let_def dest: conds_labels_le split: if_splits)
qed simp

lemma blocks_labels_le: "(l, p) \<in> set (blocks_labels dflt n items) \<Longrightarrow> p \<le> n + length (blocks_code dflt items)"
proof (induction dflt n items rule: blocks_labels.induct)
  case (2 dflt n nr rs items)
  then show ?case
    using rules_labels_le [of l p n nr 0 rs] by (fastforce simp: block_code_def)
qed simp

lemma filter_labels_le: "(l, p) \<in> set (filter_labels audit f) \<Longrightarrow> p < length (filter_code audit f)"
  by (auto simp: filter_labels_def filter_code_def body_code_def dest!: blocks_labels_le)

subsection \<open>All jumps go forward\<close>

fun forward_at :: "labels \<Rightarrow> nat \<Rightarrow> nat \<Rightarrow> insn list \<Rightarrow> bool" where
  "forward_at labels N n [] \<longleftrightarrow> True"
| "forward_at labels N n (x # xs) \<longleftrightarrow>
     (\<forall>t \<in> set (targets x). \<exists>j. resolves labels N t j \<and> n < j) \<and> forward_at labels N (Suc n) xs"

lemma forward_at_append [simp]:
  "forward_at labels N n (xs @ ys) \<longleftrightarrow> forward_at labels N n xs \<and> forward_at labels N (n + length xs) ys"
  by (induction xs arbitrary: n) auto

lemma forward_at_nth: "forward_at labels N n xs \<longleftrightarrow>
    (\<forall>i < length xs. \<forall>t \<in> set (targets (xs ! i)). \<exists>j. resolves labels N t j \<and> n + i < j)"
proof (induction xs arbitrary: n)
  case (Cons x xs)
  show ?case
    unfolding forward_at.simps Cons All_less_Suc2 length_Cons by simp
qed simp

lemma forward_forward_at: "forward insns labels \<longleftrightarrow> forward_at labels (length insns) 0 insns"
  by (simp add: forward_def forward_at_nth)

definition binds :: "labels \<Rightarrow> nat \<Rightarrow> (string \<times> nat) list \<Rightarrow> bool" where
  "binds labels N ls \<longleftrightarrow> (\<forall>(l, p) \<in> set ls. resolves labels N l p)"

lemma binds_simps [simp]:
  "binds labels N []"
  "binds labels N ((l, p) # ls) \<longleftrightarrow> resolves labels N l p \<and> binds labels N ls"
  "binds labels N (xs @ ys) \<longleftrightarrow> binds labels N xs \<and> binds labels N ys"
  by (auto simp: binds_def)

lemma forward_at_cond:
  assumes "resolves labels N fail F" and "n + length (cond_code c fail passed) < F"
    and "resolves labels N passed (n + length (cond_code c fail passed))"
  shows "forward_at labels N n (cond_code c fail passed)"
  using assms unfolding cond_code_def Let_def masked_code_def
  by (cases "ac_op c") (auto 0 3 simp: map_filter_simps)

lemma forward_at_conds:
  assumes "resolves labels N (next_label nr i) F" and "n + length (conds_code nr i j cs) < F"
    and "binds labels N (conds_labels n nr i j cs)"
  shows "forward_at labels N n (conds_code nr i j cs)"
  using assms
  by (induction cs arbitrary: n j) (auto simp: Let_def add.assoc intro!: forward_at_cond)

lemma forward_at_rules:
  "binds labels N (rules_labels n nr i rs) \<Longrightarrow> forward_at labels N n (rules_code nr i rs)"
proof (induction rs arbitrary: n i)
  case (Cons r rs)
  then show ?case
    by (auto simp: Let_def intro!: forward_at_conds)
qed simp

lemma forward_at_block:
  "binds labels N (rules_labels n nr 0 rs) \<Longrightarrow> forward_at labels N n (block_code dflt nr rs)"
  by (simp add: block_code_def forward_at_rules)

lemma forward_at_blocks:
  "binds labels N (blocks_labels dflt n items) \<Longrightarrow> forward_at labels N n (blocks_code dflt items)"
  by (induction dflt n items rule: blocks_labels.induct) (simp_all add: forward_at_block)

lemma blocks_labels_block: "(nr, rs) \<in> set items \<Longrightarrow> \<exists>p \<ge> n. (block_label nr, p) \<in> set (blocks_labels dflt n items)"
proof (induction dflt n items rule: blocks_labels.induct)
  case (2 dflt n nr' rs' items)
  show ?case
  proof (cases "(nr, rs) = (nr', rs')")
    case False
    with 2 obtain p where "n + length (block_code dflt nr' rs') \<le> p"
      "(block_label nr, p) \<in> set (blocks_labels dflt (n + length (block_code dflt nr' rs')) items)"
      by auto
    then show ?thesis by (intro exI [of _ p]) simp
  qed auto
qed simp

lemma filter_labels_define:
  "wf_rules (f_rules f) \<Longrightarrow>
   binds (add_labels Map.empty (filter_labels audit f)) (length (filter_code audit f)) (filter_labels audit f)"
  using filter_labels_distinct filter_labels_le
  by (fastforce simp: binds_def resolves_def add_labels_lookup)

lemma filter_code_forward:
  assumes "binds labels (length (filter_code audit f)) (filter_labels audit f)"
  shows "forward (filter_code audit f) labels"
proof -
  let ?N = "length (filter_code audit f)"
  have blocks: "binds labels ?N (blocks_labels (f_default f) (length (head_code audit f)) (f_rules f))"
    and kill: "resolves labels ?N ''kill'' (length (body_code audit f))"
    using assms by (simp_all add: filter_labels_def)
  have "\<exists>j. resolves labels ?N t j \<and> 3 + i < j"
    if "i < length (f_rules f)" and "t \<in> set (targets (dispatch_code (f_rules f) ! i))" for i t
  proof -
    obtain nr rs where it: "f_rules f ! i = (nr, rs)" by fastforce
    then have "t = block_label nr" using that by (simp add: dispatch_code_def map_filter_simps)
    moreover have "(nr, rs) \<in> set (f_rules f)" using that(1) it by (metis nth_mem)
    then obtain p where "length (head_code audit f) \<le> p"
      "(block_label nr, p) \<in> set (blocks_labels (f_default f) (length (head_code audit f)) (f_rules f))"
      using blocks_labels_block by blast
    ultimately show ?thesis
      using blocks that(1) by (auto simp: binds_def head_code_def dispatch_code_def)
  qed
  then have "forward_at labels ?N 3 (dispatch_code (f_rules f))"
    by (simp add: forward_at_nth dispatch_code_def)
  moreover have "\<exists>j. resolves labels ?N ''kill'' j \<and> Suc 0 < j"
    using kill by (auto simp: body_code_def head_code_def)
  moreover note forward_at_blocks [OF blocks]
  ultimately have "forward_at labels ?N 0 (filter_code audit f)"
    by (simp add: filter_code_def body_code_def head_code_def map_filter_simps numeral_3_eq_3)
  then show ?thesis by (simp add: forward_forward_at)
qed

section \<open>Running generated code\<close>

lemma conds_exec:
  assumes "wf_data d" and "list_all wf_cond cs"
    and "code_at insns n (conds_code nr i j cs)"
    and "resolves labels (length insns) (next_label nr i) F"
    and "binds labels (length insns) (conds_labels n nr i j cs)"
  shows "reaches insns labels (data_bytes d) n
    (if list_all (cond_holds d) cs then n + length (conds_code nr i j cs) else F)"
  using assms
proof (induction cs arbitrary: n j)
  case (Cons c cs)
  let ?m = "n + length (cond_code c (next_label nr i) (hit_label nr i j))"
  have "reaches insns labels (data_bytes d) n (if cond_holds d c then ?m else F)"
    using Cons.prems by (intro cond_exec) (simp_all add: Let_def)
  moreover have "reaches insns labels (data_bytes d) ?m (if list_all (cond_holds d) cs
      then ?m + length (conds_code nr i (Suc j) cs) else F)"
    using Cons.prems by (intro Cons.IH) (simp_all add: Let_def)
  ultimately show ?case
    by (cases "cond_holds d c") (auto intro: reaches_trans simp: add.assoc)
qed simp

definition returns :: "insn list \<Rightarrow> labels \<Rightarrow> bytes \<Rightarrow> nat \<Rightarrow> int \<Rightarrow> bool" where
  "returns insns labels data n v \<longleftrightarrow>
     (\<forall>acc. run_source insns labels data acc (PyInt (int n)) = Some (Inr v))"

lemma returns_Ret: "code_at insns n [Ret v] \<Longrightarrow> returns insns labels data n v"
  by (simp add: returns_def source_ret)

lemma reaches_returns:
  "reaches insns labels data n m \<Longrightarrow> returns insns labels data m v \<Longrightarrow> returns insns labels data n v"
  unfolding reaches_def returns_def by metis

text \<open>The rules of a syscall return the action of the first match, or fall off their end.\<close>

lemma rules_exec:
  assumes "wf_data d" and "list_all wf_rule rs"
    and "code_at insns n (rules_code nr i rs)"
    and "binds labels (length insns) (rules_labels n nr i rs)"
  shows "case decide_rules d rs of
      Some a \<Rightarrow> returns insns labels (data_bytes d) n a
    | None \<Rightarrow> falls_through rs \<and> reaches insns labels (data_bytes d) n (n + length (rules_code nr i rs))"
  using assms
proof (induction rs arbitrary: n i)
  case Nil
  show ?case by (simp add: decide_rules_def falls_through_def)
next
  case (Cons r rs)
  show ?case
  proof (cases "r_args r = []")
    case True
    with Cons.prems show ?thesis
      by (simp add: decide_rules_def rule_matches_def returns_def source_ret)
  next
    case False
    let ?l = "length (conds_code nr i 0 (r_args r))"
    let ?m = "Suc (n + ?l)"
    have "reaches insns labels (data_bytes d) n (if list_all (cond_holds d) (r_args r) then n + ?l else ?m)"
      using Cons.prems False by (intro conds_exec) (simp_all add: Let_def wf_rule_def)
    then have conds: "reaches insns labels (data_bytes d) n (if rule_matches d r then n + ?l else ?m)"
      by (simp add: rule_matches_def)
    have ret: "returns insns labels (data_bytes d) (n + ?l) (r_action r)"
      using Cons.prems False by (intro returns_Ret) simp
    have rest: "case decide_rules d rs of
        Some a \<Rightarrow> returns insns labels (data_bytes d) ?m a
      | None \<Rightarrow> falls_through rs \<and>
          reaches insns labels (data_bytes d) ?m (?m + length (rules_code nr (Suc i) rs))"
      using Cons.prems False by (intro Cons.IH) (simp_all add: Let_def)
    show ?thesis
    proof (cases "rule_matches d r")
      case True
      with conds ret reaches_returns show ?thesis by (simp add: decide_rules_def)
    next
      case no: False
      then have "decide_rules d (r # rs) = decide_rules d rs" by (simp add: decide_rules_def)
      with rest conds no False show ?thesis
        by (auto simp: falls_through_def add.assoc intro: reaches_returns reaches_trans split: option.splits)
    qed
  qed
qed

lemma block_exec:
  assumes "wf_data d" and "list_all wf_rule rs" and "code_at insns n (block_code dflt nr rs)"
    and "binds labels (length insns) (rules_labels n nr 0 rs)"
  shows "returns insns labels (data_bytes d) n (case decide_rules d rs of None \<Rightarrow> dflt | Some a \<Rightarrow> a)"
proof -
  have "case decide_rules d rs of
      Some a \<Rightarrow> returns insns labels (data_bytes d) n a
    | None \<Rightarrow> falls_through rs \<and> reaches insns labels (data_bytes d) n (n + length (rules_code nr 0 rs))"
    using assms by (intro rules_exec) (simp_all add: block_code_def)
  moreover have "returns insns labels (data_bytes d) (n + length (rules_code nr 0 rs)) dflt"
    if "falls_through rs"
    using assms(3) that by (intro returns_Ret) (simp add: block_code_def)
  ultimately show ?thesis by (auto intro: reaches_returns split: option.splits)
qed

lemma blocks_exec:
  assumes "wf_data d" and "is_u32 dflt"
  shows "list_all (\<lambda>(nr, rs). is_u32 nr \<and> list_all wf_rule rs) items \<Longrightarrow>
    distinct (map fst items) \<Longrightarrow>
    code_at insns n (blocks_code dflt items) \<Longrightarrow>
    binds labels (length insns) (blocks_labels dflt n items) \<Longrightarrow> (nr, rs) \<in> set items \<Longrightarrow>
    returns insns labels (data_bytes d) (label_index labels (block_label nr))
      (case decide_rules d rs of None \<Rightarrow> dflt | Some a \<Rightarrow> a)"
proof (induction items arbitrary: n)
  case (Cons it items)
  obtain nr' rs' where it: "it = (nr', rs')" by (cases it)
  show ?case
  proof (cases "(nr, rs) = it")
    case True
    then have "label_index labels (block_label nr) = n"
      using Cons.prems it resolves_index by auto
    with Cons.prems it True assms(1) show ?thesis by (auto intro: block_exec)
  next
    case False
    with Cons.prems it show ?thesis
      by (intro Cons.IH [of "n + length (block_code dflt nr' rs')"]) auto
  qed
qed simp

text \<open>The dispatch table jumps to the block of the loaded syscall number.\<close>

lemma dispatch_exec:
  assumes "code_at insns n (dispatch_code items @ [Ret dflt])"
    and "\<And>nr rs. (nr, rs) \<in> set items \<Longrightarrow> \<exists>p. resolves labels (length insns) (block_label nr) p"
  shows "run_source insns labels data acc (PyInt (int n)) =
    (case map_of items acc of
       None \<Rightarrow> Some (Inr dflt)
     | Some rs \<Rightarrow> run_source insns labels data acc (PyInt (int (label_index labels (block_label acc)))))"
  using assms
proof (induction items arbitrary: n)
  case Nil
  then show ?case by (simp add: dispatch_code_def source_ret)
next
  case (Cons it items)
  obtain nr rs where it: "it = (nr, rs)" by (cases it)
  have "run_source insns labels data acc (PyInt (int n)) = run_source insns labels data acc
      (PyInt (int (next_pc labels n (if acc = nr then Some (block_label nr) else None))))"
    using Cons.prems it by (intro run_jump) (auto simp: dispatch_code_def split: if_splits)
  moreover have "run_source insns labels data acc (PyInt (int (Suc n))) =
    (case map_of items acc of
       None \<Rightarrow> Some (Inr dflt)
     | Some rs \<Rightarrow> run_source insns labels data acc (PyInt (int (label_index labels (block_label acc)))))"
    using Cons.prems it by (intro Cons.IH) (auto simp: dispatch_code_def)
  ultimately show ?case using it by simp
qed

text \<open>The whole program returns the decision of the filter.\<close>

lemma filter_exec:
  assumes d: "wf_data d" and wf: "is_u32 (f_default f)" "wf_rules (f_rules f)"
    and binds: "binds labels (length (filter_code audit f)) (filter_labels audit f)"
  shows "returns (filter_code audit f) labels (data_bytes d) 0 (decision audit f d)"
  unfolding returns_def
proof
  fix acc
  let ?P = "filter_code audit f" and ?items = "f_rules f" and ?nr = "uint (sd_nr d)"
  let ?n = "length (head_code audit f)" and ?arch = "uint (sd_arch d)"
  let ?run = "\<lambda>acc n. run_source ?P labels (data_bytes d) acc (PyInt (int n))"
  have code: "code_at ?P 0 (head_code audit f)" "code_at ?P ?n (blocks_code (f_default f) ?items)"
    "code_at ?P (length (body_code audit f)) [Ret (action_value KILL_PROCESS)]"
    using code_at_suffix [of "[]" ?P "[]"] by (simp_all add: filter_code_def body_code_def)
  have blocks: "binds labels (length ?P) (blocks_labels (f_default f) ?n ?items)"
    and kill: "resolves labels (length ?P) ''kill'' (length (body_code audit f))"
    using binds by (simp_all add: filter_labels_def)
  have "?run acc 0 = ?run ?arch 1"
    using code(1) load_arch [of d] source_load [of 0 ?P OFF_ARCH] by (simp add: head_code_def)
  also have "\<dots> = ?run ?arch (next_pc labels 1 (if ?arch = audit then None else Some ''kill''))"
    using code(1) kill by (intro run_jump) (auto simp: head_code_def split: if_splits)
  finally have start: "?run acc 0 = ?run ?arch (if ?arch = audit then 2 else length (body_code audit f))"
    using resolves_index [OF kill] by simp
  show "run_source ?P labels (data_bytes d) acc (PyInt (int 0)) = Some (Inr (decision audit f d))"
  proof (cases "?arch = audit")
    case False
    with start code(3) show ?thesis by (simp add: decision_def source_ret)
  next
    case True
    have "?run ?arch 2 = ?run ?nr 3"
      using code(1) load_nr [of d] source_load [of 2 ?P OFF_NR]
      by (simp add: head_code_def numeral_2_eq_2 numeral_3_eq_3)
    also have "\<dots> = (case map_of ?items ?nr of None \<Rightarrow> Some (Inr (f_default f))
        | Some rs \<Rightarrow> ?run ?nr (label_index labels (block_label ?nr)))"
      using code(1) blocks blocks_labels_block [of _ _ ?items ?n "f_default f"]
      by (intro dispatch_exec) (fastforce simp: head_code_def binds_def numeral_3_eq_3)+
    also have "\<dots> = Some (Inr (decide_syscall d f))"
      using blocks_exec [OF d wf(1) _ _ code(2) blocks, of ?nr] wf(2)
      by (auto simp: decide_syscall_def wf_rules_def returns_def dest: map_of_SomeD split: option.splits)
    finally show ?thesis using start True by (simp add: decision_def)
  qed
qed

lemma compile_correct_code:
  assumes "audit_arch machine = Inr audit" and "is_u32 (f_default f)" and "wf_rules (f_rules f)"
    and len: "3 * length (filter_code audit f) < 2 ^ 32"
  obtains (compiled) prog where "compile machine f = Inr prog"
    and "\<And>d acc. wf_data d \<Longrightarrow> run_packed prog (data_bytes d) acc 0 = Inr (decision audit f d)"
proof -
  let ?P = "filter_code audit f" and ?L = "add_labels Map.empty (filter_labels audit f)"
  have src: "compile_source machine f = Inr (?P, ?L)"
    using assms(1-3) by (rule compile_source_code)
  have b: "binds ?L (length ?P) (filter_labels audit f)"
    using assms(3) by (rule filter_labels_define)
  have wf: "list_all wf_insn ?P"
    using assms audit_arch_range [OF assms(1)] by (intro filter_code_wf) (simp_all add: is_u32_def)
  show thesis
  proof (rule cbpf.generated_code [OF wf len filter_code_forward [OF b], of wf_data data_bytes])
    show "run_source ?P ?L (data_bytes d) acc (PyInt 0) = Some (Inr (decision audit f d))"
      if "wf_data d" for d acc
      using filter_exec [OF that assms(2,3) b] by (simp add: returns_def)
    show thesis if "assemble ?P ?L = Inr prog" and "\<And>d acc. wf_data d \<Longrightarrow>
        run_packed prog (data_bytes d) acc 0 = Inr (decision audit f d)" for prog
      using that src by (intro compiled) (simp_all add: compile_def)
  qed
qed

text \<open>The length of the code is bounded by the rules.\<close>

lemma compile_correct:
  assumes "audit_arch machine = Inr audit" and "is_u32 (f_default f)" and "wf_rules (f_rules f)"
    and "3 * insn_bound f < 2 ^ 32"
  obtains prog where "compile machine f = Inr prog"
    and "\<And>d acc. wf_data d \<Longrightarrow> run_packed prog (data_bytes d) acc 0 = Inr (decision audit f d)"
proof -
  have "3 * length (filter_code audit f) < 2 ^ 32"
    using length_filter_code [of audit f] assms(4) by linarith
  from compile_correct_code [OF assms(1-3) this that] show thesis .
qed

text \<open>A compiled program has at least one encoded instruction per source instruction.\<close>

lemma compile_length:
  assumes "compile machine f = Inr prog" and "is_u32 (f_default f)" and "wf_rules (f_rules f)"
  obtains audit where "audit_arch machine = Inr audit"
    and "8 dvd length prog" and "8 * length (filter_code audit f) \<le> length prog"
    and "length prog \<le> 24 * insn_bound f"
proof -
  obtain audit where a: "audit_arch machine = Inr audit"
    using assms(1) by (auto simp: compile_def compile_source_def)
  from compile_source_code [OF this assms(2,3)] assms(1)
  have "assemble (filter_code audit f) (add_labels Map.empty (filter_labels audit f)) = Inr prog"
    by (simp add: compile_def)
  from a assemble_length [OF this] length_filter_code [of audit f] show thesis by (intro that) auto
qed

end
