(* ===== verification/Filter_State.thy ===== *)
theory Filter_State
  imports Filter_Correct
begin

text \<open>
  The Filter as a state machine before loading: its invariant, and the contract the eight
  rule methods share, stated as a locale and proved for each of them.
\<close>

section \<open>Invariant\<close>

definition wf_filter :: "string \<Rightarrow> sfilter \<Rightarrow> bool" where
  "wf_filter machine f \<longleftrightarrow>
     is_u32 (f_default f) \<and> is_u32 (f_flags f) \<and> wf_rules (f_rules f) \<and>
     (\<forall>p. f_program f = Some p \<longrightarrow> compile machine f = Inr p) \<and>
     (f_loaded f \<longrightarrow> f_program f \<noteq> None)"

text \<open>ArgCmp objects a caller passes were built by the checked constructor.\<close>

fun wf_args :: "args \<Rightarrow> bool" where
  "wf_args (ArgsSeq cs) = list_all (\<lambda>c. case c of CondObj a \<Rightarrow> wf_cond a | _ \<Rightarrow> True) cs"
| "wf_args _ = True"

lemma mapE_all: "mapE g xs = Inr ys \<Longrightarrow> (\<And>x y. x \<in> set xs \<Longrightarrow> g x = Inr y \<Longrightarrow> P y) \<Longrightarrow> list_all P ys"
proof (induction xs arbitrary: ys)
  case (Cons x xs)
  then obtain y zs where y: "g x = Inr y" and zs: "mapE g xs = Inr zs" and ys: "ys = y # zs" by auto
  have "P y" using Cons.prems(2) [of x y] y by simp
  moreover have "list_all P zs" using zs Cons.prems(2) by (rule Cons.IH) simp_all
  ultimately show ?case using ys by simp
qed simp

lemma conds_of_wf: "conds_of args = Inr cs \<Longrightarrow> wf_args args \<Longrightarrow> list_all wf_cond cs"
proof (cases args)
  case (ArgsMap m)
  assume "conds_of args = Inr cs"
  with ArgsMap obtain raw where
    raw: "mapE (\<lambda>(i, v). new_ArgCmp i (PyInt (cmp_value EQ)) v (PyInt U64_MAX)) m = Inr raw"
    and "cs = sort_key ac_index raw" by auto
  moreover from raw have "list_all wf_cond raw" by (rule mapE_all) (auto dest: new_ArgCmp_wf)
  ultimately show ?thesis by (simp add: list_all_iff)
next
  case (ArgsSeq xs)
  assume "conds_of args = Inr cs" and wf: "wf_args args"
  with ArgsSeq obtain raw where raw: "mapE coerce_cond xs = Inr raw" and "cs = sort_key ac_index raw" by auto
  moreover from raw have "list_all wf_cond raw"
    by (rule mapE_all) (use wf ArgsSeq coerce_cond_wf in \<open>force simp: list_all_iff\<close>)
  ultimately show ?thesis by (simp add: list_all_iff)
qed simp

lemma conds_of_sorted: "conds_of args = Inr cs \<Longrightarrow> sorted (map ac_index cs)"
  by (cases args) auto

section \<open>What the conditions of a caller mean\<close>

text \<open>
  The meaning of the \<open>args\<close> parameter, read off the documentation: a mapping asks for equality at every
  index, a sequence for every one of its conditions, a tuple names an operator by its SCMP_CMP number.
\<close>

definition op_means :: "int \<Rightarrow> int \<Rightarrow> int \<Rightarrow> int \<Rightarrow> bool" where
  "op_means opn a v m =
     (if opn = 0 then a = v else if opn = 1 then a \<noteq> v else if opn = 2 then a < v else if opn = 3 then a \<le> v
      else if opn = 4 then a > v else if opn = 5 then a \<ge> v else a AND m = v)"

definition tuple_means :: "seccomp_data \<Rightarrow> pyval \<Rightarrow> pyval \<Rightarrow> pyval \<Rightarrow> pyval \<Rightarrow> bool" where
  "tuple_means d index op val msk =
     (case (index, int_value op, val, msk) of
        (PyInt i, Some opn, PyInt v, PyInt m) \<Rightarrow> op_means opn (uint (sd_args d ! nat i)) v m
      | _ \<Rightarrow> False)"

fun cond_means :: "seccomp_data \<Rightarrow> arg_cond \<Rightarrow> bool" where
  "cond_means d (CondObj c) = cond_holds d c"
| "cond_means d (CondTuple [index, op, val]) = tuple_means d index op val (PyInt (2 ^ 64 - 1))"
| "cond_means d (CondTuple [index, op, val, msk]) = tuple_means d index op val msk"
| "cond_means d _ = False"

fun args_hold :: "seccomp_data \<Rightarrow> args \<Rightarrow> bool" where
  "args_hold d NoArgs = True"
| "args_hold d (ArgsMap m) =
     list_all (\<lambda>(index, val). case (index, val) of (PyInt i, PyInt v) \<Rightarrow> uint (sd_args d ! nat i) = v | _ \<Rightarrow> False) m"
| "args_hold d (ArgsSeq cs) = list_all (cond_means d) cs"

lemma new_ArgCmp_means:
  assumes "new_ArgCmp index op val msk = Inr c"
  shows "cond_holds d c \<longleftrightarrow> tuple_means d index op val msk"
proof -
  have "int_value op = Some (cmp_value (ac_op c))" "index = PyInt (ac_index c)" "val = PyInt (ac_value c)" "msk = PyInt (ac_mask c)"
    using assms by (auto simp: new_ArgCmp_def cmp_of_def split: if_splits)
  then show ?thesis
    by (cases "ac_op c") (simp_all add: tuple_means_def op_means_def cond_holds_def cmp_holds_def)
qed

lemma coerce_cond_means: "coerce_cond x = Inr c \<Longrightarrow> cond_holds d c \<longleftrightarrow> cond_means d x"
  by (cases x rule: coerce_cond.cases) (simp_all add: new_ArgCmp_means U64_MAX_def)

lemma mapE_list_all:
  "mapE g xs = Inr ys \<Longrightarrow> (\<And>x y. g x = Inr y \<Longrightarrow> P y \<longleftrightarrow> Q x) \<Longrightarrow> list_all P ys \<longleftrightarrow> list_all Q xs"
  by (induction xs arbitrary: ys) auto

text \<open>The stored conditions hold exactly when what the caller asked for holds.\<close>

lemma conds_of_means:
  assumes "conds_of args = Inr conds"
  shows "list_all (cond_holds d) conds \<longleftrightarrow> args_hold d args"
proof (cases args)
  case (ArgsMap m)
  then obtain raw where raw: "mapE (\<lambda>(i, v). new_ArgCmp i (PyInt (cmp_value EQ)) v (PyInt U64_MAX)) m = Inr raw"
    and conds: "conds = sort_key ac_index raw" using assms by auto
  have "list_all (cond_holds d) raw \<longleftrightarrow> list_all (\<lambda>(i, v). tuple_means d i (PyInt 0) v (PyInt U64_MAX)) m"
    by (rule mapE_list_all [OF raw]) (auto simp: new_ArgCmp_means)
  then show ?thesis
    unfolding ArgsMap conds by (auto simp: list_all_iff tuple_means_def op_means_def split: pyval.splits)
next
  case (ArgsSeq cs)
  then obtain raw where raw: "mapE coerce_cond cs = Inr raw" and conds: "conds = sort_key ac_index raw"
    using assms by auto
  have "list_all (cond_holds d) raw \<longleftrightarrow> list_all (cond_means d) cs"
    by (rule mapE_list_all [OF raw]) (rule coerce_cond_means)
  then show ?thesis unfolding ArgsSeq conds by (simp add: list_all_iff)
qed (use assms in simp)

section \<open>The rule methods\<close>

text \<open>The rules a filter holds for a syscall number.\<close>

definition rules_for :: "sfilter \<Rightarrow> int \<Rightarrow> rule list" where
  "rules_for f nr = (case map_of (f_rules f) nr of None \<Rightarrow> [] | Some rs \<Rightarrow> rs)"

text \<open>\<open>f'\<close> is \<open>f\<close> with one rule added at the end of the rules of one syscall.\<close>

definition extends :: "sfilter \<Rightarrow> int \<Rightarrow> rule \<Rightarrow> sfilter \<Rightarrow> bool" where
  "extends f nr r f' \<longleftrightarrow>
     f' = f\<lparr>f_rules := dict_set (f_rules f) nr (rules_for f nr @ [r]), f_program := None\<rparr>"

lemma decide_syscall_rules:
  "decide_syscall d f = (case decide_rules d (rules_for f (uint (sd_nr d))) of None \<Rightarrow> f_default f | Some a \<Rightarrow> a)"
  by (simp add: decide_syscall_def rules_for_def decide_rules_def split: option.split)

lemma find_append: "find P (xs @ ys) = (case find P xs of None \<Rightarrow> find P ys | Some x \<Rightarrow> Some x)"
  by (induction xs) simp_all

lemma decide_rules_snoc:
  "decide_rules d (rs @ [r]) =
     (case decide_rules d rs of Some a \<Rightarrow> Some a | None \<Rightarrow> if rule_matches d r then Some (r_action r) else None)"
  by (simp add: decide_rules_def find_append split: option.split)

lemma extends_rules_for:
  "extends f nr r f' \<Longrightarrow> rules_for f' n = (if n = nr then rules_for f nr @ [r] else rules_for f n)"
  by (simp add: extends_def rules_for_def)

lemma extends_decides:
  assumes "extends f nr r f'"
  shows "decide_syscall d f' =
    (if uint (sd_nr d) = nr \<and> decide_rules d (rules_for f nr) = None \<and> rule_matches d r
     then r_action r else decide_syscall d f)"
proof -
  have "f_default f' = f_default f" using assms by (simp add: extends_def)
  then show ?thesis
    by (auto simp: decide_syscall_rules extends_rules_for [OF assms] decide_rules_snoc split: option.split)
qed

lemma dict_set_all: "list_all P d \<Longrightarrow> P (k, v) \<Longrightarrow> list_all P (dict_set d k v)"
  by (induction d k v rule: dict_set.induct) auto

lemma rules_for_wf:
  assumes "wf_rules (f_rules f)"
  shows "list_all wf_rule (rules_for f nr)"
proof (cases "map_of (f_rules f) nr")
  case (Some rs)
  then have "(nr, rs) \<in> set (f_rules f)" by (rule map_of_SomeD)
  with Some assms show ?thesis by (auto simp: rules_for_def wf_rules_def list_all_iff)
qed (simp add: rules_for_def)

lemma extends_wf_rules:
  assumes "extends f nr r f'" and "wf_rules (f_rules f)" and "is_u32 nr" and "wf_rule r"
  shows "wf_rules (f_rules f')"
proof -
  have "list_all (\<lambda>(nr, rs). is_u32 nr \<and> list_all wf_rule rs) (dict_set (f_rules f) nr (rules_for f nr @ [r]))"
    using assms(2-4) rules_for_wf [OF assms(2), of nr] by (intro dict_set_all) (simp_all add: wf_rules_def)
  with assms(1,2) show ?thesis by (simp add: extends_def wf_rules_def distinct_dict_set)
qed

lemma compile_cong: "f_rules f = f_rules g \<Longrightarrow> f_default f = f_default g \<Longrightarrow> compile machine f = compile machine g"
  by (simp add: compile_def compile_source_def)

text \<open>What every rule method promises.\<close>

locale rule_method =
  fixes meth :: "args \<Rightarrow> string \<Rightarrow> sfilter \<Rightarrow> sfilter result" and syscall :: pyval and act :: int
  assumes adds: "meth args machine f = Inr f' \<Longrightarrow>
      \<not> f_loaded f \<and> (\<exists>nr conds. syscall_nr machine syscall = Inr nr \<and> conds_of args = Inr conds \<and>
        extends f nr \<lparr>r_action = act, r_args = conds\<rparr> f')"
    and act_u32: "meth args machine f = Inr f' \<Longrightarrow> is_u32 act"
    and loaded_refused: "f_loaded f \<Longrightarrow> \<exists>e. meth args machine f = Inl e"
begin

lemma keeps_wf:
  assumes "meth args machine f = Inr f'" and "wf_args args" and "wf_filter machine f"
  shows "wf_filter machine f'"
proof -
  obtain nr conds where "syscall_nr machine syscall = Inr nr" and conds: "conds_of args = Inr conds"
    and ext: "extends f nr \<lparr>r_action = act, r_args = conds\<rparr> f'"
    using adds [OF assms(1)] by blast
  then have nr: "is_u32 nr" by (simp add: is_u32_def syscall_nr_range)
  have "wf_rule \<lparr>r_action = act, r_args = conds\<rparr>"
    using act_u32 [OF assms(1)] conds_of_wf [OF conds assms(2)] by (simp add: wf_rule_def)
  with extends_wf_rules [OF ext _ nr] assms(3) ext adds [OF assms(1)] show ?thesis
    by (simp add: wf_filter_def extends_def)
qed

lemma frame:
  assumes "meth args machine f = Inr f'"
  shows "\<not> f_loaded f' \<and> f_program f' = None \<and> f_default f' = f_default f \<and> f_flags f' = f_flags f"
  using adds [OF assms] by (auto simp: extends_def)

lemma decides:
  assumes "meth args machine f = Inr f'"
  obtains nr conds where "syscall_nr machine syscall = Inr nr" and "conds_of args = Inr conds"
    and "\<And>d. list_all (cond_holds d) conds \<longleftrightarrow> args_hold d args"
    and "\<And>d. decide_syscall d f' =
      (if uint (sd_nr d) = nr \<and> decide_rules d (rules_for f nr) = None \<and> args_hold d args
       then act else decide_syscall d f)"
proof -
  obtain nr conds where "syscall_nr machine syscall = Inr nr" and conds: "conds_of args = Inr conds"
    and ext: "extends f nr \<lparr>r_action = act, r_args = conds\<rparr> f'"
    using adds [OF assms] by blast
  moreover note conds_of_means [OF conds]
  moreover have "decide_syscall d f' =
      (if uint (sd_nr d) = nr \<and> decide_rules d (rules_for f nr) = None \<and> args_hold d args
       then act else decide_syscall d f)" for d
    using extends_decides [OF ext, of d] by (simp add: rule_matches_def conds_of_means [OF conds])
  ultimately show thesis using that by blast
qed

end

lemma add_result:
  assumes "add machine f syscall act args = Inr f'"
  shows "\<not> f_loaded f \<and> (\<exists>nr conds. syscall_nr machine syscall = Inr nr \<and> conds_of args = Inr conds \<and>
    extends f nr \<lparr>r_action = act, r_args = conds\<rparr> f')"
  using assms
  by (auto simp: add_def check_mutable_def guardE_def extends_def rules_for_def split: if_splits)

lemma add_loaded: "f_loaded f \<Longrightarrow> add machine f syscall act args = Inl (RuntimeError ''filter is already loaded'')"
  by (simp add: add_def check_mutable_def guardE_def)

lemma plain_method:
  assumes "\<And>args machine f. meth args machine f = add machine f syscall act args" and "is_u32 act"
  shows "rule_method meth syscall act"
  using assms add_result add_loaded by unfold_locales auto

lemma payload_method:
  assumes "\<And>args machine f. meth args machine f =
      bindE (int_in 0 SECCOMP_RET_DATA v msg) (\<lambda>e. add machine f syscall (base OR e) args)"
    and "\<And>e. v = PyInt e \<Longrightarrow> 0 \<le> e \<Longrightarrow> e \<le> SECCOMP_RET_DATA \<Longrightarrow> is_u32 (base OR e) \<and> act = base OR e"
  shows "rule_method meth syscall act"
proof
  fix args machine f f'
  show "is_u32 act" if "meth args machine f = Inr f'"
    using that assms by auto
  show "\<not> f_loaded f \<and> (\<exists>nr conds. syscall_nr machine syscall = Inr nr \<and> conds_of args = Inr conds \<and>
      extends f nr \<lparr>r_action = act, r_args = conds\<rparr> f')" if "meth args machine f = Inr f'"
    using that assms add_result by fastforce
  show "\<exists>e. meth args machine f = Inl e" if "f_loaded f"
    using that assms(1) add_loaded by (cases "int_in 0 SECCOMP_RET_DATA v msg") simp_all
qed

lemma action_u32 [simp]: "is_u32 (action_value a)"
  by (cases a) (simp_all add: is_u32_def)

text \<open>The payload of an action is its low half.\<close>

lemma action_payload:
  assumes "0 \<le> e" and "e \<le> SECCOMP_RET_DATA"
  shows "action_value ERRNO OR e = 5 * 2 ^ 16 + e" and "action_value TRACE OR e = 0x7FF0 * 2 ^ 16 + e"
  using push_or_add [of e 16 5] push_or_add [of e 16 "0x7FF0"] assms by (simp_all add: SECCOMP_RET_DATA_def)

lemma payload_u32:
  assumes "0 \<le> e" and "e \<le> SECCOMP_RET_DATA"
  shows "is_u32 (action_value ERRNO OR e)" and "is_u32 (action_value TRACE OR e)"
  using assms unfolding action_payload [OF assms] by (simp_all add: is_u32_def SECCOMP_RET_DATA_def)

definition payload :: "pyval \<Rightarrow> int" where
  "payload v = (case v of PyInt e \<Rightarrow> e | _ \<Rightarrow> 0)"

interpretation allow: rule_method "\<lambda>args machine f. filter_allow machine f syscall args" syscall "action_value ALLOW"
  for syscall by (rule plain_method) (simp_all add: filter_allow_def del: action_value.simps)

interpretation kill: rule_method "\<lambda>args machine f. filter_kill machine f syscall args" syscall "action_value KILL_PROCESS"
  for syscall by (rule plain_method) (simp_all add: filter_kill_def del: action_value.simps)

interpretation kill_thread: rule_method "\<lambda>args machine f. filter_kill_thread machine f syscall args" syscall "action_value KILL_THREAD"
  for syscall by (rule plain_method) (simp_all add: filter_kill_thread_def del: action_value.simps)

interpretation trap: rule_method "\<lambda>args machine f. filter_trap machine f syscall args" syscall "action_value TRAP"
  for syscall by (rule plain_method) (simp_all add: filter_trap_def del: action_value.simps)

interpretation log: rule_method "\<lambda>args machine f. filter_log machine f syscall args" syscall "action_value LOG"
  for syscall by (rule plain_method) (simp_all add: filter_log_def del: action_value.simps)

interpretation notify: rule_method "\<lambda>args machine f. filter_notify machine f syscall args" syscall "action_value USER_NOTIF"
  for syscall by (rule plain_method) (simp_all add: filter_notify_def del: action_value.simps)

interpretation errno: rule_method "\<lambda>args machine f. filter_errno machine f syscall error args"
    syscall "action_value ERRNO OR payload error"
  for syscall error
  by (rule payload_method [OF filter_errno_def]) (auto simp: payload_def payload_u32 simp del: action_value.simps)

interpretation trace: rule_method "\<lambda>args machine f. filter_trace machine f syscall msg args"
    syscall "action_value TRACE OR payload msg"
  for syscall msg
  by (rule payload_method [OF filter_trace_def]) (auto simp: payload_def payload_u32 simp del: action_value.simps)

section \<open>The other operations\<close>

lemma new_Filter_wf: "new_Filter dflt flags = Inr f \<Longrightarrow> wf_filter machine f \<and> \<not> f_loaded f \<and> f_rules f = []"
  by (auto simp: new_Filter_def wf_filter_def wf_rules_def is_u32_def)

lemma filter_program_result:
  assumes "filter_program machine f = Inr (f', p)" and "wf_filter machine f"
  shows "compile machine f = Inr p \<and> f' = f\<lparr>f_program := Some p\<rparr> \<and> wf_filter machine f'"
  using assms compile_cong [of "f\<lparr>f_program := Some p\<rparr>" f machine]
  by (auto simp: filter_program_def wf_filter_def split: option.splits)

end
