(* ===== verification/Filter_Props.thy ===== *)
theory Filter_Props
  imports Filter_State
begin

text \<open>
  The properties of filters as callers see them: what a compiled program decides, what each
  rule method adds to the decision, the checks of argument conditions, and the cached program.
\<close>

section \<open>A sample filter\<close>

text \<open>
  Allow by default, fail write(2) with EACCES on descriptors above 2, kill the process on
  ptrace(2); built with the methods on an x86_64 machine.
\<close>

definition sample_cond :: arg_cmp where
  "sample_cond = \<lparr>ac_index = 0, ac_op = GT, ac_value = 2, ac_mask = U64_MAX\<rparr>"

definition sample_filter :: sfilter where
  "sample_filter = \<lparr>f_default = 0x7FFF0000, f_flags = 0,
     f_rules = [(1, [\<lparr>r_action = 0x5000D, r_args = [sample_cond]\<rparr>]), (101, [\<lparr>r_action = 0x80000000, r_args = []\<rparr>])],
     f_program = None, f_loaded = False\<rparr>"

lemma sample_filter_built:
  "bindE (new_Filter (PyInt 0x7FFF0000) (PyInt 0)) (\<lambda>f.
   bindE (filter_errno ''AMD64'' f (PyInt 1) (PyInt 13) (ArgsSeq [CondTuple [PyInt 0, PyInt 4, PyInt 2]])) (\<lambda>f.
     filter_kill ''AMD64'' f (PyInt 101) NoArgs)) = Inr sample_filter"
  by (simp add: new_Filter_def filter_errno_def filter_kill_def add_def check_mutable_def guardE_def int_in_def
      new_ArgCmp_def cmp_of_def U64_MAX_def SECCOMP_RET_DATA_def sample_filter_def sample_cond_def)

lemma audit_amd64: "audit_arch ''AMD64'' = Inr 0xC000003E"
  by (simp add: audit_arch_def native_amd64 AUDIT_ARCH_X86_64_def)

lemma sample_filter_wf:
  "is_u32 (f_default sample_filter)" "wf_rules (f_rules sample_filter)" "3 * insn_bound sample_filter < 2 ^ 32"
  "wf_filter ''AMD64'' sample_filter"
  by (simp_all add: sample_filter_def sample_cond_def wf_rules_def wf_rule_def wf_cond_def is_u32_def U64_MAX_def
      insn_bound_def wf_filter_def)

definition syscall_data :: "32 word \<Rightarrow> 64 word \<Rightarrow> seccomp_data" where
  "syscall_data nr a0 = \<lparr>sd_nr = nr, sd_arch = 0xC000003E, sd_instruction_pointer = 0, sd_args = [a0, 0, 0, 0, 0, 0]\<rparr>"

lemma syscall_data_wf: "wf_data (syscall_data nr a0)"
  by (simp add: wf_data_def syscall_data_def)

section \<open>Compilation\<close>

text \<open>
  C2. A compiled filter decides as declared. For a 32-bit default and well-formed rules, the state every built filter is in,
  compilation succeeds (below a size whose expansion could overflow a 32-bit distance) and running the packed program on any system call returns: process death when the architecture is not
  the native one; otherwise the action of the first rule of that syscall all of whose 64-bit
  argument conditions hold; otherwise the default action.
\<close>

theorem compiled_filter_decides:
  assumes "audit_arch machine = Inr audit" and "is_u32 (f_default f)" and "wf_rules (f_rules f)"
    and "3 * insn_bound f < 2 ^ 32"
  shows "\<exists>prog. compile machine f = Inr prog \<and>
    (\<forall>d acc. wf_data d \<longrightarrow> run_packed prog (data_bytes d) acc 0 =
       Inr (if uint (sd_arch d) \<noteq> audit then action_value KILL_PROCESS
            else case map_of (f_rules f) (uint (sd_nr d)) of
                   None \<Rightarrow> f_default f
                 | Some rs \<Rightarrow> (case find (\<lambda>r. \<forall>c \<in> set (r_args r). cond_holds d c) rs of
                                 None \<Rightarrow> f_default f
                               | Some r \<Rightarrow> r_action r)))"
proof -
  have match: "(\<lambda>r. \<forall>c \<in> set (r_args r). cond_holds d c) = rule_matches d" for d
    by (simp add: fun_eq_iff rule_matches_def list_all_iff)
  obtain prog where prog: "compile machine f = Inr prog"
    and run: "\<And>d acc. wf_data d \<Longrightarrow> run_packed prog (data_bytes d) acc 0 = Inr (decision audit f d)"
    using assms by (rule compile_correct) blast
  then show ?thesis
    by (auto simp: match run decision_def decide_syscall_def decide_rules_def split: option.split)
qed

theorem compiled_filter_decides_witness:
  "\<exists>prog. compile ''AMD64'' sample_filter = Inr prog \<and>
     run_packed prog (data_bytes (syscall_data 1 7)) 0 0 = Inr 0x5000D \<and>
     run_packed prog (data_bytes (syscall_data 1 2)) 0 0 = Inr 0x7FFF0000 \<and>
     run_packed prog (data_bytes (syscall_data 101 0)) 0 0 = Inr 0x80000000"
  using compiled_filter_decides [OF audit_amd64 sample_filter_wf(1-3)] syscall_data_wf
  by (auto simp: syscall_data_def sample_filter_def sample_cond_def cond_holds_def cmp_holds_def)

text \<open>
  C5. Argument conditions compare all 64 bits. The instructions emitted for a checked condition, followed by a
  return of 1 where it passes and of 0 where it fails, compute the unsigned 64-bit
  comparison on the argument, although every load and jump works on 32-bit words.
\<close>

theorem emit_cond_decides:
  assumes "wf_cond c" and "wf_data d"
  shows "\<exists>insns labels. emit_cond [] Map.empty c ''fail'' ''pass'' = Inr (insns, labels) \<and>
    run_source (insns @ [Ret 1, Ret 0]) (labels(''fail'' \<mapsto> PyInt (int (length insns) + 1))) (data_bytes d) acc (PyInt 0) =
      Some (Inr (if cmp_holds (ac_op c) (uint (sd_args d ! nat (ac_index c))) (ac_value c) (ac_mask c) then 1 else 0))"
proof -
  define insns where "insns = cond_code c ''fail'' ''pass''"
  define labels where "labels = [''pass'' \<mapsto> PyInt (int (length insns))]"
  let ?P = "insns @ [Ret 1, Ret 0]" and ?L = "labels(''fail'' \<mapsto> PyInt (int (length insns) + 1))"
  let ?n = "length insns"
  have e: "emit_cond [] Map.empty c ''fail'' ''pass'' = Inr (insns, labels)"
    using emit_cond_code [OF assms(1), of "[]" Map.empty] by (simp add: insns_def labels_def)
  have "int ?n + 1 = int (Suc ?n)" by simp
  then have res: "resolves ?L (length ?P) ''fail'' (Suc ?n)" "resolves ?L (length ?P) ''pass'' (0 + ?n)"
    by (simp_all add: resolves_def labels_def)
  note code = cond_exec [OF assms, of ?P 0 "''fail''" "''pass''" ?L "Suc ?n", folded insns_def]
  have "reaches ?P ?L (data_bytes d) 0 (if cond_holds d c then 0 + ?n else Suc ?n)"
    by (rule code) (use res code_at_suffix [of "[]" insns "[Ret 1, Ret 0]"] in simp_all)
  moreover have "returns ?P ?L (data_bytes d) ?n 1" "returns ?P ?L (data_bytes d) (Suc ?n) 0"
    by (rule returns_Ret, simp add: nth_append)+
  ultimately have "returns ?P ?L (data_bytes d) 0 (if cond_holds d c then 1 else 0)"
    using reaches_returns [of ?P ?L "data_bytes d" 0] by (cases "cond_holds d c") simp_all
  with e show ?thesis by (auto simp: returns_def cond_holds_def)
qed

theorem emit_cond_decides_witness:
  "\<exists>insns labels. emit_cond [] Map.empty sample_cond ''fail'' ''pass'' = Inr (insns, labels) \<and>
     run_source (insns @ [Ret 1, Ret 0]) (labels(''fail'' \<mapsto> PyInt (int (length insns) + 1)))
       (data_bytes (syscall_data 1 0x100000000)) 0 (PyInt 0) = Some (Inr 1)"
proof -
  have wf: "wf_cond sample_cond" by (simp add: wf_cond_def sample_cond_def U64_MAX_def)
  from emit_cond_decides [OF wf syscall_data_wf [of 1 "0x100000000"], of 0]
  show ?thesis by (simp add: sample_cond_def syscall_data_def cmp_holds_def)
qed

lemma cmp_of_number:
  "cmp_of op = Inr c \<longleftrightarrow>
     (\<exists>n < 7. (op = PyInt (int n) \<or> op = PyFloat (Some (int n))) \<and> c = [EQ, NE, LT, LE, GT, GE, MASKED_EQ] ! n)"
proof -
  have nth: "cmp_value ([EQ, NE, LT, LE, GT, GE, MASKED_EQ] ! n) = int n" if "n < 7" for n
  proof -
    have "n = 0 \<or> n = 1 \<or> n = 2 \<or> n = 3 \<or> n = 4 \<or> n = 5 \<or> n = 6" using that by linarith
    then show ?thesis by (elim disjE) simp_all
  qed
  have inv: "nat (cmp_value c) < 7 \<and> c = [EQ, NE, LT, LE, GT, GE, MASKED_EQ] ! nat (cmp_value c)"
    by (cases c) simp_all
  have num: "int_value op = Some i \<longleftrightarrow> op = PyInt i \<or> op = PyFloat (Some i)" for i by (cases op) auto
  have "cmp_of op = Inr c \<longleftrightarrow> int_value op = Some (cmp_value c)"
    by (cases c) (auto simp: cmp_of_def)
  also have "\<dots> \<longleftrightarrow> (\<exists>n < 7. int_value op = Some (int n) \<and> c = [EQ, NE, LT, LE, GT, GE, MASKED_EQ] ! n)"
    using nth inv by metis
  finally show ?thesis unfolding num .
qed

text \<open>
  C36. Which conditions exist. The ArgCmp constructor returns the condition of its arguments exactly when they are an int
  index from 0 to 5, an operator equal to one of the numbers 0 to 6 (an int or a float equal to it), a u64 value and a
  u64 mask, where the mask is full unless the operator is MASKED_EQ and then covers the value; the operator stored is
  the one of that number. Otherwise it raises ValueError.
\<close>

theorem new_ArgCmp_accepts:
  "(new_ArgCmp index op val msk = Inr a \<longleftrightarrow>
      index = PyInt (ac_index a) \<and> val = PyInt (ac_value a) \<and> msk = PyInt (ac_mask a) \<and>
      (\<exists>n < 7. (op = PyInt (int n) \<or> op = PyFloat (Some (int n))) \<and> ac_op a = [EQ, NE, LT, LE, GT, GE, MASKED_EQ] ! n) \<and>
      ac_index a \<in> {0..5} \<and> ac_value a \<in> {0..2 ^ 64 - 1} \<and> ac_mask a \<in> {0..2 ^ 64 - 1} \<and>
      (if ac_op a = MASKED_EQ then ac_value a AND ac_mask a = ac_value a else ac_mask a = 2 ^ 64 - 1)) \<and>
   (new_ArgCmp index op val msk = Inl e \<longrightarrow> (\<exists>m. e = ValueError m))"
proof
  show "new_ArgCmp index op val msk = Inr a \<longleftrightarrow>
      index = PyInt (ac_index a) \<and> val = PyInt (ac_value a) \<and> msk = PyInt (ac_mask a) \<and>
      (\<exists>n < 7. (op = PyInt (int n) \<or> op = PyFloat (Some (int n))) \<and> ac_op a = [EQ, NE, LT, LE, GT, GE, MASKED_EQ] ! n) \<and>
      ac_index a \<in> {0..5} \<and> ac_value a \<in> {0..2 ^ 64 - 1} \<and> ac_mask a \<in> {0..2 ^ 64 - 1} \<and>
      (if ac_op a = MASKED_EQ then ac_value a AND ac_mask a = ac_value a else ac_mask a = 2 ^ 64 - 1)"
    (is "?L \<longleftrightarrow> ?R")
  proof
    show "?L \<Longrightarrow> ?R"
      by (simp add: new_ArgCmp_def cmp_of_number U64_MAX_def subset_mask split: if_splits) force+
    assume R: ?R
    then have "cmp_of op = Inr (ac_op a)" unfolding cmp_of_number by blast
    with R show ?L by (cases a) (auto simp: new_ArgCmp_def int_in_def U64_MAX_def subset_mask split: if_splits)
  qed
  have "cmp_of op = Inl e \<Longrightarrow> \<exists>m. e = ValueError m"
    by (auto simp: cmp_of_def split: option.splits)
  then show "new_ArgCmp index op val msk = Inl e \<longrightarrow> (\<exists>m. e = ValueError m)"
    by (auto simp: new_ArgCmp_def int_in_def bindE_eq_Inl split: pyval.splits if_splits)
qed

theorem new_ArgCmp_accepts_witness:
  "new_ArgCmp (PyInt 1) (PyInt 6) (PyInt 0x40) (PyInt 0x3F) = Inl (ValueError ''masked-eq value has bits outside the mask'') \<and>
   new_ArgCmp (PyInt 0) (PyFloat (Some 4)) (PyInt 2) (PyInt (2 ^ 64 - 1)) = Inr sample_cond"
proof -
  have "new_ArgCmp (PyInt 1) (PyInt 6) (PyInt 0x40) (PyInt 0x3F) = Inl (ValueError ''masked-eq value has bits outside the mask'')"
    by (simp add: new_ArgCmp_def cmp_of_def int_in_def U64_MAX_def)
  moreover have "new_ArgCmp (PyInt 0) (PyFloat (Some 4)) (PyInt 2) (PyInt (2 ^ 64 - 1)) = Inr sample_cond"
    using new_ArgCmp_accepts [of "PyInt 0" "PyFloat (Some 4)" "PyInt 2" "PyInt (2 ^ 64 - 1)" sample_cond]
    by (simp add: sample_cond_def U64_MAX_def)
  ultimately show ?thesis ..
qed

section \<open>Rule methods\<close>

text \<open>
  C22. What an errno rule adds. After \<open>filter_errno\<close> the decision changes only for the named syscall, only where no
  earlier rule of it matches and the arguments of the call meet what the caller asked for (equality at every index of a
  mapping, every condition of a sequence), and there it is the ERRNO action carrying the given errno in its low 16 bits.
\<close>

theorem errno_rule_decides:
  assumes "filter_errno machine f syscall (PyInt e) args = Inr f'"
  shows "\<exists>nr. syscall_nr machine syscall = Inr nr \<and> 0 \<le> e \<and> e \<le> 0xFFFF \<and>
    (\<forall>d. decide_syscall d f' =
      (if uint (sd_nr d) = nr \<and> decide_rules d (rules_for f nr) = None \<and> args_hold d args
       then 0x50000 + e else decide_syscall d f))"
proof -
  have e: "0 \<le> e" "e \<le> SECCOMP_RET_DATA" using assms by (auto simp: filter_errno_def)
  then have act: "action_value ERRNO OR payload (PyInt e) = 0x50000 + e"
    using action_payload(1) by (simp add: payload_def del: action_value.simps)
  show ?thesis
    by (rule errno.decides [OF assms]) (use e act in \<open>auto simp: SECCOMP_RET_DATA_def simp del: action_value.simps\<close>)
qed

text \<open>The sample filter before its last rule.\<close>

lemma sample_errno:
  "filter_errno ''AMD64'' sample_filter (PyInt 2) (PyInt 13) NoArgs =
     Inr (sample_filter\<lparr>f_rules := f_rules sample_filter @ [(2, [\<lparr>r_action = 0x5000D, r_args = []\<rparr>])]\<rparr>)"
  by (simp add: filter_errno_def add_def check_mutable_def guardE_def int_in_def SECCOMP_RET_DATA_def sample_filter_def)

theorem errno_rule_decides_witness:
  "\<exists>f'. filter_errno ''AMD64'' sample_filter (PyInt 2) (PyInt 13) NoArgs = Inr f' \<and>
     decide_syscall (syscall_data 2 0) f' = 0x5000D"
proof -
  from errno_rule_decides [OF sample_errno] sample_errno show ?thesis
    by (auto simp: syscall_data_def decide_rules_def rules_for_def sample_filter_def)
qed

text \<open>
  C23. What the plain rule methods add. Each of the six methods without a payload (allow, kill, kill_thread, trap,
  log, notify) changes the decision to its own action exactly for the calls of the named syscall whose arguments
  meet what the caller asked for and that match no earlier rule. All other decisions stay. The stored conditions hold
  exactly where the request holds.
\<close>

theorem plain_rules_decide:
  assumes "meth \<in> {(filter_allow, ALLOW), (filter_kill, KILL_PROCESS), (filter_kill_thread, KILL_THREAD),
      (filter_trap, TRAP), (filter_log, LOG), (filter_notify, USER_NOTIF)}"
    and "fst meth machine f syscall args = Inr f'"
  shows "\<exists>nr conds. syscall_nr machine syscall = Inr nr \<and> conds_of args = Inr conds \<and>
    (\<forall>d. list_all (cond_holds d) conds \<longleftrightarrow> args_hold d args) \<and>
    (\<forall>d. decide_syscall d f' =
      (if uint (sd_nr d) = nr \<and> decide_rules d (rules_for f nr) = None \<and> args_hold d args
       then action_value (snd meth) else decide_syscall d f))"
  using assms(1)
proof (elim insertE)
  assume m: "meth = (filter_allow, ALLOW)"
  show ?thesis by (rule allow.decides [OF assms(2) [unfolded m fst_conv]]) (auto simp: m)
next
  assume m: "meth = (filter_kill, KILL_PROCESS)"
  show ?thesis by (rule kill.decides [OF assms(2) [unfolded m fst_conv]]) (auto simp: m)
next
  assume m: "meth = (filter_kill_thread, KILL_THREAD)"
  show ?thesis by (rule kill_thread.decides [OF assms(2) [unfolded m fst_conv]]) (auto simp: m)
next
  assume m: "meth = (filter_trap, TRAP)"
  show ?thesis by (rule trap.decides [OF assms(2) [unfolded m fst_conv]]) (auto simp: m)
next
  assume m: "meth = (filter_log, LOG)"
  show ?thesis by (rule log.decides [OF assms(2) [unfolded m fst_conv]]) (auto simp: m)
next
  assume m: "meth = (filter_notify, USER_NOTIF)"
  show ?thesis by (rule notify.decides [OF assms(2) [unfolded m fst_conv]]) (auto simp: m)
qed simp

theorem plain_rules_decide_witness:
  "\<exists>f'. filter_kill ''AMD64'' sample_filter (PyInt 2) NoArgs = Inr f' \<and>
     decide_syscall (syscall_data 2 0) f' = 0x80000000"
proof -
  obtain f' where k: "filter_kill ''AMD64'' sample_filter (PyInt 2) NoArgs = Inr f'"
    by (simp add: filter_kill_def add_def check_mutable_def guardE_def sample_filter_def)
  then have kill: "fst (filter_kill, KILL_PROCESS) ''AMD64'' sample_filter (PyInt 2) NoArgs = Inr f'" by simp
  from plain_rules_decide [OF _ kill] k show ?thesis
    by (auto simp: syscall_data_def decide_rules_def rules_for_def sample_filter_def)
qed

end
