(* ===== verification/Kernel.thy ===== *)
theory Kernel
  imports Prelude
begin

text \<open>
  The boundary to libc and the kernel. What lies behind it is a parameter: a function from a
  request and a state of the outside world to a reply and a new state. Operations that talk
  to it thread the state, may raise and may fail to return (a retry loop the kernel
  interrupts forever); the value None stands for not returning.
\<close>

section \<open>Requests and replies\<close>

text \<open>
  An argument of a C call: an int passed without declared argument types (a C int, so 32
  bits), a null pointer, a pointer to a buffer with the given content, or a pointer to a
  structure given by its fields at their offsets. A field is a number of bytes, or a pointer of
  some size to a buffer.
\<close>

datatype kcell = Cell bytes | Ptr nat bytes

datatype karg = KInt "32 word" | KNull | KBuf bytes | KRef "(nat \<times> kcell) list"

datatype request =
    ReqSyscall "karg list"
  | ReqPrctl "karg list"
  | ReqIoctl "karg list"
  | ReqSetInheritable int bool
  | ReqClose int

text \<open>The return value, errno, and the bytes left in the buffer argument.\<close>

record reply =
  rp_ret :: int
  rp_errno :: int
  rp_out :: bytes

text \<open>\<^verbatim>\<open>sys.platform\<close>, \<^verbatim>\<open>platform.machine()\<close> and the behaviour of the kernel.\<close>

record 'w env =
  e_platform :: string
  e_machine :: string
  e_kernel :: "request \<Rightarrow> 'w \<Rightarrow> reply \<times> 'w"

text \<open>The process as the library sees it: the cached \<^verbatim>\<open>_libc\<close> handle and the world.\<close>

record 'w sys =
  s_libc :: bool
  s_os :: 'w

section \<open>Operations\<close>

type_synonym ('s, 'a) act = "'s \<Rightarrow> ('a result \<times> 's) option"

definition retA :: "'a \<Rightarrow> ('s, 'a) act" where
  "retA x = (\<lambda>s. Some (Inr x, s))"

definition raiseA :: "py_error \<Rightarrow> ('s, 'a) act" where
  "raiseA e = (\<lambda>s. Some (Inl e, s))"

definition liftA :: "'a result \<Rightarrow> ('s, 'a) act" where
  "liftA r = (\<lambda>s. Some (r, s))"

definition bindA :: "('s, 'a) act \<Rightarrow> ('a \<Rightarrow> ('s, 'b) act) \<Rightarrow> ('s, 'b) act" where
  "bindA m f =
     (\<lambda>s. case m s of
            None \<Rightarrow> None
          | Some (Inl e, s') \<Rightarrow> Some (Inl e, s')
          | Some (Inr x, s') \<Rightarrow> f x s')"

text \<open>\<^verbatim>\<open>try: m except e: h e\<close>; the handler re-raises what it does not catch.\<close>

definition catchA :: "('s, 'a) act \<Rightarrow> (py_error \<Rightarrow> ('s, 'a) act) \<Rightarrow> ('s, 'a) act" where
  "catchA m h =
     (\<lambda>s. case m s of
            None \<Rightarrow> None
          | Some (Inl e, s') \<Rightarrow> h e s'
          | Some (Inr x, s') \<Rightarrow> Some (Inr x, s'))"

lemma act_simps [simp]:
  "retA x s = Some (Inr x, s)" "raiseA e s = Some (Inl e, s)" "liftA r s = Some (r, s)"
  by (simp_all add: retA_def raiseA_def liftA_def)

lemma bindA_simps [simp]:
  "m s = Some (Inr x, s') \<Longrightarrow> bindA m f s = f x s'"
  "m s = Some (Inl e, s') \<Longrightarrow> bindA m f s = Some (Inl e, s')"
  "m s = None \<Longrightarrow> bindA m f s = None"
  by (simp_all add: bindA_def)

lemma catchA_simps [simp]:
  "m s = Some (Inr x, s') \<Longrightarrow> catchA m h s = Some (Inr x, s')"
  "m s = Some (Inl e, s') \<Longrightarrow> catchA m h s = h e s'"
  "m s = None \<Longrightarrow> catchA m h s = None"
  by (simp_all add: catchA_def)

lemma bindA_InrE:
  assumes "bindA m f s = Some (Inr y, t)"
  obtains x s' where "m s = Some (Inr x, s')" and "f x s' = Some (Inr y, t)"
  using assms by (auto simp: bindA_def split: option.splits sum.splits prod.splits)

lemma bindA_cases:
  assumes "bindA m f s = Some (r, t)"
  obtains (raised) e where "m s = Some (Inl e, t)" and "r = Inl e"
  | (continued) x u where "m s = Some (Inr x, u)" and "f x u = Some (r, t)"
  using assms by (auto simp: bindA_def split: option.splits sum.splits prod.splits)

section \<open>Exceptions of the library\<close>

definition EINTR :: int where [const_defs]: "EINTR = 4"
definition ENOENT :: int where [const_defs]: "ENOENT = 2"
definition EACCES :: int where [const_defs]: "EACCES = 13"
definition EFAULT :: int where [const_defs]: "EFAULT = 14"
definition EINVAL :: int where [const_defs]: "EINVAL = 22"
definition ENOSYS :: int where [const_defs]: "ENOSYS = 38"
definition EOPNOTSUPP :: int where [const_defs]: "EOPNOTSUPP = 95"

text \<open>The classes of \<^verbatim>\<open>errors.py\<close>: UnsupportedError below SeccompError below OSError.\<close>

fun is_UnsupportedError :: "py_error \<Rightarrow> bool" where
  "is_UnsupportedError (UnsupportedError e) = True"
| "is_UnsupportedError _ = False"

fun is_SeccompError :: "py_error \<Rightarrow> bool" where
  "is_SeccompError (SeccompError e) = True"
| "is_SeccompError e = is_UnsupportedError e"

fun is_OSError :: "py_error \<Rightarrow> bool" where
  "is_OSError (OSError e) = True"
| "is_OSError e = is_SeccompError e"

text \<open>The \<^verbatim>\<open>errno\<close> attribute of an OSError.\<close>

fun exc_errno :: "py_error \<Rightarrow> int option" where
  "exc_errno (SeccompError e) = Some e"
| "exc_errno (UnsupportedError e) = e"
| "exc_errno (OSError e) = e"
| "exc_errno _ = None"

section \<open>Retry loops\<close>

text \<open>A \<^verbatim>\<open>while True\<close> loop whose body returns, raises, or goes round again.\<close>

datatype 'a attempt = Done "'a result" | Again

partial_function (option) retry :: "('s \<Rightarrow> 'a attempt \<times> 's) \<Rightarrow> 's \<Rightarrow> ('a result \<times> 's) option" where
  "retry body s = (case body s of (Done r, s') \<Rightarrow> Some (r, s') | (Again, s') \<Rightarrow> retry body s')"

declare retry.simps [code]

text \<open>The state after \<open>n\<close> rounds.\<close>

fun rounds :: "('s \<Rightarrow> 'a attempt \<times> 's) \<Rightarrow> nat \<Rightarrow> 's \<Rightarrow> 's" where
  "rounds body 0 s = s"
| "rounds body (Suc n) s = rounds body n (snd (body s))"

lemma retry_Done: "body s = (Done r, s') \<Longrightarrow> retry body s = Some (r, s')"
  by (simp add: retry.simps)

lemma retry_Again: "body s = (Again, s') \<Longrightarrow> retry body s = retry body s'"
  by (simp add: retry.simps [of body s])

lemma retry_rounds:
  assumes "\<forall>m < n. fst (body (rounds body m s)) = Again"
  shows "retry body s = retry body (rounds body n s)"
  using assms
proof (induction n arbitrary: s)
  case (Suc n)
  have "fst (body s) = Again" using Suc.prems by (metis rounds.simps(1) zero_less_Suc)
  then have "retry body s = retry body (snd (body s))" by (metis prod.collapse retry_Again)
  also have "\<dots> = retry body (rounds body n (snd (body s)))"
    using Suc.prems by (intro Suc.IH) (metis rounds.simps(2) Suc_less_eq)
  finally show ?case by simp
qed simp


text \<open>A loop returns exactly when some round ends it, with the result of that round.\<close>

definition ends_at :: "('s \<Rightarrow> 'a attempt \<times> 's) \<Rightarrow> 's \<Rightarrow> nat \<Rightarrow> 'a result \<Rightarrow> 's \<Rightarrow> bool" where
  "ends_at body s n r t \<longleftrightarrow>
     (\<forall>m < n. fst (body (rounds body m s)) = Again) \<and> body (rounds body n s) = (Done r, t)"

lemma retry_sound:
  assumes "retry body s = Some rt"
  shows "\<exists>n. ends_at body s n (fst rt) (snd rt)"
  using assms
proof (induction rule: retry.raw_induct [rotated, consumes 1, case_names step])
  case (step loop body s rt)
  show ?case
  proof (cases "body s")
    case (Pair a s')
    show ?thesis
    proof (cases a)
      case (Done r)
      with step(2) Pair have "ends_at body s 0 (fst rt) (snd rt)" by (auto simp: ends_at_def)
      then show ?thesis ..
    next
      case Again
      with step(2) Pair have "loop body s' = Some rt" by simp
      from step(1) [OF this] obtain n where n: "ends_at body s' n (fst rt) (snd rt)" ..
      then have "ends_at body s (Suc n) (fst rt) (snd rt)"
        using Pair Again by (simp add: ends_at_def All_less_Suc2)
      then show ?thesis ..
    qed
  qed
qed

lemma retry_iff: "retry body s = Some (r, t) \<longleftrightarrow> (\<exists>n. ends_at body s n r t)"
proof
  show "retry body s = Some (r, t) \<Longrightarrow> \<exists>n. ends_at body s n r t" using retry_sound [of body s "(r, t)"] by simp
  show "\<exists>n. ends_at body s n r t \<Longrightarrow> retry body s = Some (r, t)"
    using retry_rounds [of _ body s] by (auto simp: ends_at_def retry_Done)
qed

lemma retry_returns_iff: "retry body s \<noteq> None \<longleftrightarrow> (\<exists>n. fst (body (rounds body n s)) \<noteq> Again)"
proof
  assume "retry body s \<noteq> None"
  then obtain n r t where "ends_at body s n r t" by (auto dest: retry_sound)
  then have "fst (body (rounds body n s)) \<noteq> Again" by (simp add: ends_at_def)
  then show "\<exists>n. fst (body (rounds body n s)) \<noteq> Again" ..
next
  assume ex: "\<exists>n. fst (body (rounds body n s)) \<noteq> Again"
  define n where "n = (LEAST n. fst (body (rounds body n s)) \<noteq> Again)"
  have n: "fst (body (rounds body n s)) \<noteq> Again" "\<forall>m < n. fst (body (rounds body m s)) = Again"
    using LeastI_ex [OF ex] not_less_Least unfolding n_def by blast+
  then obtain r where "fst (body (rounds body n s)) = Done r" by (cases "fst (body (rounds body n s))") auto
  then have "ends_at body s n r (snd (body (rounds body n s)))"
    using n(2) by (simp add: ends_at_def prod_eq_iff)
  then show "retry body s \<noteq> None" using retry_iff by fastforce
qed

lemma retry_result: "retry body s = Some (r, t) \<Longrightarrow> (\<And>s. body s = (Done r, t) \<Longrightarrow> P) \<Longrightarrow> P"
  by (auto simp: retry_iff ends_at_def)

end
