(* ===== verification/Syscall_Layer.thy ===== *)
theory Syscall_Layer
  imports Kernel
begin

text \<open>
  The raw bindings of \<^verbatim>\<open>src/seccompy/_syscall.py\<close>: syscall numbers, ctypes structures and
  their layout, and the calls into libc with their retry loops and error mapping.
\<close>

section \<open>Constants\<close>

definition PR_SET_NO_NEW_PRIVS :: int where [const_defs]: "PR_SET_NO_NEW_PRIVS = 38"
definition SECCOMP_SET_MODE_FILTER :: int where [const_defs]: "SECCOMP_SET_MODE_FILTER = 1"
definition SECCOMP_GET_ACTION_AVAIL :: int where [const_defs]: "SECCOMP_GET_ACTION_AVAIL = 2"
definition SECCOMP_GET_NOTIF_SIZES :: int where [const_defs]: "SECCOMP_GET_NOTIF_SIZES = 3"

definition SYS_SECCOMP :: "(string \<times> int) list" where
  "SYS_SECCOMP = [(''x86_64'', 317), (''amd64'', 317), (''aarch64'', 277), (''arm64'', 277)]"

definition SYS_PIDFD :: "(string \<times> (int \<times> int)) list" where
  "SYS_PIDFD = [(''x86_64'', (434, 438)), (''amd64'', (434, 438)),
                (''aarch64'', (434, 438)), (''arm64'', (434, 438))]"

section \<open>ctypes structures\<close>

text \<open>Field types with their native size and alignment (LP64), and structures of named fields.\<close>

datatype ctype =
    C_ushort | C_uint16 | C_int32 | C_uint32 | C_int64 | C_uint64 | C_void_p
  | C_array ctype nat
  | C_struct "(string \<times> ctype) list"

definition align_up :: "nat \<Rightarrow> nat \<Rightarrow> nat" where
  "align_up off a = (off + a - 1) div a * a"

fun ct_align :: "ctype \<Rightarrow> nat" and fields_align :: "(string \<times> ctype) list \<Rightarrow> nat" where
  "ct_align C_ushort = 2"
| "ct_align C_uint16 = 2"
| "ct_align C_int32 = 4"
| "ct_align C_uint32 = 4"
| "ct_align C_int64 = 8"
| "ct_align C_uint64 = 8"
| "ct_align C_void_p = 8"
| "ct_align (C_array t n) = ct_align t"
| "ct_align (C_struct fs) = fields_align fs"
| "fields_align [] = 1"
| "fields_align ((name, t) # fs) = max (ct_align t) (fields_align fs)"

fun ct_sizeof :: "ctype \<Rightarrow> nat" and fields_end :: "nat \<Rightarrow> (string \<times> ctype) list \<Rightarrow> nat" where
  "ct_sizeof C_ushort = 2"
| "ct_sizeof C_uint16 = 2"
| "ct_sizeof C_int32 = 4"
| "ct_sizeof C_uint32 = 4"
| "ct_sizeof C_int64 = 8"
| "ct_sizeof C_uint64 = 8"
| "ct_sizeof C_void_p = 8"
| "ct_sizeof (C_array t n) = n * ct_sizeof t"
| "ct_sizeof (C_struct fs) = align_up (fields_end 0 fs) (fields_align fs)"
| "fields_end off [] = off"
| "fields_end off ((name, t) # fs) = fields_end (align_up off (ct_align t) + ct_sizeof t) fs"

text \<open>A field of a structure with its offset and type, and a field of a nested structure.\<close>

fun find_field :: "nat \<Rightarrow> (string \<times> ctype) list \<Rightarrow> string \<Rightarrow> (nat \<times> ctype) option" where
  "find_field off [] name = None"
| "find_field off ((n, t) # fs) name =
     (let o1 = align_up off (ct_align t)
      in if n = name then Some (o1, t) else find_field (o1 + ct_sizeof t) fs name)"

fun find_path :: "(string \<times> ctype) list \<Rightarrow> string list \<Rightarrow> (nat \<times> ctype) option" where
  "find_path fs [] = None"
| "find_path fs [name] = find_field 0 fs name"
| "find_path fs (name # path) =
     (case find_field 0 fs name of
        Some (off, C_struct gs) \<Rightarrow> map_option (\<lambda>(o1, t). (off + o1, t)) (find_path gs path)
      | _ \<Rightarrow> None)"

text \<open>
  Reading fields, as attribute access on a ctypes structure does: a little-endian number of the size of
  the type, with its sign, or an array of them.
\<close>

fun ct_signed :: "ctype \<Rightarrow> bool" where
  "ct_signed C_int32 = True"
| "ct_signed C_int64 = True"
| "ct_signed _ = False"

definition ct_read :: "ctype \<Rightarrow> bytes \<Rightarrow> int" where
  "ct_read t b =
     (let n = ct_sizeof t; u = le_int (take n b)
      in if ct_signed t then signed_take_bit (8 * n - 1) u else u)"

definition get_int :: "(string \<times> ctype) list \<Rightarrow> string list \<Rightarrow> bytes \<Rightarrow> int" where
  "get_int fs path b = (case find_path fs path of Some (off, t) \<Rightarrow> ct_read t (drop off b) | None \<Rightarrow> 0)"

definition get_array :: "(string \<times> ctype) list \<Rightarrow> string list \<Rightarrow> bytes \<Rightarrow> int list" where
  "get_array fs path b =
     (case find_path fs path of
        Some (off, C_array t n) \<Rightarrow> map (\<lambda>i. ct_read t (drop (off + i * ct_sizeof t) b)) [0 ..< n]
      | _ \<Rightarrow> [])"

text \<open>
  Building a structure from keyword arguments: every field at its offset, holding the low bits of its
  value or zero if it is not given, with zero padding.
\<close>

fun struct_image :: "nat \<Rightarrow> (string \<times> ctype) list \<Rightarrow> (string \<times> int) list \<Rightarrow> bytes" where
  "struct_image off [] kw = []"
| "struct_image off ((n, t) # fs) kw =
     (let o1 = align_up off (ct_align t)
      in replicate (o1 - off) 0 @
         le_bytes (ct_sizeof t) (case map_of kw n of Some v \<Rightarrow> v | None \<Rightarrow> 0) @
         struct_image (o1 + ct_sizeof t) fs kw)"

definition struct_bytes :: "(string \<times> ctype) list \<Rightarrow> (string \<times> int) list \<Rightarrow> bytes" where
  "struct_bytes fs kw =
     struct_image 0 fs kw @ replicate (ct_sizeof (C_struct fs) - fields_end 0 fs) 0"

text \<open>The same with fields that hold the address of a buffer.\<close>

datatype cval = VInt int | VAddr bytes

fun struct_cells :: "nat \<Rightarrow> (string \<times> ctype) list \<Rightarrow> (string \<times> cval) list \<Rightarrow> (nat \<times> kcell) list" where
  "struct_cells off [] kw = []"
| "struct_cells off ((n, t) # fs) kw =
     (let o1 = align_up off (ct_align t); sz = ct_sizeof t
      in (o1, case map_of kw n of
                Some (VInt v) \<Rightarrow> Cell (le_bytes sz v)
              | Some (VAddr b) \<Rightarrow> Ptr sz b
              | None \<Rightarrow> Cell (le_bytes sz 0)) # struct_cells (o1 + sz) fs kw)"

definition SockFprog :: "(string \<times> ctype) list" where
  "SockFprog = [(''len'', C_ushort), (''filter'', C_void_p)]"

definition SeccompData :: "(string \<times> ctype) list" where
  "SeccompData = [(''nr'', C_int32), (''arch'', C_uint32), (''instruction_pointer'', C_uint64),
                  (''args'', C_array C_uint64 6)]"

definition SeccompNotif :: "(string \<times> ctype) list" where
  "SeccompNotif = [(''id'', C_uint64), (''pid'', C_uint32), (''flags'', C_uint32),
                   (''data'', C_struct SeccompData)]"

definition SeccompNotifResp :: "(string \<times> ctype) list" where
  "SeccompNotifResp = [(''id'', C_uint64), (''val'', C_int64), (''error'', C_int32), (''flags'', C_uint32)]"

definition SeccompNotifAddfd :: "(string \<times> ctype) list" where
  "SeccompNotifAddfd = [(''id'', C_uint64), (''flags'', C_uint32), (''srcfd'', C_uint32),
                        (''newfd'', C_uint32), (''newfd_flags'', C_uint32)]"

definition SeccompNotifSizes :: "(string \<times> ctype) list" where
  "SeccompNotifSizes = [(''seccomp_notif'', C_uint16), (''seccomp_notif_resp'', C_uint16),
                        (''seccomp_data'', C_uint16)]"

lemmas struct_defs = SockFprog_def SeccompData_def SeccompNotif_def SeccompNotifResp_def
  SeccompNotifAddfd_def SeccompNotifSizes_def

section \<open>Calling libc\<close>

text \<open>A Python-level argument of a foreign function.\<close>

datatype carg =
    AInt int | ANone | ABuf bytes | AStruct "(string \<times> ctype) list" "(string \<times> cval) list"

text \<open>
  Conversion without declared argument types: an int that fits a C long (signed or
  unsigned) is passed as a C int, a larger one raises.
\<close>

fun conv_arg :: "carg \<Rightarrow> karg result" where
  "conv_arg (AInt i) = (if - (2 ^ 63) \<le> i \<and> i < 2 ^ 64 then Inr (KInt (word_of_int i)) else Inl ArgumentError)"
| "conv_arg ANone = Inr KNull"
| "conv_arg (ABuf b) = Inr (KBuf b)"
| "conv_arg (AStruct fs kw) = Inr (KRef (struct_cells 0 fs kw))"

fun conv_args :: "carg list \<Rightarrow> karg list result" where
  "conv_args [] = Inr []"
| "conv_args (a # as) = bindE (conv_arg a) (\<lambda>k. bindE (conv_args as) (\<lambda>ks. Inr (k # ks)))"

definition get_libc :: "'w env \<Rightarrow> 'w sys \<Rightarrow> unit result \<times> 'w sys" where
  "get_libc env s =
     (if s_libc s then (Inr (), s)
      else if e_platform env \<noteq> ''linux'' then (Inl (UnsupportedError None), s)
      else (Inr (), s\<lparr>s_libc := True\<rparr>))"

definition arch_nr :: "'w env \<Rightarrow> (string \<times> int) list \<Rightarrow> int result" where
  "arch_nr env table =
     (case map_of table (py_lower (e_machine env)) of
        None \<Rightarrow> Inl (UnsupportedError None)
      | Some nr \<Rightarrow> Inr nr)"

definition seccomp_nr :: "'w env \<Rightarrow> int result" where
  "seccomp_nr env = arch_nr env SYS_SECCOMP"

definition pidfd_nr :: "'w env \<Rightarrow> (int \<times> int) result" where
  "pidfd_nr env =
     (case map_of SYS_PIDFD (py_lower (e_machine env)) of
        None \<Rightarrow> Inl (UnsupportedError None)
      | Some p \<Rightarrow> Inr p)"

text \<open>One call of a libc function: load the library, convert the arguments, ask the kernel.\<close>

definition libc_call ::
    "'w env \<Rightarrow> (karg list \<Rightarrow> request) \<Rightarrow> carg list \<Rightarrow> 'w sys \<Rightarrow> reply result \<times> 'w sys" where
  "libc_call env req args s =
     (case get_libc env s of
        (Inl e, s') \<Rightarrow> (Inl e, s')
      | (Inr _, s') \<Rightarrow>
          (case conv_args args of
             Inl e \<Rightarrow> (Inl e, s')
           | Inr ks \<Rightarrow>
               (case e_kernel env (req ks) (s_os s') of
                  (rep, w) \<Rightarrow> (Inr rep, s'\<lparr>s_os := w\<rparr>))))"

definition errno_exc :: "int \<Rightarrow> py_error" where
  "errno_exc err =
     (if err = ENOSYS \<or> err = EOPNOTSUPP then UnsupportedError (Some err) else SeccompError err)"

text \<open>The loop bodies of \<^verbatim>\<open>_call\<close>, \<^verbatim>\<open>set_no_new_privs\<close> and \<^verbatim>\<open>ioctl\<close>.\<close>

definition call_body :: "'w env \<Rightarrow> carg list \<Rightarrow> 'w sys \<Rightarrow> reply attempt \<times> 'w sys" where
  "call_body env args s =
     (case libc_call env ReqSyscall args s of
        (Inl e, s') \<Rightarrow> (Done (Inl e), s')
      | (Inr rep, s') \<Rightarrow>
          if rp_ret rep \<noteq> -1 then (Done (Inr rep), s')
          else if rp_errno rep = EINTR then (Again, s')
          else (Done (Inl (errno_exc (rp_errno rep))), s'))"

definition call :: "'w env \<Rightarrow> carg list \<Rightarrow> ('w sys, reply) act" where
  "call env args = retry (call_body env args)"

definition no_new_privs_body :: "'w env \<Rightarrow> 'w sys \<Rightarrow> unit attempt \<times> 'w sys" where
  "no_new_privs_body env s =
     (case libc_call env ReqPrctl (map AInt [PR_SET_NO_NEW_PRIVS, 1, 0, 0, 0]) s of
        (Inl e, s') \<Rightarrow> (Done (Inl e), s')
      | (Inr rep, s') \<Rightarrow>
          if rp_ret rep \<noteq> -1 then (Done (Inr ()), s')
          else if rp_errno rep \<noteq> EINTR then (Done (Inl (SeccompError (rp_errno rep))), s')
          else (Again, s'))"

definition set_no_new_privs :: "'w env \<Rightarrow> ('w sys, unit) act" where
  "set_no_new_privs env = retry (no_new_privs_body env)"

definition ioctl_body :: "'w env \<Rightarrow> int \<Rightarrow> int \<Rightarrow> bytes \<Rightarrow> 'w sys \<Rightarrow> reply attempt \<times> 'w sys" where
  "ioctl_body env fd req arg s =
     (case libc_call env ReqIoctl [AInt fd, AInt req, ABuf arg] s of
        (Inl e, s') \<Rightarrow> (Done (Inl e), s')
      | (Inr rep, s') \<Rightarrow>
          if rp_ret rep \<noteq> -1 then (Done (Inr rep), s')
          else if rp_errno rep = EINTR then (Again, s')
          else (Done (Inl (errno_exc (rp_errno rep))), s'))"

definition ioctl :: "'w env \<Rightarrow> int \<Rightarrow> int \<Rightarrow> bytes \<Rightarrow> ('w sys, reply) act" where
  "ioctl env fd req arg = retry (ioctl_body env fd req arg)"

definition seccomp :: "'w env \<Rightarrow> int \<Rightarrow> int \<Rightarrow> carg \<Rightarrow> ('w sys, reply) act" where
  "seccomp env op flags uargs =
     bindA (liftA (seccomp_nr env)) (\<lambda>nr. call env [AInt nr, AInt op, AInt flags, uargs])"

section \<open>Operations\<close>

definition action_avail :: "'w env \<Rightarrow> int \<Rightarrow> ('w sys, int) act" where
  "action_avail env act =
     bindA (seccomp env SECCOMP_GET_ACTION_AVAIL 0 (ABuf (le_bytes 4 act))) (\<lambda>rep. retA (rp_ret rep))"

definition probe_flag :: "'w env \<Rightarrow> int \<Rightarrow> ('w sys, bool) act" where
  "probe_flag env flag =
     catchA (bindA (seccomp env SECCOMP_SET_MODE_FILTER flag ANone) (\<lambda>_. retA True))
       (\<lambda>e. if is_UnsupportedError e then raiseA e
            else if is_SeccompError e then
              if exc_errno e = Some EINVAL then retA False
              else if exc_errno e = Some EFAULT \<or> exc_errno e = Some EACCES then retA True
              else raiseA e
            else raiseA e)"

definition set_mode_filter :: "'w env \<Rightarrow> bytes \<Rightarrow> int \<Rightarrow> ('w sys, int) act" where
  "set_mode_filter env prog flags =
     (if length prog mod 8 \<noteq> 0 \<or> prog = [] then
        raiseA (ValueError ''program must be a non-empty multiple of 8 bytes'')
      else if length prog div 8 > 4096 then
        raiseA (ValueError ''program exceeds the kernel limit of 4096 instructions'')
      else
        bindA (seccomp env SECCOMP_SET_MODE_FILTER flags 
          (AStruct SockFprog [(''len'', VInt (int (length prog div 8))), (''filter'', VAddr prog)]))
          (\<lambda>rep. retA (rp_ret rep)))"

text \<open>Returns the memory of the struct seccomp_notif_sizes the kernel filled in.\<close>

definition notif_sizes :: "'w env \<Rightarrow> ('w sys, bytes) act" where
  "notif_sizes env =
     bindA (seccomp env SECCOMP_GET_NOTIF_SIZES 0 (ABuf (replicate (ct_sizeof (C_struct SeccompNotifSizes)) 0)))
       (\<lambda>rep. retA (rp_out rep))"

definition pidfd_open :: "'w env \<Rightarrow> pyval \<Rightarrow> int \<Rightarrow> ('w sys, int) act" where
  "pidfd_open env pid flags =
     (case pid of
        PyInt p \<Rightarrow>
          if 0 \<le> p \<and> p \<le> 0x7FFFFFFF then
            bindA (liftA (pidfd_nr env)) (\<lambda>nrs.
            bindA (call env [AInt (fst nrs), AInt p, AInt flags]) (\<lambda>rep. retA (rp_ret rep)))
          else raiseA (ValueError ''pid out of range'')
      | _ \<Rightarrow> raiseA (ValueError ''pid out of range''))"

definition pidfd_getfd :: "'w env \<Rightarrow> int \<Rightarrow> int \<Rightarrow> int \<Rightarrow> ('w sys, int) act" where
  "pidfd_getfd env pidfd fd flags =
     bindA (liftA (pidfd_nr env)) (\<lambda>nrs.
     bindA (call env [AInt (snd nrs), AInt pidfd, AInt fd, AInt flags]) (\<lambda>rep. retA (rp_ret rep)))"

section \<open>The shared contract of the three loops\<close>

definition linux :: "'w env \<Rightarrow> 'w sys \<Rightarrow> bool" where
  "linux env s \<longleftrightarrow> s_libc s \<or> e_platform env = ''linux''"

definition interrupted :: "reply \<Rightarrow> bool" where
  "interrupted rep \<longleftrightarrow> rp_ret rep = -1 \<and> rp_errno rep = EINTR"

text \<open>The world after a request has been made \<open>n\<close> times, and the answer to the next one.\<close>

fun asked :: "'w env \<Rightarrow> request \<Rightarrow> nat \<Rightarrow> 'w \<Rightarrow> 'w" where
  "asked env r 0 w = w"
| "asked env r (Suc n) w = asked env r n (snd (e_kernel env r w))"

definition answer :: "'w env \<Rightarrow> request \<Rightarrow> nat \<Rightarrow> 'w \<Rightarrow> reply" where
  "answer env r n w = fst (e_kernel env r (asked env r n w))"

lemma asked_Suc: "asked env r (Suc n) w = snd (e_kernel env r (asked env r n w))"
  by (induction n arbitrary: w) simp_all

lemma get_libc_linux: "linux env s \<Longrightarrow> get_libc env s = (Inr (), s\<lparr>s_libc := True\<rparr>)"
  by (auto simp: linux_def get_libc_def)

lemma libc_call_linux:
  "linux env s \<Longrightarrow> conv_args args = Inr ks \<Longrightarrow>
   libc_call env req args s =
     (Inr (fst (e_kernel env (req ks) (s_os s))),
      s\<lparr>s_libc := True, s_os := snd (e_kernel env (req ks) (s_os s))\<rparr>)"
  by (simp add: libc_call_def get_libc_linux split: prod.splits)

lemma libc_call_unavailable:
  assumes "\<not> (linux env s \<and> (\<exists>ks. conv_args args = Inr ks))"
  obtains e u where "libc_call env req args s = (Inl e, u)" and "s_os u = s_os s"
proof (cases "linux env s")
  case True
  with assms obtain e where "conv_args args = Inl e" by (cases "conv_args args") auto
  with True that show thesis by (simp add: libc_call_def get_libc_linux)
next
  case False
  with that show thesis by (simp add: libc_call_def get_libc_def linux_def)
qed

locale libc_loop =
  fixes env :: "'w env" and body :: "'w sys \<Rightarrow> 'a attempt \<times> 'w sys"
    and req :: "karg list \<Rightarrow> request" and args :: "carg list"
    and ok :: "reply \<Rightarrow> 'a" and exc :: "int \<Rightarrow> py_error"
  assumes body_call: "body s =
     (case libc_call env req args s of
        (Inl e, s') \<Rightarrow> (Done (Inl e), s')
      | (Inr rep, s') \<Rightarrow>
          if rp_ret rep \<noteq> -1 then (Done (Inr (ok rep)), s')
          else if rp_errno rep = EINTR then (Again, s')
          else (Done (Inl (exc (rp_errno rep))), s'))"
begin

definition outcome :: "reply \<Rightarrow> 'a result" where
  "outcome rep = (if rp_ret rep \<noteq> -1 then Inr (ok rep) else Inl (exc (rp_errno rep)))"

lemma body_linux:
  assumes "linux env s" and "conv_args args = Inr ks"
  shows "body s =
    (if interrupted (answer env (req ks) 0 (s_os s)) then Again else Done (outcome (answer env (req ks) 0 (s_os s))),
     s\<lparr>s_libc := True, s_os := asked env (req ks) 1 (s_os s)\<rparr>)"
  by (auto simp: body_call libc_call_linux [OF assms] interrupted_def outcome_def answer_def)

lemma rounds_linux:
  assumes "conv_args args = Inr ks" and "linux env s"
  shows "rounds body (Suc n) s = s\<lparr>s_libc := True, s_os := asked env (req ks) (Suc n) (s_os s)\<rparr>"
  using assms(2)
proof (induction n arbitrary: s)
  case 0
  then show ?case by (simp add: body_linux [OF 0 assms(1)])
next
  case (Suc n)
  have "rounds body (Suc (Suc n)) s = rounds body (Suc n) (snd (body s))" by simp
  also have "snd (body s) = s\<lparr>s_libc := True, s_os := asked env (req ks) 1 (s_os s)\<rparr>"
    by (simp add: body_linux [OF Suc.prems assms(1)])
  also have "rounds body (Suc n) \<dots> = s\<lparr>s_libc := True, s_os := asked env (req ks) (Suc (Suc n)) (s_os s)\<rparr>"
    by (subst Suc.IH) (simp_all add: linux_def)
  finally show ?case .
qed

lemma rounds_os:
  assumes "conv_args args = Inr ks" and "linux env s"
  shows "linux env (rounds body n s)" and "s_os (rounds body n s) = asked env (req ks) n (s_os s)"
proof -
  have "linux env (rounds body n s) \<and> s_os (rounds body n s) = asked env (req ks) n (s_os s)"
  proof (cases n)
    case (Suc m)
    have "rounds body n s = s\<lparr>s_libc := True, s_os := asked env (req ks) n (s_os s)\<rparr>"
      unfolding Suc by (rule rounds_linux [OF assms])
    then show ?thesis by (simp add: linux_def)
  qed (use assms in simp)
  then show "linux env (rounds body n s)" and "s_os (rounds body n s) = asked env (req ks) n (s_os s)"
    by simp_all
qed

lemma body_rounds:
  assumes "conv_args args = Inr ks" and "linux env s"
  shows "body (rounds body n s) =
    (if interrupted (answer env (req ks) n (s_os s)) then Again else Done (outcome (answer env (req ks) n (s_os s))),
     s\<lparr>s_libc := True, s_os := asked env (req ks) (Suc n) (s_os s)\<rparr>)"
proof -
  have "snd (body (rounds body n s)) = rounds body (Suc n) s" for s
    by (induction n arbitrary: s) simp_all
  then show ?thesis
    using body_linux [OF rounds_os(1) [OF assms] assms(1), of n] rounds_os(2) [OF assms, of n]
      rounds_linux [OF assms, of n] by (simp add: answer_def prod_eq_iff)
qed

lemma first_answer:
  assumes "conv_args args = Inr ks" and "linux env s"
    and "\<forall>m < n. interrupted (answer env (req ks) m (s_os s))"
    and "\<not> interrupted (answer env (req ks) n (s_os s))"
  shows "retry body s = Some (outcome (answer env (req ks) n (s_os s)),
    s\<lparr>s_libc := True, s_os := asked env (req ks) (Suc n) (s_os s)\<rparr>)"
  unfolding retry_iff ends_at_def body_rounds [OF assms(1,2)]
  using assms(3,4) by (intro exI [of _ n]) simp

lemma returns_iff:
  assumes "conv_args args = Inr ks" and "linux env s"
  shows "retry body s \<noteq> None \<longleftrightarrow> (\<exists>n. \<not> interrupted (answer env (req ks) n (s_os s)))"
  unfolding retry_returns_iff body_rounds [OF assms] by simp

text \<open>Whatever the result, the world has only seen one request, some number of times.\<close>

lemma asked_only:
  assumes "retry body s = Some (r, t)"
  shows "\<exists>ks n. s_os t = asked env (req ks) n (s_os s) \<and> (0 < n \<longrightarrow> conv_args args = Inr ks)"
proof -
  obtain m where m: "ends_at body s m r t" using assms retry_iff by metis
  show ?thesis
  proof (cases "linux env s \<and> (\<exists>ks. conv_args args = Inr ks)")
    case True
    then obtain ks where ks: "conv_args args = Inr ks" by blast
    then have "body (rounds body m s) = (fst (body (rounds body m s)),
        s\<lparr>s_libc := True, s_os := asked env (req ks) (Suc m) (s_os s)\<rparr>)"
      using True by (simp add: body_rounds)
    then have "s_os t = asked env (req ks) (Suc m) (s_os s)" using m by (auto simp: ends_at_def)
    with ks show ?thesis by blast
  next
    case False
    then obtain e u where "libc_call env req args s = (Inl e, u)" and os: "s_os u = s_os s"
      using libc_call_unavailable by blast
    then have body: "body s = (Done (Inl e), u)" by (simp add: body_call)
    then have "m = 0" using m by (cases m) (auto simp: ends_at_def dest: spec [of _ 0])
    then have "s_os t = asked env (req []) 0 (s_os s)" using m body os by (simp add: ends_at_def)
    then show ?thesis by blast
  qed
qed

text \<open>A value comes from the first answer that is not an interruption.\<close>

lemma success_answer:
  assumes "retry body s = Some (Inr x, t)"
  obtains ks n where "conv_args args = Inr ks" and "linux env s"
    and "\<forall>m < n. interrupted (answer env (req ks) m (s_os s))"
    and "rp_ret (answer env (req ks) n (s_os s)) \<noteq> -1" and "x = ok (answer env (req ks) n (s_os s))"
    and "t = s\<lparr>s_libc := True, s_os := asked env (req ks) (Suc n) (s_os s)\<rparr>"
proof (cases "linux env s \<and> (\<exists>ks. conv_args args = Inr ks)")
  case True
  then obtain ks where ks: "conv_args args = Inr ks" by blast
  from assms obtain n where "ends_at body s n (Inr x) t" using retry_iff by metis
  then have "\<forall>m < n. interrupted (answer env (req ks) m (s_os s))"
    and "outcome (answer env (req ks) n (s_os s)) = Inr x"
    and "t = s\<lparr>s_libc := True, s_os := asked env (req ks) (Suc n) (s_os s)\<rparr>"
    unfolding ends_at_def body_rounds [OF ks conjunct1 [OF True]] by (auto split: if_splits)
  with True ks that show thesis by (auto simp: outcome_def split: if_splits)
next
  case False
  then obtain e u where "libc_call env req args s = (Inl e, u)" by (rule libc_call_unavailable)
  then have "retry body s = Some (Inl e, u)" by (intro retry_Done) (simp add: body_call)
  with assms show thesis by simp
qed

lemma result_cases:
  assumes "retry body s = Some (r, t)"
  obtains (unavailable) e where "r = Inl e" and "e = UnsupportedError None \<or> e = ArgumentError"
  | (returned) rep where "r = Inr (ok rep)" and "rp_ret rep \<noteq> -1"
  | (failed) err where "r = Inl (exc err)" and "err \<noteq> EINTR"
proof -
  from assms obtain u where u: "body u = (Done r, t)" by (rule retry_result)
  have conv: "conv_args as = Inl e \<Longrightarrow> e = ArgumentError" for as e
  proof (induction as)
    case (Cons a as)
    then show ?case by (cases a) (auto simp: bindE_eq_Inl split: if_splits)
  qed simp
  have "libc_call env req args u = (Inl e, v) \<Longrightarrow> e = UnsupportedError None \<or> e = ArgumentError" for e v
    by (auto simp: libc_call_def get_libc_def conv split: sum.splits if_splits prod.splits)
  with u that show thesis
    by (auto simp: body_call split: prod.splits sum.splits if_splits)
qed

end

interpretation call_loop: libc_loop env "call_body env args" ReqSyscall args "\<lambda>rep. rep" errno_exc
  for env :: "'w env" and args
  by unfold_locales (simp add: call_body_def)

interpretation ioctl_loop:
  libc_loop env "ioctl_body env fd r arg" ReqIoctl "[AInt fd, AInt r, ABuf arg]" "\<lambda>rep. rep" errno_exc
  for env :: "'w env" and fd r arg
  by unfold_locales (simp add: ioctl_body_def)

interpretation prctl_loop:
  libc_loop env "no_new_privs_body env" ReqPrctl "map AInt [PR_SET_NO_NEW_PRIVS, 1, 0, 0, 0]" "\<lambda>rep. ()" SeccompError
  for env :: "'w env"
proof unfold_locales
  show "no_new_privs_body env s =
    (case libc_call env ReqPrctl (map AInt [PR_SET_NO_NEW_PRIVS, 1, 0, 0, 0]) s of
      (Inl e, s') \<Rightarrow> (Done (Inl e), s')
    | (Inr rep, s') \<Rightarrow>
        if rp_ret rep \<noteq> - 1 then (Done (Inr ()), s')
        else if rp_errno rep = EINTR then (Again, s') else (Done (Inl (SeccompError (rp_errno rep))), s'))" for s
    unfolding no_new_privs_body_def by (simp split: prod.split sum.split)
qed

section \<open>Answers\<close>

text \<open>The answer to the first uninterrupted attempt decides the result of a call.\<close>

definition ioctl_req :: "int \<Rightarrow> int \<Rightarrow> bytes \<Rightarrow> request" where
  "ioctl_req fd r b = ReqIoctl [KInt (word_of_int fd), KInt (word_of_int r), KBuf b]"

definition fd_ok :: "int \<Rightarrow> bool" where
  "fd_ok fd \<longleftrightarrow> 0 \<le> fd \<and> fd < 2 ^ 31"

definition reply_result :: "reply \<Rightarrow> reply result" where
  "reply_result rep = (if rp_ret rep \<noteq> -1 then Inr rep else Inl (errno_exc (rp_errno rep)))"

definition answered :: "'w env \<Rightarrow> request \<Rightarrow> 'w sys \<Rightarrow> nat \<Rightarrow> bool" where
  "answered env r s n \<longleftrightarrow> (\<forall>m < n. interrupted (answer env r m (s_os s))) \<and> \<not> interrupted (answer env r n (s_os s))"

definition after_asking :: "'w env \<Rightarrow> request \<Rightarrow> nat \<Rightarrow> 'w sys \<Rightarrow> 'w sys" where
  "after_asking env r n s = s\<lparr>s_libc := True, s_os := asked env r n (s_os s)\<rparr>"

lemma conv_ioctl:
  "fd_ok fd \<Longrightarrow> 0 \<le> r \<Longrightarrow> r < 2 ^ 32 \<Longrightarrow>
   conv_args [AInt fd, AInt r, ABuf b] = Inr [KInt (word_of_int fd), KInt (word_of_int r), KBuf b]"
  by (simp add: fd_ok_def)

lemma ioctl_answer:
  assumes "linux env s" and "fd_ok fd" and "0 \<le> r" and "r < 2 ^ 32"
    and "answered env (ioctl_req fd r b) s n"
  shows "ioctl env fd r b s =
    Some (reply_result (answer env (ioctl_req fd r b) n (s_os s)), after_asking env (ioctl_req fd r b) (Suc n) s)"
  using ioctl_loop.first_answer [OF conv_ioctl [OF assms(2-4)] assms(1), of n b] assms(5)
  by (simp add: ioctl_def answered_def ioctl_req_def ioctl_loop.outcome_def reply_result_def after_asking_def)

lemma ioctl_requests:
  assumes "ioctl env fd r b s = Some (res, t)"
  shows "\<exists>n. s_os t = asked env (ioctl_req fd r b) n (s_os s)"
proof -
  obtain ks n where t: "s_os t = asked env (ReqIoctl ks) n (s_os s)"
    and n: "0 < n \<longrightarrow> conv_args [AInt fd, AInt r, ABuf b] = Inr ks"
    using ioctl_loop.asked_only assms unfolding ioctl_def by metis
  show ?thesis
  proof (cases "n = 0")
    case True
    with t have "s_os t = asked env (ioctl_req fd r b) 0 (s_os s)" by simp
    then show ?thesis ..
  next
    case False
    with n have "ks = [KInt (word_of_int fd), KInt (word_of_int r), KBuf b]" by (auto split: if_splits)
    with t show ?thesis by (auto simp: ioctl_req_def)
  qed
qed

lemma call_answer:
  assumes "linux env s" and "conv_args args = Inr ks" and "answered env (ReqSyscall ks) s n"
  shows "call env args s =
    Some (reply_result (answer env (ReqSyscall ks) n (s_os s)), after_asking env (ReqSyscall ks) (Suc n) s)"
  using call_loop.first_answer [OF assms(2,1), of n] assms(3)
  by (simp add: call_def answered_def call_loop.outcome_def reply_result_def after_asking_def)

definition prctl_req :: request where
  "prctl_req = ReqPrctl (map KInt [38, 1, 0, 0, 0])"

lemma no_new_privs_answer:
  assumes "linux env s" and "answered env prctl_req s n"
  shows "set_no_new_privs env s =
    Some (let rep = answer env prctl_req n (s_os s)
          in if rp_ret rep \<noteq> -1 then Inr () else Inl (SeccompError (rp_errno rep)),
          after_asking env prctl_req (Suc n) s)"
proof -
  have "conv_args (map AInt [PR_SET_NO_NEW_PRIVS, 1, 0, 0, 0]) = Inr (map KInt [38, 1, 0, 0, 0])"
    by (simp add: PR_SET_NO_NEW_PRIVS_def)
  from prctl_loop.first_answer [OF this assms(1), of n] assms(2) show ?thesis
    by (simp add: set_no_new_privs_def answered_def prctl_req_def prctl_loop.outcome_def after_asking_def Let_def)
qed

lemma no_new_privs_success:
  assumes "set_no_new_privs env s = Some (Inr (), t)"
  obtains n where "linux env s" and "answered env prctl_req s n" and "rp_ret (answer env prctl_req n (s_os s)) \<noteq> -1"
    and "t = after_asking env prctl_req (Suc n) s"
  using assms unfolding set_no_new_privs_def
proof (rule prctl_loop.success_answer)
  fix ks n
  assume "conv_args (map AInt [PR_SET_NO_NEW_PRIVS, 1, 0, 0, 0]) = Inr ks"
  then have "ReqPrctl ks = prctl_req" by (auto simp: PR_SET_NO_NEW_PRIVS_def prctl_req_def)
  moreover assume "linux env s" "\<forall>m < n. interrupted (answer env (ReqPrctl ks) m (s_os s))"
    "rp_ret (answer env (ReqPrctl ks) n (s_os s)) \<noteq> - 1"
    "t = s\<lparr>s_libc := True, s_os := asked env (ReqPrctl ks) (Suc n) (s_os s)\<rparr>"
  ultimately show thesis using that by (simp add: answered_def interrupted_def after_asking_def)
qed

lemma call_success:
  assumes "call env args s = Some (Inr rep, t)"
  obtains ks n where "conv_args args = Inr ks" and "linux env s" and "answered env (ReqSyscall ks) s n"
    and "rep = answer env (ReqSyscall ks) n (s_os s)" and "rp_ret rep \<noteq> -1"
    and "t = after_asking env (ReqSyscall ks) (Suc n) s"
  using assms unfolding call_def
  by (rule call_loop.success_answer) (use that in \<open>simp add: answered_def interrupted_def after_asking_def\<close>)

end
