(* ===== verification/Notify.thy ===== *)
theory Notify
  imports Syscall_Layer
begin

text \<open>
  The supervisor side of user notification, \<^verbatim>\<open>src/seccompy/notify.py\<close>: ioctl request numbers,
  the structures exchanged with the kernel as bytes, and the Listener with its checks.
\<close>

section \<open>Request numbers\<close>

definition IOC_WRITE :: int where [const_defs]: "IOC_WRITE = 1"
definition IOC_READ :: int where [const_defs]: "IOC_READ = 2"
definition IOC_MAGIC :: int where [const_defs]: "IOC_MAGIC = of_char CHR ''!''"

definition ioc :: "int \<Rightarrow> int \<Rightarrow> int \<Rightarrow> int" where
  "ioc direction nr sz = push_bit 30 direction OR push_bit 16 sz OR push_bit 8 IOC_MAGIC OR nr"

definition IOCTL_NOTIF_RECV :: int where
  "IOCTL_NOTIF_RECV = ioc (IOC_READ OR IOC_WRITE) 0 (int (ct_sizeof (C_struct SeccompNotif)))"

definition IOCTL_NOTIF_SEND :: int where
  "IOCTL_NOTIF_SEND = ioc (IOC_READ OR IOC_WRITE) 1 (int (ct_sizeof (C_struct SeccompNotifResp)))"

definition IOCTL_NOTIF_ID_VALID :: int where
  "IOCTL_NOTIF_ID_VALID = ioc IOC_WRITE 2 (int (ct_sizeof C_uint64))"

definition IOCTL_NOTIF_ADDFD :: int where
  "IOCTL_NOTIF_ADDFD = ioc IOC_WRITE 3 (int (ct_sizeof (C_struct SeccompNotifAddfd)))"

definition IOCTL_NOTIF_SET_FLAGS :: int where
  "IOCTL_NOTIF_SET_FLAGS = ioc IOC_WRITE 4 (int (ct_sizeof C_uint64))"

definition MAX_ERRNO :: int where [const_defs]: "MAX_ERRNO = 4095"
definition NOTIF_U64 :: int where [const_defs]: "NOTIF_U64 = 0xFFFFFFFFFFFFFFFF"
definition O_CLOEXEC :: int where [const_defs]: "O_CLOEXEC = 0x80000"

text \<open>Flag members.\<close>

datatype resp_flag = RespNone | CONTINUE
datatype addfd_flag = AddNone | SETFD | SEND
datatype fd_flag = FdNone | SYNC_WAKE_UP

fun resp_value :: "resp_flag \<Rightarrow> int" where
  "resp_value RespNone = 0" | "resp_value CONTINUE = 1"

fun addfd_value :: "addfd_flag \<Rightarrow> int" where
  "addfd_value AddNone = 0" | "addfd_value SETFD = 1" | "addfd_value SEND = 2"

fun fd_flag_value :: "fd_flag \<Rightarrow> int" where
  "fd_flag_value FdNone = 0" | "fd_flag_value SYNC_WAKE_UP = 1"

section \<open>Data\<close>

text \<open>A dataclass of three ints, compared field by field.\<close>

record notif_sizes_t =
  seccomp_notif :: int
  seccomp_notif_resp :: int
  seccomp_data :: int

record notification =
  n_id :: int
  n_pid :: int
  n_flags :: int
  n_nr :: int
  n_arch :: int
  n_instruction_pointer :: int
  n_args :: "int list"

definition EXPECTED_SIZES :: notif_sizes_t where
  "EXPECTED_SIZES = \<lparr>seccomp_notif = int (ct_sizeof (C_struct SeccompNotif)),
     seccomp_notif_resp = int (ct_sizeof (C_struct SeccompNotifResp)),
     seccomp_data = int (ct_sizeof (C_struct SeccompData))\<rparr>"

text \<open>The fields of a received structure, read at the places its ctypes declaration gives them.\<close>

definition decode_notif :: "bytes \<Rightarrow> notification" where
  "decode_notif b =
     \<lparr>n_id = get_int SeccompNotif [''id''] b,
      n_pid = get_int SeccompNotif [''pid''] b,
      n_flags = get_int SeccompNotif [''flags''] b,
      n_nr = get_int SeccompNotif [''data'', ''nr''] b,
      n_arch = get_int SeccompNotif [''data'', ''arch''] b,
      n_instruction_pointer = get_int SeccompNotif [''data'', ''instruction_pointer''] b,
      n_args = get_array SeccompNotif [''data'', ''args''] b\<rparr>"

text \<open>The structures sent to the kernel, built from keyword arguments.\<close>

definition resp_bytes :: "int \<Rightarrow> int \<Rightarrow> int \<Rightarrow> int \<Rightarrow> bytes" where
  "resp_bytes nid val error flags =
     struct_bytes SeccompNotifResp [(''id'', nid), (''val'', val), (''error'', error), (''flags'', flags)]"

definition addfd_bytes :: "int \<Rightarrow> int \<Rightarrow> int \<Rightarrow> int \<Rightarrow> int \<Rightarrow> bytes" where
  "addfd_bytes nid flags srcfd newfd newfd_flags =
     struct_bytes SeccompNotifAddfd
       [(''id'', nid), (''flags'', flags), (''srcfd'', srcfd), (''newfd'', newfd), (''newfd_flags'', newfd_flags)]"

section \<open>Checks\<close>

definition check_id :: "pyval \<Rightarrow> int result" where
  "check_id v = int_in 0 NOTIF_U64 v ''notification id out of range''"

text \<open>\<^verbatim>\<open>flags & member\<close> on an argument whose type has not been checked.\<close>

definition py_and :: "pyval \<Rightarrow> int \<Rightarrow> int result" where
  "py_and v m =
     (case v of PyInt i \<Rightarrow> Inr (i AND m) | _ \<Rightarrow> Inl (TypeError ''unsupported operand type(s) for &''))"

section \<open>Functions of the module\<close>

definition os_close :: "'w env \<Rightarrow> int \<Rightarrow> ('w sys, unit) act" where
  "os_close env fd =
     (\<lambda>s. case e_kernel env (ReqClose fd) (s_os s) of
            (rep, w) \<Rightarrow> Some (if rp_ret rep = -1 then Inl (OSError (Some (rp_errno rep))) else Inr (),
                              s\<lparr>s_os := w\<rparr>))"

definition os_set_inheritable :: "'w env \<Rightarrow> int \<Rightarrow> bool \<Rightarrow> ('w sys, unit) act" where
  "os_set_inheritable env fd b =
     (\<lambda>s. case e_kernel env (ReqSetInheritable fd b) (s_os s) of
            (rep, w) \<Rightarrow> Some (if rp_ret rep = -1 then Inl (OSError (Some (rp_errno rep))) else Inr (),
                              s\<lparr>s_os := w\<rparr>))"

definition sizes :: "'w env \<Rightarrow> ('w sys, notif_sizes_t) act" where
  "sizes env =
     bindA (notif_sizes env)
       (\<lambda>raw. retA \<lparr>seccomp_notif = get_int SeccompNotifSizes [''seccomp_notif''] raw,
                     seccomp_notif_resp = get_int SeccompNotifSizes [''seccomp_notif_resp''] raw,
                     seccomp_data = get_int SeccompNotifSizes [''seccomp_data''] raw\<rparr>)"

definition notify_pidfd_open :: "'w env \<Rightarrow> pyval \<Rightarrow> int \<Rightarrow> ('w sys, int) act" where
  "notify_pidfd_open env pid flags =
     bindA (pidfd_open env pid flags) (\<lambda>fd. bindA (os_set_inheritable env fd False) (\<lambda>_. retA fd))"

definition notify_pidfd_getfd :: "'w env \<Rightarrow> int \<Rightarrow> int \<Rightarrow> int \<Rightarrow> ('w sys, int) act" where
  "notify_pidfd_getfd env pidfd fd flags =
     bindA (pidfd_getfd env pidfd fd flags) (\<lambda>d. bindA (os_set_inheritable env d False) (\<lambda>_. retA d))"

section \<open>Listener\<close>

record listener =
  l_fd :: int
  l_closed :: bool

definition new_Listener :: "'w env \<Rightarrow> int \<Rightarrow> ('w sys, listener) act" where
  "new_Listener env fd =
     bindA (catchA (sizes env) (\<lambda>e. bindA (os_close env fd) (\<lambda>_. raiseA e))) (\<lambda>kernel.
       if kernel \<noteq> EXPECTED_SIZES then bindA (os_close env fd) (\<lambda>_. raiseA (UnsupportedError None))
       else bindA (os_set_inheritable env fd False) (\<lambda>_. retA \<lparr>l_fd = fd, l_closed = False\<rparr>))"

definition fileno :: "listener \<Rightarrow> int result" where
  "fileno l = (if l_closed l then Inl (ValueError ''listener is closed'') else Inr (l_fd l))"

definition listener_ioctl :: "'w env \<Rightarrow> listener \<Rightarrow> int \<Rightarrow> bytes \<Rightarrow> ('w sys, reply) act" where
  "listener_ioctl env l r arg =
     (if l_closed l then raiseA (RuntimeError ''listener is closed'') else ioctl env (l_fd l) r arg)"

definition recv :: "'w env \<Rightarrow> listener \<Rightarrow> ('w sys, notification) act" where
  "recv env l =
     bindA (listener_ioctl env l IOCTL_NOTIF_RECV (replicate (ct_sizeof (C_struct SeccompNotif)) 0))
       (\<lambda>rep. retA (decode_notif (rp_out rep)))"

text \<open>The checks of \<^verbatim>\<open>respond\<close> and the response it builds.\<close>

definition respond_args :: "pyval \<Rightarrow> pyval \<Rightarrow> pyval \<Rightarrow> pyval \<Rightarrow> bytes result" where
  "respond_args notif_id error val flags =
     bindE (check_id notif_id) (\<lambda>nid.
     bindE (int_in 0 MAX_ERRNO error ''errno out of range'') (\<lambda>e.
     bindE (int_in (- (2 ^ 63)) (2 ^ 63 - 1) val ''return value out of range'') (\<lambda>v.
     bindE (int_in 0 0xFFFFFFFF flags ''response flags out of range'') (\<lambda>fl.
       if fl AND resp_value CONTINUE \<noteq> 0 \<and> (e \<noteq> 0 \<or> v \<noteq> 0)
       then Inl (ValueError ''RespFlag.CONTINUE requires error and val to be 0'')
       else Inr (resp_bytes nid v (- e) fl)))))"

definition respond :: "'w env \<Rightarrow> listener \<Rightarrow> pyval \<Rightarrow> pyval \<Rightarrow> pyval \<Rightarrow> pyval \<Rightarrow> ('w sys, unit) act" where
  "respond env l notif_id error val flags =
     bindA (liftA (respond_args notif_id error val flags)) (\<lambda>resp.
     bindA (listener_ioctl env l IOCTL_NOTIF_SEND resp) (\<lambda>_. retA ()))"

definition addfd_args :: "pyval \<Rightarrow> pyval \<Rightarrow> pyval \<Rightarrow> pyval \<Rightarrow> pyval \<Rightarrow> bytes result" where
  "addfd_args notif_id local_fd flags newfd newfd_flags =
     bindE (check_id notif_id) (\<lambda>nid.
     bindE (int_in 0 0x7FFFFFFF local_fd ''fd out of range'') (\<lambda>src.
     bindE (int_in 0 0x7FFFFFFF newfd ''fd out of range'') (\<lambda>new.
     bindE (if new \<noteq> 0 then
              bindE (py_and flags (addfd_value SETFD)) (\<lambda>b.
                guardE (b \<noteq> 0) (ValueError ''newfd requires AddFdFlag.SETFD''))
            else Inr ()) (\<lambda>_.
     bindE (int_in 0 0xFFFFFFFF flags ''addfd flags out of range'') (\<lambda>fl.
     bindE (case newfd_flags of
              PyInt nf \<Rightarrow> if nf AND NOT O_CLOEXEC \<noteq> 0
                          then Inl (ValueError ''newfd_flags accepts only O_CLOEXEC'') else Inr nf
            | _ \<Rightarrow> Inl (ValueError ''newfd_flags accepts only O_CLOEXEC'')) (\<lambda>nf.
       Inr (addfd_bytes nid fl src new nf)))))))"

definition addfd :: "'w env \<Rightarrow> listener \<Rightarrow> pyval \<Rightarrow> pyval \<Rightarrow> pyval \<Rightarrow> pyval \<Rightarrow> pyval \<Rightarrow> ('w sys, int) act" where
  "addfd env l notif_id local_fd flags newfd newfd_flags =
     bindA (liftA (addfd_args notif_id local_fd flags newfd newfd_flags)) (\<lambda>r.
     bindA (listener_ioctl env l IOCTL_NOTIF_ADDFD r) (\<lambda>rep. retA (rp_ret rep)))"

definition valid :: "'w env \<Rightarrow> listener \<Rightarrow> pyval \<Rightarrow> ('w sys, bool) act" where
  "valid env l notif_id =
     bindA (liftA (check_id notif_id)) (\<lambda>nid.
       catchA (bindA (listener_ioctl env l IOCTL_NOTIF_ID_VALID (le_bytes 8 nid)) (\<lambda>_. retA True))
         (\<lambda>e. if is_SeccompError e \<and> exc_errno e = Some ENOENT then retA False else raiseA e))"

definition set_flags :: "'w env \<Rightarrow> listener \<Rightarrow> pyval \<Rightarrow> ('w sys, unit) act" where
  "set_flags env l flags =
     bindA (liftA (int_in 0 NOTIF_U64 flags ''fd flags out of range'')) (\<lambda>fl.
     bindA (listener_ioctl env l IOCTL_NOTIF_SET_FLAGS (le_bytes 8 fl)) (\<lambda>_. retA ()))"

text \<open>Closing changes the listener, so the state is the listener with the process.\<close>

definition listener_close :: "'w env \<Rightarrow> (listener \<times> 'w sys, unit) act" where
  "listener_close env =
     (\<lambda>(l, s).
        if l_closed l then Some (Inr (), (l, s))
        else (case os_close env (l_fd l) s of
                None \<Rightarrow> None
              | Some (Inl e, s') \<Rightarrow> Some (Inl e, (l, s'))
              | Some (Inr _, s') \<Rightarrow> Some (Inr (), (l\<lparr>l_closed := True\<rparr>, s'))))"

definition listener_enter :: "listener \<Rightarrow> listener result" where
  "listener_enter l = (if l_closed l then Inl (RuntimeError ''listener is closed'') else Inr l)"

definition listener_exit :: "'w env \<Rightarrow> (listener \<times> 'w sys, unit) act" where
  "listener_exit env = listener_close env"

definition listener_del :: "'w env \<Rightarrow> (listener \<times> 'w sys, unit) act" where
  "listener_del env = catchA (listener_close env) (\<lambda>e. retA ())"

definition listener_copy :: "listener \<Rightarrow> listener result" where
  "listener_copy l = Inl (TypeError ''Listener cannot be copied: it owns a kernel file descriptor'')"

definition listener_repr :: "listener \<Rightarrow> string" where
  "listener_repr l =
     ''Listener(fd='' @ py_str (l_fd l) @ '', '' @ (if l_closed l then ''closed'' else ''open'') @ '')''"

end
