(* ===== verification/Syscall_Props.thy ===== *)
theory Syscall_Props
  imports Syscall_Layer
begin

text \<open>
  Properties of the raw bindings: retry and error mapping of the calls, the request that
  installs a program, flag probing, and the layout of the structures.
\<close>

text \<open>A kernel that interrupts the first attempt and answers the second.\<close>

definition second_try_env :: "reply \<Rightarrow> nat env" where
  "second_try_env rep =
     \<lparr>e_platform = ''linux'', e_machine = ''x86_64'',
      e_kernel = \<lambda>r n. (if n = 0 then \<lparr>rp_ret = -1, rp_errno = EINTR, rp_out = []\<rparr> else rep, Suc n)\<rparr>"

definition fresh :: "nat sys" where
  "fresh = \<lparr>s_libc = False, s_os = 0\<rparr>"

lemma second_try [simp]:
  "linux (second_try_env rep) s"
  "answer (second_try_env rep) r (Suc 0) (s_os fresh) = rep"
  "\<not> interrupted rep \<Longrightarrow> answered (second_try_env rep) r fresh (Suc 0)"
  by (simp_all add: linux_def second_try_env_def answer_def answered_def fresh_def interrupted_def)


lemma seccomp_nr_second_try: "seccomp_nr (second_try_env rep) = Inr 317"
proof -
  have "py_lower ''x86_64'' = ''x86_64''" by code_simp
  then show ?thesis by (simp add: seccomp_nr_def arch_nr_def SYS_SECCOMP_def second_try_env_def)
qed

section \<open>Calls\<close>

text \<open>
  C17. Interrupted calls are retried. If the kernel interrupts the first \<open>n\<close> attempts of a
  syscall and answers the next one, \<open>call\<close> returns that answer (a result other than -1) or raises
  the exception of its errno, after exactly \<open>n + 1\<close> identical requests.
\<close>

theorem call_retries_until_answer:
  assumes "linux env s" and "conv_args args = Inr ks"
    and "\<forall>m < n. interrupted (answer env (ReqSyscall ks) m (s_os s))"
    and "\<not> interrupted (answer env (ReqSyscall ks) n (s_os s))"
  shows "call env args s =
    Some (let rep = answer env (ReqSyscall ks) n (s_os s)
          in if rp_ret rep \<noteq> -1 then Inr rep else Inl (errno_exc (rp_errno rep)),
          s\<lparr>s_libc := True, s_os := asked env (ReqSyscall ks) (Suc n) (s_os s)\<rparr>)"
  using call_answer [OF assms(1,2), of n] assms(3,4)
  by (simp add: answered_def reply_result_def after_asking_def Let_def)

theorem call_retries_until_answer_witness:
  "call (second_try_env \<lparr>rp_ret = 3, rp_errno = 0, rp_out = []\<rparr>) [AInt 434, AInt 1, AInt 0] fresh =
     Some (Inr \<lparr>rp_ret = 3, rp_errno = 0, rp_out = []\<rparr>, \<lparr>s_libc = True, s_os = 2\<rparr>)"
  by (subst call_retries_until_answer [where n = "Suc 0" and ks = "[KInt 434, KInt 1, KInt 0]"])
    (simp_all add: answer_def second_try_env_def interrupted_def fresh_def linux_def)

text \<open>
  C18. When a call ends. On Linux a call with convertible arguments returns or raises unless the
  kernel interrupts every single attempt.
\<close>

theorem call_returns_iff:
  assumes "linux env s" and "conv_args args = Inr ks"
  shows "call env args s \<noteq> None \<longleftrightarrow> (\<exists>n. \<not> interrupted (answer env (ReqSyscall ks) n (s_os s)))"
  using call_loop.returns_iff [OF assms(2,1)] by (simp add: call_def)

theorem call_returns_iff_witness:
  "call (second_try_env \<lparr>rp_ret = -1, rp_errno = EINTR, rp_out = []\<rparr>) [AInt 434, AInt 1, AInt 0] fresh = None"
proof -
  let ?E = "second_try_env \<lparr>rp_ret = -1, rp_errno = EINTR, rp_out = []\<rparr>"
  have "interrupted (answer ?E r n w)" for r n w
    by (simp add: answer_def second_try_env_def interrupted_def)
  then show ?thesis
    using call_returns_iff [of ?E fresh "[AInt 434, AInt 1, AInt 0]" "[KInt 434, KInt 1, KInt 0]"]
    by (simp del: not_None_eq)
qed

text \<open>
  C19. Exceptions of a call. The only exceptions are a SeccompError (or its subclass
  UnsupportedError) and a ctypes argument error. EINTR never surfaces, and the two errnos that
  mean an absent feature are always reported as UnsupportedError, never as a plain SeccompError.
\<close>

theorem call_exceptions:
  assumes "call env args s = Some (Inl e, t)"
  shows "(is_SeccompError e \<or> e = ArgumentError) \<and> exc_errno e \<noteq> Some EINTR \<and>
    (exc_errno e = Some ENOSYS \<or> exc_errno e = Some EOPNOTSUPP \<longrightarrow> is_UnsupportedError e)"
  using assms unfolding call_def
  by (cases rule: call_loop.result_cases) (auto simp: errno_exc_def const_defs)

theorem call_exceptions_witness:
  "\<exists>e t. call (second_try_env \<lparr>rp_ret = -1, rp_errno = ENOSYS, rp_out = []\<rparr>) [AInt 434] fresh = Some (Inl e, t) \<and>
     is_UnsupportedError e"
proof -
  let ?E = "second_try_env \<lparr>rp_ret = -1, rp_errno = ENOSYS, rp_out = []\<rparr>"
  obtain t where c: "call ?E [AInt 434] fresh = Some (Inl (UnsupportedError (Some ENOSYS)), t)"
    using call_answer [of ?E fresh "[AInt 434]" "[KInt 434]" "Suc 0"]
    by (simp add: interrupted_def reply_result_def errno_exc_def const_defs)
  from call_exceptions [OF c] c show ?thesis by (auto simp: const_defs)
qed

section \<open>Installing a program\<close>

text \<open>
  The request that installs a program, as the kernel sees it: a struct sock_fprog with a 16-bit count at
  offset 0 and a 64-bit pointer to the instructions at offset 8.
\<close>

definition filter_req :: "int \<Rightarrow> int \<Rightarrow> bytes \<Rightarrow> request" where
  "filter_req nr flags prog =
     ReqSyscall [KInt (word_of_int nr), KInt 1, KInt (word_of_int flags),
       KRef [(0, Cell (le_bytes 2 (int (length prog div 8)))), (8, Ptr 8 prog)]]"

abbreviation filter_args :: "int \<Rightarrow> int \<Rightarrow> bytes \<Rightarrow> carg list" where
  "filter_args nr flags prog \<equiv> [AInt nr, AInt SECCOMP_SET_MODE_FILTER, AInt flags,
     AStruct SockFprog [(''len'', VInt (int (length prog div 8))), (''filter'', VAddr prog)]]"

lemma conv_filter:
  "0 \<le> nr \<Longrightarrow> nr < 2 ^ 31 \<Longrightarrow> 0 \<le> flags \<Longrightarrow> flags < 2 ^ 32 \<Longrightarrow>
   conv_args (filter_args nr flags prog) =
   Inr [KInt (word_of_int nr), KInt 1, KInt (word_of_int flags),
     KRef [(0, Cell (le_bytes 2 (int (length prog div 8)))), (8, Ptr 8 prog)]]"
  by (simp add: SECCOMP_SET_MODE_FILTER_def SockFprog_def align_up_def Let_def del: le_bytes.simps)

lemma seccomp_nr_cases: "seccomp_nr env = Inr nr \<Longrightarrow> nr = 317 \<or> nr = 277"
  by (auto simp: seccomp_nr_def arch_nr_def SYS_SECCOMP_def split: if_splits)

lemma seccomp_nr_range: "seccomp_nr env = Inr nr \<Longrightarrow> 0 \<le> nr \<and> nr < 2 ^ 31"
  by (auto dest: seccomp_nr_cases)

lemma set_mode_filter_answer:
  assumes "linux env s" and "seccomp_nr env = Inr nr" and "0 \<le> flags" and "flags < 2 ^ 32"
    and "length prog mod 8 = 0" and "0 < length prog" and "length prog div 8 \<le> 4096"
    and "answered env (filter_req nr flags prog) s n"
  shows "set_mode_filter env prog flags s =
    Some (map_sum id rp_ret (reply_result (answer env (filter_req nr flags prog) n (s_os s))),
          after_asking env (filter_req nr flags prog) (Suc n) s)"
proof -
  note nr = seccomp_nr_range [OF assms(2)]
  have "call env (filter_args nr flags prog) s =
      Some (reply_result (answer env (filter_req nr flags prog) n (s_os s)),
            after_asking env (filter_req nr flags prog) (Suc n) s)"
    using call_answer [OF assms(1) conv_filter, of nr flags prog n] nr assms(3,4,8) by (simp add: filter_req_def)
  with assms(2,5-7) show ?thesis
    by (cases "reply_result (answer env (filter_req nr flags prog) n (s_os s))")
      (simp_all add: set_mode_filter_def seccomp_def not_less bindA_def)
qed

lemma set_mode_filter_success:
  assumes "set_mode_filter env prog flags s = Some (Inr ret, t)" and "0 \<le> flags" and "flags < 2 ^ 32"
  obtains nr n where "seccomp_nr env = Inr nr" and "length prog mod 8 = 0" and "length prog div 8 \<in> {1..4096}"
    and "answered env (filter_req nr flags prog) s n"
    and "rp_ret (answer env (filter_req nr flags prog) n (s_os s)) = ret" and "ret \<noteq> -1"
    and "t = after_asking env (filter_req nr flags prog) (Suc n) s"
proof -
  have len: "length prog mod 8 = 0" "prog \<noteq> []" "length prog div 8 \<le> 4096"
    using assms(1) by (auto simp: set_mode_filter_def split: if_splits)
  then have "length prog div 8 \<in> {1..4096}" by (cases prog) (auto simp: dvd_eq_mod_eq_0 [symmetric] elim!: dvdE)
  moreover obtain nr rep where nr: "seccomp_nr env = Inr nr" and "ret = rp_ret rep"
    and c: "call env (filter_args nr flags prog) s = Some (Inr rep, t)"
    using assms(1) len by (auto simp: set_mode_filter_def seccomp_def not_less elim!: bindA_InrE)
  moreover obtain ks n where ks: "conv_args (filter_args nr flags prog) = Inr ks"
    and "answered env (ReqSyscall ks) s n" "rep = answer env (ReqSyscall ks) n (s_os s)" "rp_ret rep \<noteq> -1"
      "t = after_asking env (ReqSyscall ks) (Suc n) s"
    using c by (rule call_success)
  moreover have "ReqSyscall ks = filter_req nr flags prog"
    using ks conv_filter [of nr flags prog] seccomp_nr_range [OF nr] assms(2,3) by (simp add: filter_req_def)
  ultimately show thesis using that len(1) by metis
qed

text \<open>
  C20. Installing a program. A program that is empty, not a whole number of instructions or
  longer than 4096 instructions is refused with ValueError before the kernel is
  asked. Otherwise the kernel is given a struct sock_fprog that points to exactly the
  program, and the 16-bit count it holds, read back, is the number of instructions.
\<close>

theorem set_mode_filter_checks:
  assumes "linux env s" and "seccomp_nr env = Inr nr" and "0 \<le> flags" and "flags < 2 ^ 32"
    and "answered env (filter_req nr flags prog) s n"
  shows "if length prog mod 8 = 0 \<and> length prog div 8 \<in> {1..4096} then
      8 * le_int (le_bytes 2 (int (length prog div 8))) = int (length prog) \<and>
      set_mode_filter env prog flags s =
        Some (map_sum id rp_ret (reply_result (answer env (filter_req nr flags prog) n (s_os s))),
              after_asking env (filter_req nr flags prog) (Suc n) s)
    else \<exists>m. set_mode_filter env prog flags s = Some (Inl (ValueError m), s)"
proof (cases "length prog mod 8 = 0 \<and> length prog div 8 \<in> {1..4096}")
  case True
  then have "le_int (le_bytes 2 (int (length prog div 8))) = int (length prog div 8)"
    by (subst le_int_le_bytes) simp
  moreover have "8 * (length prog div 8) = length prog" using True by auto
  then have "8 * int (length prog div 8) = int (length prog)" by linarith
  moreover have "0 < length prog" using True by (cases prog) auto
  ultimately show ?thesis
    using True set_mode_filter_answer [OF assms(1-4) _ _ _ assms(5)] by simp
next
  case False
  have "length prog div 8 = 0 \<longleftrightarrow> prog = []" if "length prog mod 8 = 0"
    using that by (metis div_mult_mod_eq add.right_neutral div_0 length_0_conv mult_0)
  with False show ?thesis by (auto simp: set_mode_filter_def)
qed

theorem set_mode_filter_checks_witness:
  "set_mode_filter (second_try_env \<lparr>rp_ret = 0, rp_errno = 0, rp_out = []\<rparr>) (replicate 16 0) 0 fresh =
     Some (Inr 0, \<lparr>s_libc = True, s_os = 2\<rparr>)"
proof -
  let ?E = "second_try_env \<lparr>rp_ret = 0, rp_errno = 0, rp_out = []\<rparr>"
  show ?thesis
    using seccomp_nr_second_try set_mode_filter_checks [of ?E fresh 317 0 "replicate 16 0" "Suc 0"]
    by (simp add: interrupted_def reply_result_def after_asking_def) (simp add: second_try_env_def fresh_def)
qed

section \<open>Probing\<close>

lemma conv_probe: "0 \<le> nr \<Longrightarrow> nr < 2 ^ 31 \<Longrightarrow> - (2 ^ 63) \<le> flag \<Longrightarrow> flag < 2 ^ 64 \<Longrightarrow>
   conv_args [AInt nr, AInt SECCOMP_SET_MODE_FILTER, AInt flag, ANone] =
   Inr [KInt (word_of_int nr), KInt 1, KInt (word_of_int flag), KNull]"
  by (simp add: SECCOMP_SET_MODE_FILTER_def)

definition probe_req :: "int \<Rightarrow> int \<Rightarrow> request" where
  "probe_req nr flag = ReqSyscall [KInt (word_of_int nr), KInt 1, KInt (word_of_int flag), KNull]"

lemma probe_flag_result:
  assumes "linux env s" and "seccomp_nr env = Inr nr" and "0 \<le> flag" and "flag < 2 ^ 32"
    and "answered env (probe_req nr flag) s n" and "answer env (probe_req nr flag) n (s_os s) = rep"
  shows "probe_flag env flag s =
    Some (if rp_ret rep \<noteq> -1 then Inr True
          else if rp_errno rep = EINVAL then Inr False
          else if rp_errno rep \<in> {EFAULT, EACCES} then Inr True
          else Inl (errno_exc (rp_errno rep)),
          after_asking env (probe_req nr flag) (Suc n) s)"
proof -
  have "call env [AInt nr, AInt SECCOMP_SET_MODE_FILTER, AInt flag, ANone] s =
      Some (reply_result rep, after_asking env (probe_req nr flag) (Suc n) s)"
    using call_answer [OF assms(1) conv_probe, of nr flag n] seccomp_nr_range [OF assms(2)] assms(3-6)
    by (simp add: probe_req_def)
  then have "seccomp env SECCOMP_SET_MODE_FILTER flag ANone s =
      Some (reply_result rep, after_asking env (probe_req nr flag) (Suc n) s)"
    using assms(2) by (simp add: seccomp_def)
  then show ?thesis
    by (auto simp: probe_flag_def catchA_def bindA_def reply_result_def errno_exc_def const_defs)
qed

text \<open>
  Probing a flag. The request carries a null program. An errno EINVAL means the flag is
  unknown; success, EFAULT and EACCES mean it is known; every other errno is raised, as UnsupportedError when
  the kernel lacks the call.
\<close>

theorem probe_flag_answer:
  assumes "linux env s" and "seccomp_nr env = Inr nr" and "0 \<le> flag" and "flag < 2 ^ 32"
    and "answered env (probe_req nr flag) s n" and "answer env (probe_req nr flag) n (s_os s) = rep"
  shows "probe_flag env flag s =
    Some (if rp_ret rep \<noteq> -1 then Inr True
          else if rp_errno rep = EINVAL then Inr False
          else if rp_errno rep \<in> {EFAULT, EACCES} then Inr True
          else Inl (errno_exc (rp_errno rep)),
          after_asking env (probe_req nr flag) (Suc n) s)"
  using assms by (rule probe_flag_result)

theorem probe_flag_answer_witness:
  "map_option fst (probe_flag (second_try_env \<lparr>rp_ret = -1, rp_errno = EFAULT, rp_out = []\<rparr>) 8 fresh) = Some (Inr True)"
  by (subst probe_flag_answer [where n = "Suc 0" and nr = 317, OF _ _ _ _ _ refl])
    (simp_all add: seccomp_nr_second_try interrupted_def const_defs)

text \<open>
  High flag bits are not probed. An int passed to libc without declared argument types keeps its low 32 bits
  only, so probing a flag above them asks the kernel about the truncated value and
  reports its answer.
\<close>

theorem probe_flag_truncates:
  assumes "0 \<le> flag" and "flag < 2 ^ 32" and "0 \<le> k" and "k < 2 ^ 31"
  shows "probe_flag env (flag + k * 2 ^ 32) = probe_flag env flag"
proof -
  let ?args = "\<lambda>nr fl. [AInt nr, AInt SECCOMP_SET_MODE_FILTER, AInt fl, ANone]"
  have "(word_of_int (flag + k * 2 ^ 32) :: 32 word) = word_of_int flag"
    by (rule word_of_int_eq_iff [THEN iffD2]) (simp add: take_bit_eq_mod)
  moreover have "flag + k * 2 ^ 32 < 2 ^ 64" using assms by simp
  ultimately have "conv_args (?args nr (flag + k * 2 ^ 32)) = conv_args (?args nr flag)" for nr
    using assms by simp
  then have "call_body env (?args nr (flag + k * 2 ^ 32)) = call_body env (?args nr flag)" for nr
    by (intro ext) (simp only: call_body_def libc_call_def)
  then have "seccomp env SECCOMP_SET_MODE_FILTER (flag + k * 2 ^ 32) ANone = seccomp env SECCOMP_SET_MODE_FILTER flag ANone"
    by (simp only: seccomp_def call_def)
  then show ?thesis by (simp add: probe_flag_def)
qed

theorem probe_flag_truncates_witness:
  "map_option fst (probe_flag (second_try_env \<lparr>rp_ret = -1, rp_errno = EFAULT, rp_out = []\<rparr>) (2 ^ 32) fresh) = Some (Inr True)"
  using probe_flag_truncates [of 0 1 "second_try_env \<lparr>rp_ret = -1, rp_errno = EFAULT, rp_out = []\<rparr>"]
  by (simp add: probe_flag_def seccomp_def seccomp_nr_second_try catchA_def bindA_def const_defs reply_result_def errno_exc_def
      call_answer [where n = "Suc 0" and ks = "[KInt 317, KInt 1, KInt 0, KNull]"] interrupted_def)

text \<open>
  Off Linux. When the platform is not Linux and libc has not been loaded, every call that goes through the
  bindings raises UnsupportedError without a request to the kernel.
\<close>

theorem unsupported_platform:
  assumes "e_platform env \<noteq> ''linux''" and "\<not> s_libc s"
  shows "call env args s = Some (Inl (UnsupportedError None), s) \<and>
    ioctl env fd r arg s = Some (Inl (UnsupportedError None), s) \<and>
    set_no_new_privs env s = Some (Inl (UnsupportedError None), s)"
proof -
  have lc: "libc_call env req as s = (Inl (UnsupportedError None), s)" for req as
    using assms by (simp add: libc_call_def get_libc_def)
  show ?thesis
    unfolding call_def ioctl_def set_no_new_privs_def
    by (intro conjI retry_Done) (simp_all add: call_body_def ioctl_body_def no_new_privs_body_def lc)
qed

theorem unsupported_platform_witness:
  "set_no_new_privs ((second_try_env \<lparr>rp_ret = 0, rp_errno = 0, rp_out = []\<rparr>)\<lparr>e_platform := ''darwin''\<rparr>) fresh =
     Some (Inl (UnsupportedError None), fresh)"
  using unsupported_platform [of "(second_try_env \<lparr>rp_ret = 0, rp_errno = 0, rp_out = []\<rparr>)\<lparr>e_platform := ''darwin''\<rparr>" fresh]
  by (simp add: fresh_def)

end
