(* ===== verification/Notify_Props.thy ===== *)
theory Notify_Props
  imports Notify Syscall_Props Arg_Cond
begin

text \<open>
  Properties of the notification protocol: request numbers, the exchanged structures as
  bytes, what the Listener operations send, and the life cycle of the descriptor.
\<close>

section \<open>Request numbers\<close>

lemma ioc_sum:
  assumes "0 \<le> nr" and "nr < 256" and "0 \<le> sz" and "sz < 2 ^ 14"
  shows "ioc direction nr sz = direction * 2 ^ 30 + sz * 2 ^ 16 + 33 * 2 ^ 8 + nr"
proof -
  have "push_bit 8 33 OR nr = 33 * 2 ^ 8 + nr"
    using assms by (intro push_or_add) simp_all
  moreover have "push_bit 16 sz OR (33 * 2 ^ 8 + nr) = sz * 2 ^ 16 + (33 * 2 ^ 8 + nr)"
    using assms by (intro push_or_add) simp_all
  moreover have "push_bit 30 direction OR (sz * 2 ^ 16 + (33 * 2 ^ 8 + nr)) =
      direction * 2 ^ 30 + (sz * 2 ^ 16 + (33 * 2 ^ 8 + nr))"
    using assms by (intro push_or_add) simp_all
  ultimately show ?thesis
    by (simp add: ioc_def IOC_MAGIC_def or.assoc [symmetric])
qed

lemmas ct_simps = struct_defs align_up_def eval_nat_numeral

lemma struct_sizes [simp]:
  "fields_end 0 SeccompNotif = 80" "fields_align SeccompNotif = 8"
  "fields_end 0 SeccompNotifResp = 24" "fields_align SeccompNotifResp = 8"
  "fields_end 0 SeccompNotifAddfd = 24" "fields_align SeccompNotifAddfd = 8"
  "fields_end 0 SeccompData = 64" "fields_align SeccompData = 8"
  "fields_end 0 SeccompNotifSizes = 6" "fields_align SeccompNotifSizes = 2"
  by (simp_all add: struct_defs align_up_def)

lemma notif_requests:
  "IOCTL_NOTIF_RECV = 0xC0502100" "IOCTL_NOTIF_SEND = 0xC0182101"
  "IOCTL_NOTIF_ID_VALID = 0x40082102" "IOCTL_NOTIF_ADDFD = 0x40182103"
  "IOCTL_NOTIF_SET_FLAGS = 0x40082104"
  by (simp_all add: IOCTL_NOTIF_RECV_def IOCTL_NOTIF_SEND_def IOCTL_NOTIF_ID_VALID_def
      IOCTL_NOTIF_ADDFD_def IOCTL_NOTIF_SET_FLAGS_def ioc_sum align_up_def IOC_READ_def IOC_WRITE_def)

section \<open>Structures as bytes\<close>

text \<open>How the kernel reads a buffer: an unsigned little-endian field, and signed ones.\<close>

definition uint_at :: "bytes \<Rightarrow> nat \<Rightarrow> nat \<Rightarrow> int" where
  "uint_at b off n = le_int (take n (drop off b))"

definition sint32_at :: "bytes \<Rightarrow> nat \<Rightarrow> int" where
  "sint32_at b off = sint (word_of_int (uint_at b off 4) :: 32 word)"

definition sint64_at :: "bytes \<Rightarrow> nat \<Rightarrow> int" where
  "sint64_at b off = sint (word_of_int (uint_at b off 8) :: 64 word)"

text \<open>The ctypes declarations give the layouts of the kernel's headers.\<close>

lemma decode_notif_layout:
  "decode_notif b =
     \<lparr>n_id = uint_at b 0 8, n_pid = uint_at b 8 4, n_flags = uint_at b 12 4,
      n_nr = sint32_at b 16, n_arch = uint_at b 20 4, n_instruction_pointer = uint_at b 24 8,
      n_args = map (\<lambda>i. uint_at b (32 + 8 * i) 8) [0 ..< 6]\<rparr>"
proof -
  have "find_path SeccompNotif [''id''] = Some (0, C_uint64)" "find_path SeccompNotif [''pid''] = Some (8, C_uint32)"
    "find_path SeccompNotif [''flags''] = Some (12, C_uint32)" "find_path SeccompNotif [''data'', ''nr''] = Some (16, C_int32)"
    "find_path SeccompNotif [''data'', ''arch''] = Some (20, C_uint32)"
    "find_path SeccompNotif [''data'', ''instruction_pointer''] = Some (24, C_uint64)"
    "find_path SeccompNotif [''data'', ''args''] = Some (32, C_array C_uint64 6)"
    by code_simp+
  moreover have "signed_take_bit 31 u = sint (word_of_int u :: 32 word)" for u
    by (simp add: sint_uint uint_word_of_int_eq signed_take_bit_take_bit)
  ultimately show ?thesis
    by (simp add: decode_notif_def get_int_def get_array_def ct_read_def uint_at_def sint32_at_def mult.commute)
qed

lemma resp_bytes_layout:
  "resp_bytes nid val error flags = le_bytes 8 nid @ le_bytes 8 val @ le_bytes 4 error @ le_bytes 4 flags"
  by (simp add: resp_bytes_def struct_bytes_def SeccompNotifResp_def align_up_def Let_def del: le_bytes.simps)

lemma addfd_bytes_layout:
  "addfd_bytes nid flags srcfd newfd newfd_flags =
     le_bytes 8 nid @ le_bytes 4 flags @ le_bytes 4 srcfd @ le_bytes 4 newfd @ le_bytes 4 newfd_flags"
  by (simp add: addfd_bytes_def struct_bytes_def SeccompNotifAddfd_def align_up_def Let_def del: le_bytes.simps)

lemma sizes_layout:
  "get_int SeccompNotifSizes [''seccomp_notif''] b = uint_at b 0 2"
  "get_int SeccompNotifSizes [''seccomp_notif_resp''] b = uint_at b 2 2"
  "get_int SeccompNotifSizes [''seccomp_data''] b = uint_at b 4 2"
proof -
  have "find_path SeccompNotifSizes [''seccomp_notif''] = Some (0, C_uint16)"
    "find_path SeccompNotifSizes [''seccomp_notif_resp''] = Some (2, C_uint16)"
    "find_path SeccompNotifSizes [''seccomp_data''] = Some (4, C_uint16)"
    by code_simp+
  then show "get_int SeccompNotifSizes [''seccomp_notif''] b = uint_at b 0 2"
    "get_int SeccompNotifSizes [''seccomp_notif_resp''] b = uint_at b 2 2"
    "get_int SeccompNotifSizes [''seccomp_data''] b = uint_at b 4 2"
    by (simp_all add: get_int_def ct_read_def uint_at_def)
qed

lemma uint_at_field: "length pre = off \<Longrightarrow> uint_at (pre @ le_bytes n v @ post) off n = v mod 256 ^ n"
  by (simp add: uint_at_def le_int_le_bytes)

text \<open>A struct seccomp_notif in memory, with the data the filter saw.\<close>

definition notif_bytes :: "64 word \<Rightarrow> 32 word \<Rightarrow> 32 word \<Rightarrow> seccomp_data \<Rightarrow> bytes" where
  "notif_bytes nid pid flags d =
     le_bytes 8 (uint nid) @ le_bytes 4 (uint pid) @ le_bytes 4 (uint flags) @ data_bytes d"

lemma uint_mod_256:
  "uint (w :: 32 word) mod 256 ^ 4 = uint w" "uint (v :: 64 word) mod 256 ^ 8 = uint v"
  using uint_lt2p [of w] uint_lt2p [of v] by simp_all

lemma notif_fields:
  fixes nid :: "64 word" and pid flags :: "32 word" and d :: seccomp_data
  defines "b \<equiv> notif_bytes nid pid flags d"
  shows "uint_at b 0 8 = uint nid" and "uint_at b 8 4 = uint pid" and "uint_at b 12 4 = uint flags"
    and "uint_at b 16 4 = uint (sd_nr d)" and "uint_at b 20 4 = uint (sd_arch d)"
    and "uint_at b 24 8 = uint (sd_instruction_pointer d)"
proof -
  let ?i = "le_bytes 8 (uint nid)" and ?p = "le_bytes 4 (uint pid)" and ?f = "le_bytes 4 (uint flags)"
  let ?n = "le_bytes 4 (uint (sd_nr d))" and ?a = "le_bytes 4 (uint (sd_arch d))"
  let ?ip = "le_bytes 8 (uint (sd_instruction_pointer d))"
  note defs = b_def notif_bytes_def data_bytes_def
  show "uint_at b 0 8 = uint nid"
    unfolding defs using uint_at_field [of "[]" 0 8 "uint nid"] uint_mod_256 by simp
  show "uint_at b 8 4 = uint pid"
    unfolding defs using uint_at_field [of ?i 8 4 "uint pid"] uint_mod_256 by simp
  show "uint_at b 12 4 = uint flags"
    unfolding defs using uint_at_field [of "?i @ ?p" 12 4 "uint flags"] uint_mod_256 by simp
  show "uint_at b 16 4 = uint (sd_nr d)"
    unfolding defs using uint_at_field [of "?i @ ?p @ ?f" 16 4 "uint (sd_nr d)"] uint_mod_256 by simp
  show "uint_at b 20 4 = uint (sd_arch d)"
    unfolding defs using uint_at_field [of "?i @ ?p @ ?f @ ?n" 20 4 "uint (sd_arch d)"] uint_mod_256 by simp
  show "uint_at b 24 8 = uint (sd_instruction_pointer d)"
    unfolding defs
    using uint_at_field [of "?i @ ?p @ ?f @ ?n @ ?a" 24 8 "uint (sd_instruction_pointer d)"] uint_mod_256 by simp
qed

lemma notif_arg:
  assumes "wf_data d" and "i < 6"
  shows "uint_at (notif_bytes nid pid flags d) (32 + 8 * i) 8 = uint (sd_args d ! i)"
proof -
  have "i < length (sd_args d)" using assms by (simp add: wf_data_def)
  then obtain pre post where "data_bytes d = pre @ le_bytes 8 (uint (sd_args d ! i)) @ post"
    and "length pre = 16 + 8 * i"
    by (rule data_bytes_arg)
  then show ?thesis
    unfolding notif_bytes_def
    using uint_at_field [of "le_bytes 8 (uint nid) @ le_bytes 4 (uint pid) @ le_bytes 4 (uint flags) @ pre"
        "32 + 8 * i" 8 "uint (sd_args d ! i)" post] uint_mod_256 by simp
qed

lemma decode_notif_bytes:
  assumes "wf_data d"
  shows "decode_notif (notif_bytes nid pid flags d) =
    \<lparr>n_id = uint nid, n_pid = uint pid, n_flags = uint flags, n_nr = sint (sd_nr d),
     n_arch = uint (sd_arch d), n_instruction_pointer = uint (sd_instruction_pointer d),
     n_args = map uint (sd_args d)\<rparr>"
proof -
  have "map (\<lambda>i. uint_at (notif_bytes nid pid flags d) (32 + 8 * i) 8) [0 ..< 6] = map uint (sd_args d)"
    using assms notif_arg [OF assms] by (intro nth_equalityI) (simp_all add: wf_data_def)
  then show ?thesis by (simp add: decode_notif_layout notif_fields sint32_at_def)
qed

text \<open>The response the kernel reads back.\<close>

lemma sint_of_int_32: "- (2 ^ 31) \<le> v \<Longrightarrow> v < 2 ^ 31 \<Longrightarrow> sint (word_of_int (v mod 256 ^ 4) :: 32 word) = v"
proof -
  assume "- (2 ^ 31) \<le> v" and "v < 2 ^ 31"
  moreover have "v mod 256 ^ 4 = take_bit 32 v" by (simp add: take_bit_eq_mod)
  ultimately show ?thesis
    by (simp add: sint_uint uint_word_of_int_eq signed_take_bit_int_eq_self signed_take_bit_take_bit)
qed

lemma sint_of_int_64: "- (2 ^ 63) \<le> v \<Longrightarrow> v < 2 ^ 63 \<Longrightarrow> sint (word_of_int (v mod 256 ^ 8) :: 64 word) = v"
proof -
  assume "- (2 ^ 63) \<le> v" and "v < 2 ^ 63"
  moreover have "v mod 256 ^ 8 = take_bit 64 v" by (simp add: take_bit_eq_mod)
  ultimately show ?thesis
    by (simp add: sint_uint uint_word_of_int_eq signed_take_bit_int_eq_self signed_take_bit_take_bit)
qed

lemma resp_fields:
  assumes "0 \<le> nid" "nid < 2 ^ 64" "- (2 ^ 63) \<le> v" "v < 2 ^ 63" "0 \<le> e" "e < 2 ^ 31" "0 \<le> fl" "fl < 2 ^ 32"
  defines "r \<equiv> resp_bytes nid v (- e) fl"
  shows "length r = ct_sizeof (C_struct SeccompNotifResp)"
    and "uint_at r 0 8 = nid" and "sint64_at r 8 = v" and "sint32_at r 16 = - e" and "uint_at r 20 4 = fl"
proof -
  let ?n = "le_bytes 8 nid" and ?v = "le_bytes 8 v" and ?e = "le_bytes 4 (- e)"
  show "length r = ct_sizeof (C_struct SeccompNotifResp)"
    by (simp add: r_def resp_bytes_layout align_up_def)
  show "uint_at r 0 8 = nid"
    using uint_at_field [of "[]" 0 8 nid] assms(1,2) by (simp add: r_def resp_bytes_layout)
  show "sint64_at r 8 = v"
    using uint_at_field [of ?n 8 8 v] sint_of_int_64 [of v] assms(3,4)
    by (simp add: r_def resp_bytes_layout sint64_at_def)
  show "sint32_at r 16 = - e"
    using uint_at_field [of "?n @ ?v" 16 4 "- e"] sint_of_int_32 [of "- e"] assms(5,6)
    by (simp add: r_def resp_bytes_layout sint32_at_def)
  show "uint_at r 20 4 = fl"
    using uint_at_field [of "?n @ ?v @ ?e" 20 4 fl "[]"] assms(7,8) by (simp add: r_def resp_bytes_layout)
qed

lemma addfd_fields:
  assumes "0 \<le> i" "i < 2 ^ 64" "0 \<le> fl" "fl < 2 ^ 32" "0 \<le> src" "src < 2 ^ 32" "0 \<le> new" "new < 2 ^ 32"
    "0 \<le> nf" "nf < 2 ^ 32"
  defines "b \<equiv> addfd_bytes i fl src new nf"
  shows "uint_at b 0 8 = i" "uint_at b 8 4 = fl" "uint_at b 12 4 = src" "uint_at b 16 4 = new" "uint_at b 20 4 = nf"
proof -
  let ?i = "le_bytes 8 i" and ?f = "le_bytes 4 fl" and ?s = "le_bytes 4 src" and ?n = "le_bytes 4 new"
  note lay = b_def addfd_bytes_layout
  show "uint_at b 0 8 = i" using uint_at_field [of "[]" 0 8 i] assms(1,2) by (simp add: lay)
  show "uint_at b 8 4 = fl" using uint_at_field [of ?i 8 4 fl] assms(3,4) by (simp add: lay)
  show "uint_at b 12 4 = src" using uint_at_field [of "?i @ ?f" 12 4 src] assms(5,6) by (simp add: lay)
  show "uint_at b 16 4 = new" using uint_at_field [of "?i @ ?f @ ?s" 16 4 new] assms(7,8) by (simp add: lay)
  show "uint_at b 20 4 = nf" using uint_at_field [of "?i @ ?f @ ?s @ ?n" 20 4 nf "[]"] assms(9,10) by (simp add: lay)
qed

section \<open>Listener operations\<close>

lemma listener_ioctl_open: "\<not> l_closed l \<Longrightarrow> listener_ioctl env l r b s = ioctl env (l_fd l) r b s"
  by (simp add: listener_ioctl_def)

lemma listener_ioctl_closed:
  "l_closed l \<Longrightarrow> listener_ioctl env l r b s = Some (Inl (RuntimeError ''listener is closed''), s)"
  by (simp add: listener_ioctl_def)

text \<open>
  The contract the operations share: on a closed listener they raise and ask nothing, and
  on an open one the only request made is one ioctl on the listener's own descriptor.
\<close>

locale listener_op =
  fixes opr :: "'w env \<Rightarrow> listener \<Rightarrow> 'w sys \<Rightarrow> ('a result \<times> 'w sys) option" and rq :: int
  assumes closed_raises: "l_closed l \<Longrightarrow> \<exists>e. opr env l s = Some (Inl e, s)"
    and own_requests: "opr env l s = Some (r, t) \<Longrightarrow> \<exists>b n. s_os t = asked env (ioctl_req (l_fd l) rq b) n (s_os s)"
begin

lemma closed_inert: "l_closed l \<Longrightarrow> opr env l s = Some (r, t) \<Longrightarrow> t = s \<and> (\<exists>e. r = Inl e)"
  using closed_raises [of l env s] by auto

end

text \<open>Operations built from a check, one ioctl and a treatment of its result.\<close>

lemma checked_ioctl_op:
  assumes "\<And>env l s. opr env l s =
      (case chk of Inl e \<Rightarrow> Some (Inl e, s) | Inr b \<Rightarrow> map_option (apfst g) (listener_ioctl env l rq b s))"
    and "\<exists>e. g (Inl (RuntimeError ''listener is closed'')) = Inl e"
  shows "listener_op opr rq"
proof
  show "\<exists>e. opr env l s = Some (Inl e, s)" if "l_closed l" for env l s
    using assms that by (auto simp: listener_ioctl_closed split: sum.split)
  show "\<exists>b n. s_os t = asked env (ioctl_req (l_fd l) rq b) n (s_os s)" if "opr env l s = Some (r, t)" for env l s r t
  proof (cases "l_closed l \<or> (\<exists>e. chk = Inl e)")
    case True
    with that assms(1) have "s_os t = asked env (ioctl_req (l_fd l) rq []) 0 (s_os s)"
      by (auto simp: listener_ioctl_closed split: sum.splits)
    then show ?thesis by blast
  next
    case False
    then obtain b where "chk = Inr b" by (cases chk) auto
    with False that assms(1) obtain r' where "ioctl env (l_fd l) rq b s = Some (r', t)"
      by (auto simp: listener_ioctl_open)
    with ioctl_requests show ?thesis by blast
  qed
qed

lemma bindA_retA: "bindA m (\<lambda>x. retA (g x)) s = map_option (apfst (map_sum id g)) (m s)"
  by (simp add: bindA_def split: option.split sum.split)

lemma catchA_pure:
  "(\<And>e s. h e s = Some (k e, s)) \<Longrightarrow>
   catchA m h s = map_option (apfst (\<lambda>r. case r of Inl e \<Rightarrow> k e | Inr x \<Rightarrow> Inr x)) (m s)"
  by (simp add: catchA_def split: option.split sum.split)

definition valid_result :: "reply result \<Rightarrow> bool result" where
  "valid_result r =
     (case r of
        Inr _ \<Rightarrow> Inr True
      | Inl e \<Rightarrow> if is_SeccompError e \<and> exc_errno e = Some ENOENT then Inr False else Inl e)"

lemma valid_eq:
  "valid env l v s =
     (case bindE (check_id v) (\<lambda>nid. Inr (le_bytes 8 nid)) of
        Inl e \<Rightarrow> Some (Inl e, s)
      | Inr b \<Rightarrow> map_option (apfst valid_result) (listener_ioctl env l IOCTL_NOTIF_ID_VALID b s))"
  by (cases "check_id v")
    (simp_all add: valid_def valid_result_def bindA_def catchA_def split: option.split sum.split)

lemma checked_eq:
  "bindA (liftA chk) (\<lambda>x. bindA (m (f x)) (\<lambda>rep. retA (g rep))) s =
     (case bindE chk (\<lambda>x. Inr (f x)) of
        Inl e \<Rightarrow> Some (Inl e, s) | Inr b \<Rightarrow> map_option (apfst (map_sum id g)) (m b s))"
  by (cases chk) (simp_all add: bindA_retA)

lemma bindE_Inr_id: "bindE r (\<lambda>x. Inr x) = r"
  by (cases r) simp_all

interpretation recv_op: listener_op recv IOCTL_NOTIF_RECV
  by (rule checked_ioctl_op [where chk = "Inr (replicate (ct_sizeof (C_struct SeccompNotif)) 0)"
        and g = "map_sum id (\<lambda>rep. decode_notif (rp_out rep))"])
    (simp_all add: recv_def bindA_retA del: ct_sizeof.simps)

interpretation respond_op: listener_op "\<lambda>env l. respond env l nid error val flags" IOCTL_NOTIF_SEND
  for nid error val flags
  by (rule checked_ioctl_op [where chk = "respond_args nid error val flags" and g = "map_sum id (\<lambda>_. ())"])
    (simp_all add: respond_def checked_eq [where f = "\<lambda>x. x"] bindE_Inr_id)

interpretation addfd_op: listener_op "\<lambda>env l. addfd env l nid fd flags newfd newfd_flags" IOCTL_NOTIF_ADDFD
  for nid fd flags newfd newfd_flags
  by (rule checked_ioctl_op [where chk = "addfd_args nid fd flags newfd newfd_flags" and g = "map_sum id rp_ret"])
    (simp_all add: addfd_def checked_eq [where f = "\<lambda>x. x"] bindE_Inr_id)

interpretation valid_op: listener_op "\<lambda>env l. valid env l nid" IOCTL_NOTIF_ID_VALID
  for nid
  by (rule checked_ioctl_op [OF valid_eq]) (simp add: valid_result_def)

interpretation set_flags_op: listener_op "\<lambda>env l. set_flags env l flags" IOCTL_NOTIF_SET_FLAGS
  for flags
  by (rule checked_ioctl_op [where g = "map_sum id (\<lambda>_. ())" and chk =
        "bindE (int_in 0 NOTIF_U64 flags ''fd flags out of range'') (\<lambda>fl. Inr (le_bytes 8 fl))"])
    (simp only: set_flags_def, rule checked_eq, simp)

section \<open>Life cycle\<close>

text \<open>Any use of a listener and the process it lives in.\<close>

inductive listener_step :: "'w env \<Rightarrow> listener \<times> 'w sys \<Rightarrow> listener \<times> 'w sys \<Rightarrow> bool" for env where
  recv: "recv env l s = Some (r, s') \<Longrightarrow> listener_step env (l, s) (l, s')"
| respond: "respond env l nid error val flags s = Some (r, s') \<Longrightarrow> listener_step env (l, s) (l, s')"
| addfd: "addfd env l nid fd flags newfd newfd_flags s = Some (r, s') \<Longrightarrow> listener_step env (l, s) (l, s')"
| valid: "valid env l nid s = Some (r, s') \<Longrightarrow> listener_step env (l, s) (l, s')"
| set_flags: "set_flags env l flags s = Some (r, s') \<Longrightarrow> listener_step env (l, s) (l, s')"
| close: "listener_close env (l, s) = Some (r, c') \<Longrightarrow> listener_step env (l, s) c'"
| exit: "listener_exit env (l, s) = Some (r, c') \<Longrightarrow> listener_step env (l, s) c'"
| del: "listener_del env (l, s) = Some (r, c') \<Longrightarrow> listener_step env (l, s) c'"

inductive_cases listener_stepE: "listener_step env (l, s) c"

lemma close_closed: "l_closed l \<Longrightarrow> listener_close env (l, s) = Some (Inr (), (l, s))"
  by (simp add: listener_close_def)

lemma closed_step: "listener_step env (l, s) c \<Longrightarrow> l_closed l \<Longrightarrow> c = (l, s)"
  by (elim listener_stepE)
    (auto simp: close_closed listener_exit_def listener_del_def
      dest: recv_op.closed_inert respond_op.closed_inert addfd_op.closed_inert valid_op.closed_inert
        set_flags_op.closed_inert)

lemma close_open:
  assumes "listener_close env (l, s) = Some (r, c)" and "\<not> l_closed l"
  shows "s_os (snd c) = snd (e_kernel env (ReqClose (l_fd l)) (s_os s)) \<and> l_fd (fst c) = l_fd l \<and>
    (l_closed (fst c) \<longleftrightarrow> rp_ret (fst (e_kernel env (ReqClose (l_fd l)) (s_os s))) \<noteq> -1)"
  using assms by (auto simp: listener_close_def os_close_def split: prod.splits if_splits option.splits sum.splits)

lemma step_fd: "listener_step env (l, s) c \<Longrightarrow> l_fd (fst c) = l_fd l"
  by (elim listener_stepE)
    (auto simp: listener_close_def listener_exit_def listener_del_def catchA_def
      split: option.splits prod.splits sum.splits if_splits)

section \<open>Properties\<close>

text \<open>
  The ioctl requests are the numbers of the kernel's headers. Direction, structure
  size, magic and command number combine to the documented SECCOMP_IOCTL_NOTIF values, the sizes
  being computed from the ctypes field lists.
\<close>

theorem notif_ioctl_numbers:
  "IOCTL_NOTIF_RECV = 0xC0502100 \<and> IOCTL_NOTIF_SEND = 0xC0182101 \<and>
   IOCTL_NOTIF_ID_VALID = 0x40082102 \<and> IOCTL_NOTIF_ADDFD = 0x40182103 \<and>
   IOCTL_NOTIF_SET_FLAGS = 0x40082104"
  by (simp add: notif_requests)

text \<open>
  C30. The request encoding is faithful. For every direction, command and size in range, the
  four fields of linux/ioctl.h can be read back from the number \<open>ioc\<close> computes.
\<close>

theorem ioc_fields:
  assumes "0 \<le> direction" "direction < 4" "0 \<le> nr" "nr < 256" "0 \<le> sz" "sz < 2 ^ 14"
  shows "ioc direction nr sz div 2 ^ 30 = direction \<and> ioc direction nr sz div 2 ^ 16 mod 2 ^ 14 = sz \<and>
    ioc direction nr sz div 2 ^ 8 mod 2 ^ 8 = IOC_MAGIC \<and> ioc direction nr sz mod 2 ^ 8 = nr"
proof -
  let ?x = "direction * 2 ^ 30 + sz * 2 ^ 16 + 33 * 2 ^ 8 + nr"
  have "?x div 2 ^ 8 = direction * 2 ^ 22 + sz * 2 ^ 8 + 33" using assms by simp
  moreover have "?x div 2 ^ 16 = direction * 2 ^ 14 + sz" using assms by simp
  moreover have "?x div 2 ^ 30 = direction" using assms by simp
  moreover have "?x mod 2 ^ 8 = nr"
    using mod_mult_self2 [of nr "2 ^ 8" "direction * 2 ^ 22 + sz * 2 ^ 8 + 33"] assms
    by (simp add: algebra_simps)
  moreover have "(direction * 2 ^ 14 + sz) mod 2 ^ 14 = sz" using assms by simp
  moreover have "(direction * 2 ^ 22 + sz * 2 ^ 8 + 33) mod 2 ^ 8 = 33"
    using mod_mult_self2 [of 33 "2 ^ 8" "direction * 2 ^ 14 + sz"] by (simp add: algebra_simps)
  ultimately show ?thesis
    by (simp only: ioc_sum [OF assms(3-6)] IOC_MAGIC_def) simp
qed

theorem ioc_fields_witness: "ioc 3 1 24 div 2 ^ 30 = 3 \<and> ioc 3 1 24 mod 2 ^ 8 = 1"
  using ioc_fields [of 3 1 24] by simp

lemma recv_notification_gen:
  assumes "\<not> l_closed l" and "linux env s" and "fd_ok (l_fd l)" and "wf_data d"
    and "answered env (ioctl_req (l_fd l) IOCTL_NOTIF_RECV (replicate 80 0)) s n"
    and "answer env (ioctl_req (l_fd l) IOCTL_NOTIF_RECV (replicate 80 0)) n (s_os s) = rep"
    and "rp_ret rep \<noteq> -1" and "rp_out rep = notif_bytes nid pid flags d"
  shows "recv env l s =
    Some (Inr \<lparr>n_id = uint nid, n_pid = uint pid, n_flags = uint flags, n_nr = sint (sd_nr d),
            n_arch = uint (sd_arch d), n_instruction_pointer = uint (sd_instruction_pointer d),
            n_args = map uint (sd_args d)\<rparr>,
          after_asking env (ioctl_req (l_fd l) IOCTL_NOTIF_RECV (replicate 80 0)) (Suc n) s)"
proof -
  have "recv env l s = map_option (apfst (map_sum id (\<lambda>rep. decode_notif (rp_out rep))))
      (ioctl env (l_fd l) IOCTL_NOTIF_RECV (replicate 80 0) s)"
    using assms(1) by (simp add: recv_def bindA_retA listener_ioctl_open align_up_def)
  moreover note ioctl_answer [OF assms(2,3) _ _ assms(5)]
  ultimately show ?thesis
    using assms(6-8) decode_notif_bytes [OF assms(4)] by (simp add: notif_requests reply_result_def)
qed

lemma recv_notification:
  assumes "\<not> l_closed l" and "linux env s" and "fd_ok (l_fd l)" and "wf_data d"
    and "answered env (ioctl_req (l_fd l) IOCTL_NOTIF_RECV (replicate 80 0)) s n"
    and "answer env (ioctl_req (l_fd l) IOCTL_NOTIF_RECV (replicate 80 0)) n (s_os s) =
      \<lparr>rp_ret = 0, rp_errno = 0, rp_out = notif_bytes nid pid flags d\<rparr>"
  shows "\<exists>note t. recv env l s = Some (Inr note, t) \<and> n_nr note = sint (sd_nr d) \<and> n_args note = map uint (sd_args d)"
  using recv_notification_gen [OF assms, where nid = nid and pid = pid and flags = flags] by simp

text \<open>
  C26. Receiving a notification. When the kernel answers an attempt (after any number of
  interrupted ones) with a struct seccomp_notif in the buffer, \<open>recv\<close> returns its fields: the
  identifier, the sender and the very data the filter was run on, the syscall number read as
  a signed 32-bit integer.
\<close>

theorem recv_returns_notification:
  assumes "\<not> l_closed l" and "linux env s" and "fd_ok (l_fd l)" and "wf_data d"
    and "answered env (ioctl_req (l_fd l) IOCTL_NOTIF_RECV (replicate 80 0)) s n"
    and "answer env (ioctl_req (l_fd l) IOCTL_NOTIF_RECV (replicate 80 0)) n (s_os s) = rep"
    and "rp_ret rep \<noteq> -1" and "rp_out rep = notif_bytes nid pid flags d"
  shows "recv env l s =
    Some (Inr \<lparr>n_id = uint nid, n_pid = uint pid, n_flags = uint flags, n_nr = sint (sd_nr d),
            n_arch = uint (sd_arch d), n_instruction_pointer = uint (sd_instruction_pointer d),
            n_args = map uint (sd_args d)\<rparr>,
          after_asking env (ioctl_req (l_fd l) IOCTL_NOTIF_RECV (replicate 80 0)) (Suc n) s)"
  using assms by (rule recv_notification_gen)

definition open_listener :: listener where
  "open_listener = \<lparr>l_fd = 7, l_closed = False\<rparr>"

definition sample_data :: seccomp_data where
  "sample_data = \<lparr>sd_nr = 257, sd_arch = 0xC000003E, sd_instruction_pointer = 0x1000,
     sd_args = [1, 2, 3, 4, 5, 0xFFFFFFFFFFFFFFFF]\<rparr>"

lemma open_listener_simps [simp]: "\<not> l_closed open_listener" "l_fd open_listener = 7" "fd_ok 7"
  by (simp_all add: open_listener_def fd_ok_def)

theorem recv_returns_notification_witness:
  "map_option fst (recv (second_try_env \<lparr>rp_ret = 0, rp_errno = 0, rp_out = notif_bytes 9 42 0 sample_data\<rparr>)
      open_listener fresh) =
   Some (Inr \<lparr>n_id = 9, n_pid = 42, n_flags = 0, n_nr = 257, n_arch = 0xC000003E,
     n_instruction_pointer = 0x1000, n_args = [1, 2, 3, 4, 5, 0xFFFFFFFFFFFFFFFF]\<rparr>)"
  by (subst recv_returns_notification [where n = "Suc 0" and d = sample_data and nid = 9 and pid = 42 and flags = 0, OF _ _ _ _ _ refl])
    (simp_all add: interrupted_def wf_data_def sample_data_def)

text \<open>
  C9. Sending a response. With arguments in range, and error and value both zero when CONTINUE is set,
  \<open>respond\<close> issues one kind of request: the SEND ioctl on its own descriptor with a buffer
  of the structure's size in which the kernel reads the identifier, the value as signed 64-bit,
  the negated errno as signed 32-bit and the flags. The kernel's answer decides the
  result.
\<close>

theorem respond_sends_response:
  assumes "\<not> l_closed l" and "linux env s" and "fd_ok (l_fd l)"
    and "0 \<le> nid" "nid \<le> NOTIF_U64" "0 \<le> e" "e \<le> MAX_ERRNO" "- (2 ^ 63) \<le> v" "v < 2 ^ 63"
    and "0 \<le> fl" "fl \<le> 0xFFFFFFFF" and "fl AND resp_value CONTINUE \<noteq> 0 \<longrightarrow> e = 0 \<and> v = 0"
    and "answered env (ioctl_req (l_fd l) IOCTL_NOTIF_SEND (resp_bytes nid v (- e) fl)) s n"
  shows "\<exists>buf. length buf = ct_sizeof (C_struct SeccompNotifResp) \<and> uint_at buf 0 8 = nid \<and>
    sint64_at buf 8 = v \<and> sint32_at buf 16 = - e \<and> uint_at buf 20 4 = fl \<and>
    respond env l (PyInt nid) (PyInt e) (PyInt v) (PyInt fl) s =
      Some (map_sum id (\<lambda>_. ()) (reply_result (answer env (ioctl_req (l_fd l) IOCTL_NOTIF_SEND buf) n (s_os s))),
            after_asking env (ioctl_req (l_fd l) IOCTL_NOTIF_SEND buf) (Suc n) s)"
proof (intro exI conjI)
  let ?b = "resp_bytes nid v (- e) fl"
  have "respond_args (PyInt nid) (PyInt e) (PyInt v) (PyInt fl) = Inr ?b"
    using assms(4-12) by (simp add: respond_args_def check_id_def int_in_def) blast
  then have "respond env l (PyInt nid) (PyInt e) (PyInt v) (PyInt fl) s =
      map_option (apfst (map_sum id (\<lambda>_. ()))) (ioctl env (l_fd l) IOCTL_NOTIF_SEND ?b s)"
    using assms(1) by (simp add: respond_def bindA_retA listener_ioctl_open)
  then show "respond env l (PyInt nid) (PyInt e) (PyInt v) (PyInt fl) s =
      Some (map_sum id (\<lambda>_. ()) (reply_result (answer env (ioctl_req (l_fd l) IOCTL_NOTIF_SEND ?b) n (s_os s))),
            after_asking env (ioctl_req (l_fd l) IOCTL_NOTIF_SEND ?b) (Suc n) s)"
    using ioctl_answer [OF assms(2,3) _ _ assms(13)] by (simp add: notif_requests)
qed (use resp_fields [of nid v e fl] assms(4-11) in \<open>simp_all add: NOTIF_U64_def MAX_ERRNO_def\<close>)

theorem respond_sends_response_witness:
  "\<exists>buf. length buf = 24 \<and> uint_at buf 0 8 = 9 \<and> sint64_at buf 8 = 0 \<and> sint32_at buf 16 = -13 \<and>
    uint_at buf 20 4 = 0 \<and>
    respond (second_try_env \<lparr>rp_ret = 0, rp_errno = 0, rp_out = []\<rparr>) open_listener
      (PyInt 9) (PyInt 13) (PyInt 0) (PyInt 0) fresh =
    Some (Inr (), after_asking (second_try_env \<lparr>rp_ret = 0, rp_errno = 0, rp_out = []\<rparr>)
                    (ioctl_req 7 IOCTL_NOTIF_SEND buf) 2 fresh)"
  using respond_sends_response [of open_listener "second_try_env \<lparr>rp_ret = 0, rp_errno = 0, rp_out = []\<rparr>"
      fresh 9 13 0 0 "Suc 0"]
  by (simp add: interrupted_def NOTIF_U64_def MAX_ERRNO_def reply_result_def align_up_def numeral_2_eq_2)

text \<open>
  C27. Responses that cannot be sent. Unless all arguments are ints in range and CONTINUE comes with a
  zero error and a zero value, \<open>respond\<close> raises ValueError and the kernel is not asked.
\<close>

theorem respond_rejects:
  assumes "\<not> (\<exists>i er va f. nid = PyInt i \<and> e = PyInt er \<and> v = PyInt va \<and> fl = PyInt f \<and>
        i \<in> {0..2 ^ 64 - 1} \<and> er \<in> {0..4095} \<and> va \<in> {- (2 ^ 63)..2 ^ 63 - 1} \<and> f \<in> {0..2 ^ 32 - 1} \<and>
        (odd f \<longrightarrow> er = 0 \<and> va = 0))"
  shows "\<exists>m. respond env l nid e v fl s = Some (Inl (ValueError m), s)"
proof (cases "respond_args nid e v fl")
  case (Inl x)
  then have "\<exists>m. x = ValueError m"
    by (auto simp: respond_args_def check_id_def int_in_def bindE_eq_Inl split: pyval.splits if_splits)
  with Inl show ?thesis by (auto simp: respond_def)
next
  case (Inr buf)
  have "f AND 1 \<noteq> 0 \<longleftrightarrow> odd f" for f :: int by (simp add: and_one_eq odd_iff_mod_2_eq_one)
  with Inr assms show ?thesis
    by (fastforce simp: respond_args_def check_id_def const_defs split: if_splits)
qed

theorem respond_rejects_witness:
  "\<exists>m. respond (second_try_env \<lparr>rp_ret = 0, rp_errno = 0, rp_out = []\<rparr>) open_listener
     (PyInt 9) (PyInt 13) (PyInt 0) (PyInt 1) fresh =
     Some (Inl (ValueError m), fresh)"
  by (rule respond_rejects) simp

text \<open>
  C8. No use after close. Once a listener is closed, no sequence of operations on it changes the
  listener or asks the kernel anything, so a descriptor number that has been reused is
  never touched.
\<close>

theorem closed_listener_inert:
  assumes "(listener_step env)\<^sup>*\<^sup>* (l, s) c" and "l_closed l"
  shows "c = (l, s)"
  using assms(1) by (induction rule: rtranclp_induct) (use assms(2) closed_step in fastforce)+

definition closed_listener :: listener where
  "closed_listener = \<lparr>l_fd = 7, l_closed = True\<rparr>"

theorem closed_listener_inert_witness:
  "\<exists>c. (listener_step (second_try_env \<lparr>rp_ret = 0, rp_errno = 0, rp_out = []\<rparr>))\<^sup>*\<^sup>* (closed_listener, fresh) c \<and>
     c = (closed_listener, fresh)"
proof -
  let ?E = "second_try_env \<lparr>rp_ret = 0, rp_errno = 0, rp_out = []\<rparr>"
  have closed: "l_closed closed_listener" by (simp add: closed_listener_def)
  have "recv ?E closed_listener fresh = Some (Inl (RuntimeError ''listener is closed''), fresh)"
    by (simp add: recv_def bindA_retA listener_ioctl_closed closed)
  then have "listener_step ?E (closed_listener, fresh) (closed_listener, fresh)" by (rule listener_step.recv)
  then have "(listener_step ?E)\<^sup>*\<^sup>* (closed_listener, fresh) (closed_listener, fresh)" by blast
  with closed_listener_inert [OF this closed] show ?thesis by blast
qed

lemma close_requests:
  assumes "listener_close env (l, s) = Some (r, c)"
  shows "\<exists>n \<le> 1. s_os (snd c) = asked env (ReqClose (l_fd l)) n (s_os s)"
proof (cases "l_closed l")
  case True
  with assms have "s_os (snd c) = asked env (ReqClose (l_fd l)) 0 (s_os s)" by (auto simp: close_closed)
  then show ?thesis by blast
next
  case False
  with close_open [OF assms] have "s_os (snd c) = asked env (ReqClose (l_fd l)) 1 (s_os s)" by simp
  then show ?thesis by blast
qed

lemma del_close: "listener_del env (l, s) = Some (r, c) \<Longrightarrow> \<exists>r. listener_close env (l, s) = Some (r, c)"
  by (auto simp: listener_del_def catchA_def split: option.splits prod.splits sum.splits)

text \<open>
  C16. Requests of a listener. Every operation leaves the world changed only by requests about the
  listener's own descriptor: one of the five ioctls, repeated while interrupted, or
  a single close.
\<close>

theorem listener_requests_own_fd:
  assumes "listener_step env (l, s) (l', s')"
  shows "l_fd l' = l_fd l \<and> (\<exists>r n. s_os s' = asked env r n (s_os s) \<and>
    (r = ReqClose (l_fd l) \<and> n \<le> 1 \<or>
     (\<exists>q b. r = ioctl_req (l_fd l) q b \<and> q \<in> {IOCTL_NOTIF_RECV, IOCTL_NOTIF_SEND, IOCTL_NOTIF_ID_VALID,
        IOCTL_NOTIF_ADDFD, IOCTL_NOTIF_SET_FLAGS})))"
proof
  show "l_fd l' = l_fd l" using step_fd [OF assms] by simp
  from assms show "\<exists>r n. s_os s' = asked env r n (s_os s) \<and>
    (r = ReqClose (l_fd l) \<and> n \<le> 1 \<or>
     (\<exists>q b. r = ioctl_req (l_fd l) q b \<and> q \<in> {IOCTL_NOTIF_RECV, IOCTL_NOTIF_SEND, IOCTL_NOTIF_ID_VALID,
        IOCTL_NOTIF_ADDFD, IOCTL_NOTIF_SET_FLAGS}))"
  proof (cases rule: listener_step.cases)
    case recv
    with recv_op.own_requests show ?thesis by blast
  next
    case respond
    with respond_op.own_requests show ?thesis by blast
  next
    case addfd
    with addfd_op.own_requests show ?thesis by blast
  next
    case valid
    with valid_op.own_requests show ?thesis by blast
  next
    case set_flags
    with set_flags_op.own_requests show ?thesis by blast
  next
    case close
    with close_requests show ?thesis by fastforce
  next
    case exit
    with close_requests show ?thesis by (fastforce simp: listener_exit_def)
  next
    case del
    with del_close close_requests show ?thesis by fastforce
  qed
qed

theorem listener_requests_own_fd_witness:
  "\<exists>l' s'. listener_step (second_try_env \<lparr>rp_ret = 0, rp_errno = 0, rp_out = []\<rparr>) (open_listener, fresh) (l', s') \<and>
     l_fd l' = 7"
proof -
  let ?E = "second_try_env \<lparr>rp_ret = 0, rp_errno = 0, rp_out = []\<rparr>"
  obtain l' s' where "listener_close ?E (open_listener, fresh) = Some (Inl (OSError (Some EINTR)), (l', s'))"
    by (simp add: listener_close_def os_close_def second_try_env_def open_listener_def fresh_def)
  then have step: "listener_step ?E (open_listener, fresh) (l', s')" by (rule listener_step.close)
  from listener_requests_own_fd [OF step] step show ?thesis by auto
qed

text \<open>
  Closing. A close that returns leaves the listener closed, and closing again returns
  without asking the kernel; a close the kernel refuses raises the kernel's errno and leaves
  the listener open.
\<close>

theorem listener_close_once:
  assumes "\<not> l_closed l" and "e_kernel env (ReqClose (l_fd l)) (s_os s) = (rep, w)"
  shows "listener_close env (l, s) =
      (if rp_ret rep = -1 then Some (Inl (OSError (Some (rp_errno rep))), (l, s\<lparr>s_os := w\<rparr>))
       else Some (Inr (), (l\<lparr>l_closed := True\<rparr>, s\<lparr>s_os := w\<rparr>))) \<and>
    listener_close env (l\<lparr>l_closed := True\<rparr>, t) = Some (Inr (), (l\<lparr>l_closed := True\<rparr>, t))"
  using assms by (simp add: listener_close_def os_close_def)

theorem listener_close_once_witness:
  "listener_close (second_try_env \<lparr>rp_ret = 0, rp_errno = 0, rp_out = []\<rparr>) (open_listener, \<lparr>s_libc = True, s_os = 5\<rparr>) =
     Some (Inr (), (closed_listener, \<lparr>s_libc = True, s_os = 6\<rparr>))"
  using listener_close_once [of open_listener "second_try_env \<lparr>rp_ret = 0, rp_errno = 0, rp_out = []\<rparr>"
      "\<lparr>s_libc = True, s_os = 5\<rparr>"]
  by (simp add: second_try_env_def closed_listener_def open_listener_def)

text \<open>
  C15. Ownership of the descriptor. The constructor returns an open listener on the given
  descriptor only after the kernel reported the structure sizes 80, 24 and 64. When it raises, the last thing it
  did was to close the descriptor, except when making it non-inheritable failed: then
  the descriptor is left open.
\<close>

theorem new_Listener_owns_fd:
  assumes "new_Listener env fd s = Some (r, t)"
  shows "case r of
      Inr l \<Rightarrow> l = \<lparr>l_fd = fd, l_closed = False\<rparr> \<and>
        (\<exists>u. sizes env s = Some (Inr \<lparr>seccomp_notif = 80, seccomp_notif_resp = 24, seccomp_data = 64\<rparr>, u))
    | Inl e \<Rightarrow> (\<exists>w. s_os t = snd (e_kernel env (ReqClose fd) w)) \<or>
        (\<exists>w. s_os t = snd (e_kernel env (ReqSetInheritable fd False) w) \<and>
             rp_ret (fst (e_kernel env (ReqSetInheritable fd False) w)) = -1)"
proof -
  have "EXPECTED_SIZES = \<lparr>seccomp_notif = 80, seccomp_notif_resp = 24, seccomp_data = 64\<rparr>"
    by (simp add: EXPECTED_SIZES_def align_up_def)
  with assms show ?thesis
    by (auto simp: new_Listener_def bindA_def catchA_def os_close_def os_set_inheritable_def
        split: option.splits prod.splits sum.splits if_splits) (metis snd_conv fst_conv)+
qed

text \<open>A kernel that reports the expected sizes and refuses to change the inheritable flag.\<close>

definition stubborn_env :: "request list env" where
  "stubborn_env =
     \<lparr>e_platform = ''linux'', e_machine = ''x86_64'',
      e_kernel = \<lambda>r log.
        (case r of
           ReqSyscall _ \<Rightarrow> \<lparr>rp_ret = 0, rp_errno = 0, rp_out = le_bytes 2 80 @ le_bytes 2 24 @ le_bytes 2 64\<rparr>
         | ReqSetInheritable _ _ \<Rightarrow> \<lparr>rp_ret = -1, rp_errno = 9, rp_out = []\<rparr>
         | _ \<Rightarrow> \<lparr>rp_ret = 0, rp_errno = 0, rp_out = []\<rparr>, log @ [r])\<rparr>"

definition sizes_reply :: bytes where
  "sizes_reply = le_bytes 2 80 @ le_bytes 2 24 @ le_bytes 2 64"

lemma sizes_reply_fields: "uint_at sizes_reply 0 2 = 80" "uint_at sizes_reply 2 2 = 24" "uint_at sizes_reply 4 2 = 64"
  by code_simp+

definition sizes_req :: "int \<Rightarrow> request" where
  "sizes_req nr = ReqSyscall [KInt (word_of_int nr), KInt 3, KInt 0, KBuf (replicate 6 0)]"

text \<open>A kernel that knows the structures gives the expected sizes.\<close>

lemma sizes_expected:
  assumes "linux env s" and "seccomp_nr env = Inr nr" and "answered env (sizes_req nr) s n"
    and "rp_ret (answer env (sizes_req nr) n (s_os s)) \<noteq> -1" and "rp_out (answer env (sizes_req nr) n (s_os s)) = sizes_reply"
  shows "sizes env s = Some (Inr EXPECTED_SIZES, after_asking env (sizes_req nr) (Suc n) s)"
proof -
  have "conv_args [AInt nr, AInt SECCOMP_GET_NOTIF_SIZES, AInt 0, ABuf (replicate 6 0)] =
      Inr [KInt (word_of_int nr), KInt 3, KInt 0, KBuf (replicate 6 0)]"
    using seccomp_nr_range [OF assms(2)] by (simp add: SECCOMP_GET_NOTIF_SIZES_def)
  from call_answer [OF assms(1) this, of n] assms(2-5) show ?thesis
    by (simp add: sizes_def notif_sizes_def seccomp_def align_up_def reply_result_def sizes_req_def
        sizes_layout sizes_reply_fields EXPECTED_SIZES_def)
qed

text \<open>The requests of a constructor that returns: the size query until it is answered, then one change of the flag.\<close>

lemma new_Listener_success:
  assumes "new_Listener env fd s = Some (Inr l, t)"
  obtains nr j where "seccomp_nr env = Inr nr" and "l = \<lparr>l_fd = fd, l_closed = False\<rparr>"
    and "answered env (sizes_req nr) s j" and "rp_ret (answer env (sizes_req nr) j (s_os s)) \<noteq> -1"
    and "t = s\<lparr>s_libc := True, s_os := snd (e_kernel env (ReqSetInheritable fd False) (asked env (sizes_req nr) (Suc j) (s_os s)))\<rparr>"
proof -
  obtain u where u: "sizes env s = Some (Inr EXPECTED_SIZES, u)"
    and t: "t = u\<lparr>s_os := snd (e_kernel env (ReqSetInheritable fd False) (s_os u))\<rparr>" "l = \<lparr>l_fd = fd, l_closed = False\<rparr>"
    using assms by (auto simp: new_Listener_def bindA_def catchA_def os_close_def os_set_inheritable_def
        split: option.splits prod.splits sum.splits if_splits)
  then obtain nr rep where nr: "seccomp_nr env = Inr nr"
    and c: "call env [AInt nr, AInt SECCOMP_GET_NOTIF_SIZES, AInt 0, ABuf (replicate 6 0)] s = Some (Inr rep, u)"
    by (auto simp: sizes_def notif_sizes_def seccomp_def align_up_def elim!: bindA_InrE)
  from c obtain ks j where ks: "conv_args [AInt nr, AInt SECCOMP_GET_NOTIF_SIZES, AInt 0, ABuf (replicate 6 0)] = Inr ks"
    and j: "answered env (ReqSyscall ks) s j" "rp_ret (answer env (ReqSyscall ks) j (s_os s)) \<noteq> -1"
      "u = after_asking env (ReqSyscall ks) (Suc j) s"
    by (rule call_success) blast
  have "ReqSyscall ks = sizes_req nr"
    using ks seccomp_nr_range [OF nr] by (auto simp: sizes_req_def SECCOMP_GET_NOTIF_SIZES_def)
  with j t nr that show thesis by (simp add: after_asking_def)
qed

lemma stubborn_sizes: "\<exists>t. sizes stubborn_env s = Some (Inr EXPECTED_SIZES, t)"
proof -
  have "py_lower ''x86_64'' = ''x86_64''" by code_simp
  then have "seccomp_nr stubborn_env = Inr 317"
    by (simp add: seccomp_nr_def arch_nr_def SYS_SECCOMP_def stubborn_env_def)
  from sizes_expected [OF _ this, of s 0] show ?thesis
    by (simp add: linux_def answered_def answer_def interrupted_def stubborn_env_def sizes_req_def sizes_reply_def)
qed

lemma stubborn_listener:
  "\<exists>t. new_Listener stubborn_env 5 s = Some (Inl (OSError (Some 9)), t)"
proof -
  obtain t where "sizes stubborn_env s = Some (Inr EXPECTED_SIZES, t)" using stubborn_sizes by blast
  then show ?thesis
    by (simp add: new_Listener_def os_set_inheritable_def stubborn_env_def)
qed

theorem new_Listener_owns_fd_witness:
  "\<exists>t w. new_Listener stubborn_env 5 \<lparr>s_libc = False, s_os = []\<rparr> = Some (Inl (OSError (Some 9)), t) \<and>
     (s_os t = w @ [ReqClose 5] \<or> s_os t = w @ [ReqSetInheritable 5 False])"
proof -
  obtain t where t: "new_Listener stubborn_env 5 \<lparr>s_libc = False, s_os = []\<rparr> = Some (Inl (OSError (Some 9)), t)"
    using stubborn_listener by blast
  from new_Listener_owns_fd [OF t] t show ?thesis by (auto simp: stubborn_env_def)
qed

text \<open>
  C29. Validity of a notification. \<open>valid\<close> returns False exactly when the kernel answers ENOENT
  and True when it succeeds; any other errno is raised.
\<close>

theorem valid_answer:
  assumes "\<not> l_closed l" and "linux env s" and "fd_ok (l_fd l)" and "0 \<le> nid" and "nid \<le> NOTIF_U64"
    and "answered env (ioctl_req (l_fd l) IOCTL_NOTIF_ID_VALID (le_bytes 8 nid)) s n"
    and "answer env (ioctl_req (l_fd l) IOCTL_NOTIF_ID_VALID (le_bytes 8 nid)) n (s_os s) = rep"
  shows "valid env l (PyInt nid) s =
    Some (if rp_ret rep \<noteq> -1 then Inr True
          else if rp_errno rep = ENOENT then Inr False else Inl (errno_exc (rp_errno rep)),
          after_asking env (ioctl_req (l_fd l) IOCTL_NOTIF_ID_VALID (le_bytes 8 nid)) (Suc n) s)"
proof -
  have "valid env l (PyInt nid) s =
      map_option (apfst valid_result) (ioctl env (l_fd l) IOCTL_NOTIF_ID_VALID (le_bytes 8 nid) s)"
    using assms(1,4,5) by (simp add: valid_eq check_id_def int_in_def listener_ioctl_open)
  with ioctl_answer [OF assms(2,3) _ _ assms(6)] assms(7) show ?thesis
    by (auto simp: notif_requests valid_result_def reply_result_def errno_exc_def const_defs)
qed

theorem valid_answer_witness:
  "map_option fst (valid (second_try_env \<lparr>rp_ret = -1, rp_errno = ENOENT, rp_out = []\<rparr>) open_listener (PyInt 9) fresh) =
     Some (Inr False)"
  by (subst valid_answer [where n = "Suc 0", OF _ _ _ _ _ _ refl]) (simp_all add: interrupted_def const_defs)

text \<open>The only bits O_CLOEXEC leaves; the constant is the complement of 0x80000.\<close>

lemma cloexec_bits: "(v :: int) AND - 524289 = 0 \<Longrightarrow> v = 0 \<or> v = 0x80000"
proof -
  assume "v AND - 524289 = 0"
  then have v: "v AND 2 ^ 19 = v" using subset_mask [of v "0x80000"] by simp
  have "v AND 2 ^ n = (if bit v n then 2 ^ n else 0)" for n
    by (rule bit_eqI) (auto simp: bit_and_iff bit_exp_iff)
  from this [of 19] v show ?thesis by (cases "bit v 19") simp_all
qed

text \<open>
  C28. What \<open>addfd\<close> may send. An accepted request names a target descriptor only together with SETFD,
  its descriptor flags are zero or O_CLOEXEC, and its buffer has the size the
  request number announces and holds each field where the kernel reads it.
\<close>

theorem addfd_args_checked:
  assumes "addfd_args nid fd flags newfd newfd_flags = Inr buf"
  shows "\<exists>i src fl new nf. nid = PyInt i \<and> fd = PyInt src \<and> flags = PyInt fl \<and> newfd = PyInt new \<and>
    newfd_flags = PyInt nf \<and> i \<in> {0..2 ^ 64 - 1} \<and> src \<in> {0..2 ^ 31 - 1} \<and> new \<in> {0..2 ^ 31 - 1} \<and>
    fl \<in> {0..2 ^ 32 - 1} \<and> (new \<noteq> 0 \<longrightarrow> odd fl) \<and> nf \<in> {0, 0x80000} \<and>
    buf = addfd_bytes i fl src new nf \<and> length buf = ct_sizeof (C_struct SeccompNotifAddfd) \<and>
    uint_at buf 0 8 = i \<and> uint_at buf 8 4 = fl \<and> uint_at buf 12 4 = src \<and> uint_at buf 16 4 = new \<and> uint_at buf 20 4 = nf"
proof -
  have odd: "f AND 1 \<noteq> 0 \<Longrightarrow> odd f" for f :: int by (simp add: and_one_eq odd_iff_mod_2_eq_one)
  have len: "length (addfd_bytes i fl src new nf) = ct_sizeof (C_struct SeccompNotifAddfd)" for i fl src new nf
    by (simp add: addfd_bytes_layout align_up_def)
  obtain i src fl new nf where "nid = PyInt i" "fd = PyInt src" "flags = PyInt fl" "newfd = PyInt new" "newfd_flags = PyInt nf"
    and r: "i \<in> {0..2 ^ 64 - 1}" "src \<in> {0..2 ^ 31 - 1}" "new \<in> {0..2 ^ 31 - 1}" "fl \<in> {0..2 ^ 32 - 1}"
      "new \<noteq> 0 \<longrightarrow> odd fl" "nf \<in> {0, 0x80000}"
    and buf: "buf = addfd_bytes i fl src new nf"
    using assms unfolding addfd_args_def check_id_def py_and_def guardE_def
    by (auto simp: const_defs simp del: ct_sizeof.simps dest: odd dest!: cloexec_bits split: pyval.splits if_splits)
  moreover have "nf < 2 ^ 32" "0 \<le> nf" using r(6) by auto
  ultimately show ?thesis
    using len [of i fl src new nf] addfd_fields [of i fl src new nf] by (simp del: ct_sizeof.simps)
qed

theorem addfd_args_checked_witness:
  "\<exists>buf. addfd_args (PyInt 9) (PyInt 3) (PyInt 1) (PyInt 10) (PyInt 0x80000) = Inr buf \<and> length buf = 24"
proof -
  have ok: "addfd_args (PyInt 9) (PyInt 3) (PyInt 1) (PyInt 10) (PyInt 0x80000) = Inr (addfd_bytes 9 1 3 10 0x80000)"
    by (simp add: addfd_args_def check_id_def int_in_def py_and_def guardE_def const_defs)
  from addfd_args_checked [OF this] this show ?thesis by (auto simp: align_up_def)
qed

text \<open>
  An unchecked operand in \<open>addfd\<close>. The bit test on the flags comes before the check that they are an int, so
  with a target descriptor given, flags of another type raise TypeError and not
  the ValueError of the check that follows.
\<close>

theorem addfd_flags_type_error:
  assumes "0 \<le> i" "i \<le> NOTIF_U64" "0 \<le> src" "src \<le> 0x7FFFFFFF" "0 < new" "new \<le> 0x7FFFFFFF"
    and "\<forall>k. flags \<noteq> PyInt k"
  shows "addfd env l (PyInt i) (PyInt src) flags (PyInt new) newfd_flags s =
    Some (Inl (TypeError ''unsupported operand type(s) for &''), s)"
  using assms by (cases flags) (simp_all add: addfd_def addfd_args_def check_id_def int_in_def py_and_def)

theorem addfd_flags_type_error_witness:
  "addfd (second_try_env \<lparr>rp_ret = 0, rp_errno = 0, rp_out = []\<rparr>) open_listener
     (PyInt 9) (PyInt 3) (PyStr ''SETFD'') (PyInt 10) (PyInt 0) fresh =
   Some (Inl (TypeError ''unsupported operand type(s) for &''), fresh)"
  by (rule addfd_flags_type_error) (simp_all add: NOTIF_U64_def)

end
