(* ===== verification/Filter_Load.thy ===== *)
theory Filter_Load
  imports Filter_Props Notify_Props
begin

text \<open>
  Loading a filter: \<^verbatim>\<open>Filter.load\<close> of \<^verbatim>\<open>src/seccompy/filter.py\<close> on the state of the filter and the
  process, and the life cycle of a filter as a step relation over all its operations.
\<close>

section \<open>Model\<close>

text \<open>An operation on the process, in the state of filter and process.\<close>

definition on_sys :: "('s, 'a) act \<Rightarrow> ('f \<times> 's, 'a) act" where
  "on_sys m = (\<lambda>(f, s). map_option (\<lambda>(r, s'). (r, (f, s'))) (m s))"

text \<open>The \<^verbatim>\<open>program\<close> property, which may fill the cache.\<close>

definition program_act :: "string \<Rightarrow> (sfilter \<times> 's, bytes) act" where
  "program_act machine =
     (\<lambda>(f, s). case filter_program machine f of
                 Inl e \<Rightarrow> Some (Inl e, (f, s))
               | Inr (f', p) \<Rightarrow> Some (Inr p, (f', s)))"

definition load_check :: "(sfilter \<times> 's, unit) act" where
  "load_check = (\<lambda>(f, s). Some (guardE (\<not> f_loaded f) (RuntimeError ''filter is already loaded''), (f, s)))"

definition load_install :: "'w env \<Rightarrow> bytes \<Rightarrow> (sfilter \<times> 'w sys, int) act" where
  "load_install env prog = (\<lambda>(f, s). on_sys (set_mode_filter env prog (f_flags f)) (f, s))"

definition load_finish :: "'w env \<Rightarrow> int \<Rightarrow> (sfilter \<times> 'w sys, listener option) act" where
  "load_finish env ret =
     (\<lambda>(f, s).
        let f' = f\<lparr>f_loaded := True\<rparr>
        in if f_flags f' AND flag_value NEW_LISTENER \<noteq> 0
           then bindA (on_sys (new_Listener env ret)) (\<lambda>l. retA (Some l)) (f', s)
           else Some (Inr None, (f', s)))"

definition load :: "'w env \<Rightarrow> (sfilter \<times> 'w sys, listener option) act" where
  "load env =
     bindA load_check (\<lambda>_.
     bindA (on_sys (set_no_new_privs env)) (\<lambda>_.
     bindA (program_act (e_machine env)) (\<lambda>prog.
     bindA (load_install env prog) (\<lambda>ret. load_finish env ret))))"

lemma on_sys_simps [simp]:
  "m s = Some (r, s') \<Longrightarrow> on_sys m (f, s) = Some (r, (f, s'))"
  "m s = None \<Longrightarrow> on_sys m (f, s) = None"
  by (simp_all add: on_sys_def)

lemma on_sys_eq: "on_sys m (f, s) = Some (r, c) \<longleftrightarrow> (\<exists>s'. m s = Some (r, s') \<and> c = (f, s'))"
  by (auto simp: on_sys_def)

section \<open>Paths through load\<close>

lemma load_loaded:
  "f_loaded f \<Longrightarrow> load env (f, s) = Some (Inl (RuntimeError ''filter is already loaded''), (f, s))"
  unfolding load_def by (rule bindA_simps(2)) (simp add: load_check_def guardE_def)

text \<open>Every run of load on a filter that is not loaded takes one of these paths.\<close>

lemma load_cases:
  assumes "load env (f, s) = Some (r, (f', s'))" and "\<not> f_loaded f"
  obtains (no_new_privs) e where "set_no_new_privs env s = Some (Inl e, s')" and "r = Inl e" and "f' = f"
  | (program) e where "set_no_new_privs env s = Some (Inr (), s')"
      and "filter_program (e_machine env) f = Inl e" and "r = Inl e" and "f' = f"
  | (refused) s1 p e where "set_no_new_privs env s = Some (Inr (), s1)"
      and "filter_program (e_machine env) f = Inr (f', p)"
      and "set_mode_filter env p (f_flags f') s1 = Some (Inl e, s')" and "r = Inl e"
  | (installed) s1 p f1 ret where "set_no_new_privs env s = Some (Inr (), s1)"
      and "filter_program (e_machine env) f = Inr (f1, p)"
      and "set_mode_filter env p (f_flags f1) s1 = Some (Inr ret, s')"
      and "f' = f1\<lparr>f_loaded := True\<rparr>" and "f_flags f1 AND flag_value NEW_LISTENER = 0" and "r = Inr None"
  | (listening) s1 p f1 ret s2 q where "set_no_new_privs env s = Some (Inr (), s1)"
      and "filter_program (e_machine env) f = Inr (f1, p)"
      and "set_mode_filter env p (f_flags f1) s1 = Some (Inr ret, s2)"
      and "f' = f1\<lparr>f_loaded := True\<rparr>" and "f_flags f1 AND flag_value NEW_LISTENER \<noteq> 0"
      and "new_Listener env ret s2 = Some (q, s')" and "r = map_sum id Some q"
proof -
  have "load_check (f, s) = Some (Inr (), (f, s))"
    using assms(2) by (simp add: load_check_def guardE_def)
  then have "bindA (on_sys (set_no_new_privs env)) (\<lambda>_.
      bindA (program_act (e_machine env)) (\<lambda>prog.
      bindA (load_install env prog) (\<lambda>ret. load_finish env ret))) (f, s) = Some (r, (f', s'))"
    using assms(1) unfolding load_def by simp
  then show thesis
  proof (cases rule: bindA_cases)
    case (raised e)
    with no_new_privs show thesis by (auto simp: on_sys_eq)
  next
    case (continued x u)
    then obtain s1 where nnp: "set_no_new_privs env s = Some (Inr (), s1)" and u: "u = (f, s1)"
      by (auto simp: on_sys_eq)
    from continued(2) show thesis
    proof (cases rule: bindA_cases)
      case (raised e)
      with nnp u program show thesis by (auto simp: program_act_def split: sum.splits)
    next
      case (continued p v)
      then obtain f1 where fp: "filter_program (e_machine env) f = Inr (f1, p)" and v: "v = (f1, s1)"
        using u by (auto simp: program_act_def split: sum.splits)
      from continued(2) show thesis
      proof (cases rule: bindA_cases)
        case (raised e)
        with nnp fp v refused show thesis by (auto simp: load_install_def on_sys_eq)
      next
        case (continued ret w)
        then obtain s2 where smf: "set_mode_filter env p (f_flags f1) s1 = Some (Inr ret, s2)" and w: "w = (f1, s2)"
          using v by (auto simp: load_install_def on_sys_eq)
        show thesis
        proof (cases "f_flags f1 AND flag_value NEW_LISTENER = 0")
          case True
          with continued(2) w have "f' = f1\<lparr>f_loaded := True\<rparr>" "s' = s2" "r = Inr None"
            by (auto simp: load_finish_def Let_def)
          with nnp fp smf True installed show thesis by blast
        next
          case False
          with continued(2) w obtain q where "new_Listener env ret s2 = Some (q, s')" "r = map_sum id Some q"
              "f' = f1\<lparr>f_loaded := True\<rparr>"
            by (auto simp: load_finish_def Let_def bindA_retA on_sys_eq)
          with nnp fp smf False listening show thesis by blast
        qed
      qed
    qed
  qed
qed

text \<open>What follows the installation: nothing, or the requests of the listener constructor.\<close>

definition load_ends :: "'w env \<Rightarrow> int \<Rightarrow> int \<Rightarrow> listener option \<Rightarrow> 'w sys \<Rightarrow> 'w sys \<Rightarrow> bool" where
  "load_ends env nr ret l s2 s' \<longleftrightarrow>
     (case l of
        None \<Rightarrow> s' = s2
      | Some li \<Rightarrow> \<exists>j. answered env (sizes_req nr) s2 j \<and>
          s' = s2\<lparr>s_os := snd (e_kernel env (ReqSetInheritable ret False) (asked env (sizes_req nr) (Suc j) (s_os s2)))\<rparr>)"

lemma load_requests:
  assumes "wf_filter (e_machine env) f" and "load env (f, s) = Some (Inr l, (f', s'))"
  shows "\<exists>prog nr n k ret. \<not> f_loaded f \<and> f' = f\<lparr>f_program := Some prog, f_loaded := True\<rparr> \<and>
    compile (e_machine env) f = Inr prog \<and> seccomp_nr env = Inr nr \<and> length prog div 8 \<in> {1..4096} \<and>
    answered env prctl_req s n \<and> rp_ret (answer env prctl_req n (s_os s)) \<noteq> -1 \<and>
    answered env (filter_req nr (f_flags f) prog) (after_asking env prctl_req (Suc n) s) k \<and>
    rp_ret (answer env (filter_req nr (f_flags f) prog) k (s_os (after_asking env prctl_req (Suc n) s))) = ret \<and> ret \<noteq> -1 \<and>
    load_ends env nr ret l
      (after_asking env (filter_req nr (f_flags f) prog) (Suc k) (after_asking env prctl_req (Suc n) s)) s'"
proof -
  have unloaded: "\<not> f_loaded f" using assms(2) load_loaded [of f env s] by auto
  obtain s1 prog f1 ret s2 where nnp: "set_no_new_privs env s = Some (Inr (), s1)"
    and fp: "filter_program (e_machine env) f = Inr (f1, prog)"
    and smf: "set_mode_filter env prog (f_flags f1) s1 = Some (Inr ret, s2)" and f': "f' = f1\<lparr>f_loaded := True\<rparr>"
    and fin: "case l of None \<Rightarrow> s' = s2 | Some li \<Rightarrow> new_Listener env ret s2 = Some (Inr li, s')"
    using assms(2) unloaded
  proof (cases rule: load_cases)
    case (listening s1 p f1 ret s2 q)
    then obtain li where "q = Inr li" "l = Some li" by (cases q) auto
    with listening that show thesis by simp
  qed auto
  have f1: "compile (e_machine env) f = Inr prog" "f1 = f\<lparr>f_program := Some prog\<rparr>"
    using filter_program_result [OF fp assms(1)] by simp_all
  obtain n where n: "answered env prctl_req s n" "rp_ret (answer env prctl_req n (s_os s)) \<noteq> -1"
    "s1 = after_asking env prctl_req (Suc n) s" using nnp by (rule no_new_privs_success)
  have "0 \<le> f_flags f" "f_flags f < 2 ^ 32" "f_flags f1 = f_flags f"
    using assms(1) f1(2) by (simp_all add: wf_filter_def is_u32_def)
  then obtain nr k where nr: "seccomp_nr env = Inr nr" and k: "length prog div 8 \<in> {1..4096}"
    "answered env (filter_req nr (f_flags f) prog) s1 k"
    "rp_ret (answer env (filter_req nr (f_flags f) prog) k (s_os s1)) = ret" "ret \<noteq> -1"
    "s2 = after_asking env (filter_req nr (f_flags f) prog) (Suc k) s1"
    using set_mode_filter_success [OF smf] by metis
  have "load_ends env nr ret l s2 s'"
  proof (cases l)
    case (Some li)
    with fin nr k(5) show ?thesis
      by (auto simp: load_ends_def after_asking_def elim!: new_Listener_success)
  qed (use fin in \<open>simp add: load_ends_def\<close>)
  with unloaded f' f1 n nr k show ?thesis by auto
qed

lemma load_listener:
  assumes "load env (f, s) = Some (Inr (Some l), (f', s'))"
  obtains s1 prog f1 s2 where "set_no_new_privs env s = Some (Inr (), s1)"
    and "filter_program (e_machine env) f = Inr (f1, prog)"
    and "set_mode_filter env prog (f_flags f1) s1 = Some (Inr (l_fd l), s2)"
    and "f' = f1\<lparr>f_loaded := True\<rparr>" and "f_flags f1 AND flag_value NEW_LISTENER \<noteq> 0" and "\<not> l_closed l"
proof -
  have "\<not> f_loaded f" using assms load_loaded [of f env s] by auto
  with assms show thesis
  proof (cases rule: load_cases)
    case (listening s1 prog f1 ret s2 q)
    have "q = Inr l" using listening(7) by (cases q) simp_all
    then have "l = \<lparr>l_fd = ret, l_closed = False\<rparr>" using listening(6) by (auto elim!: new_Listener_success)
    with listening that show thesis by simp
  qed simp_all
qed

text \<open>A compiled program of a length the kernel takes computes the decision.\<close>

lemma compiled_decides:
  assumes "wf_filter machine f" and "compile machine f = Inr prog" and "length prog div 8 \<le> 4096"
  obtains audit where "audit_arch machine = Inr audit" and "8 dvd length prog"
    and "\<And>d acc. wf_data d \<Longrightarrow> run_packed prog (data_bytes d) acc 0 = Inr (decision audit f d)"
proof -
  have wf: "is_u32 (f_default f)" "wf_rules (f_rules f)" using assms(1) by (simp_all add: wf_filter_def)
  obtain audit where audit: "audit_arch machine = Inr audit" "8 dvd length prog" "8 * length (filter_code audit f) \<le> length prog"
    using compile_length [OF assms(2) wf] by metis
  then have "length (filter_code audit f) \<le> 4096" using assms(3) by auto
  then have "wf_data d \<Longrightarrow> run_packed prog (data_bytes d) acc 0 = Inr (decision audit f d)" for d acc
    using compile_correct_code [OF audit(1) wf] assms(2) by fastforce
  with audit that show thesis by blast
qed

section \<open>Life cycle of a filter\<close>

text \<open>Any operation on a filter; an operation of the filter that raises leaves it unchanged.\<close>

inductive filter_step :: "'w env \<Rightarrow> sfilter \<times> 'w sys \<Rightarrow> sfilter \<times> 'w sys \<Rightarrow> bool" for env where
  allow: "filter_allow (e_machine env) f sc args = Inr f' \<Longrightarrow> wf_args args \<Longrightarrow> filter_step env (f, s) (f', s)"
| kill: "filter_kill (e_machine env) f sc args = Inr f' \<Longrightarrow> wf_args args \<Longrightarrow> filter_step env (f, s) (f', s)"
| kill_thread: "filter_kill_thread (e_machine env) f sc args = Inr f' \<Longrightarrow> wf_args args \<Longrightarrow> filter_step env (f, s) (f', s)"
| trap: "filter_trap (e_machine env) f sc args = Inr f' \<Longrightarrow> wf_args args \<Longrightarrow> filter_step env (f, s) (f', s)"
| errno: "filter_errno (e_machine env) f sc e args = Inr f' \<Longrightarrow> wf_args args \<Longrightarrow> filter_step env (f, s) (f', s)"
| trace: "filter_trace (e_machine env) f sc m args = Inr f' \<Longrightarrow> wf_args args \<Longrightarrow> filter_step env (f, s) (f', s)"
| log: "filter_log (e_machine env) f sc args = Inr f' \<Longrightarrow> wf_args args \<Longrightarrow> filter_step env (f, s) (f', s)"
| notify: "filter_notify (e_machine env) f sc args = Inr f' \<Longrightarrow> wf_args args \<Longrightarrow> filter_step env (f, s) (f', s)"
| program: "filter_program (e_machine env) f = Inr (f', p) \<Longrightarrow> filter_step env (f, s) (f', s)"
| load: "load env (f, s) = Some (r, c) \<Longrightarrow> filter_step env (f, s) c"

inductive_cases filter_stepE: "filter_step env (f, s) c"

lemma load_wf:
  assumes "load env (f, s) = Some (r, (f', s'))" and "wf_filter (e_machine env) f"
  shows "wf_filter (e_machine env) f'"
proof (cases "f_loaded f")
  case True
  with assms load_loaded [OF True, of env s] show ?thesis by simp
next
  case False
  have loaded: "wf_filter (e_machine env) (f1\<lparr>f_loaded := True\<rparr>)"
    if "filter_program (e_machine env) f = Inr (f1, p)" for f1 p
    using filter_program_result [OF that assms(2)] compile_cong [of "f1\<lparr>f_loaded := True\<rparr>" f1]
    by (auto simp: wf_filter_def)
  from assms(1) False show ?thesis
  proof (cases rule: load_cases)
    case (refused s1 p e)
    with filter_program_result assms(2) show ?thesis by blast
  qed (use assms(2) loaded in auto)
qed

lemmas methods_keep = allow.keeps_wf kill.keeps_wf kill_thread.keeps_wf trap.keeps_wf errno.keeps_wf
  trace.keeps_wf log.keeps_wf notify.keeps_wf

lemmas methods_refuse = allow.loaded_refused kill.loaded_refused kill_thread.loaded_refused
  trap.loaded_refused errno.loaded_refused trace.loaded_refused log.loaded_refused notify.loaded_refused

lemma step_wf: "filter_step env (f, s) (f', s') \<Longrightarrow> wf_filter (e_machine env) f \<Longrightarrow> wf_filter (e_machine env) f'"
  by (elim filter_stepE) (auto dest: methods_keep load_wf filter_program_result)

lemma loaded_program: "f_loaded f \<Longrightarrow> wf_filter machine f \<Longrightarrow> filter_program machine f = Inr (f', p) \<Longrightarrow> f' = f"
  by (auto simp: filter_program_def wf_filter_def)

lemma loaded_step:
  assumes "filter_step env (f, s) c" and "f_loaded f" and "wf_filter (e_machine env) f"
  shows "c = (f, s)"
  using assms(1)
proof (cases rule: filter_step.cases)
  case (program f' p)
  with loaded_program assms(2,3) show ?thesis by blast
next
  case (load r)
  with load_loaded [OF assms(2), of env s] show ?thesis by simp
qed (use methods_refuse [OF assms(2), of "e_machine env"] in \<open>metis Inl_Inr_False\<close>)+

lemma reach_wf:
  assumes "new_Filter dflt flags = Inr f0" and "(filter_step env)\<^sup>*\<^sup>* (f0, s0) c"
  shows "wf_filter (e_machine env) (fst c)"
  using assms(2)
proof (induction rule: rtranclp_induct)
  case base
  with new_Filter_wf [OF assms(1)] show ?case by simp
next
  case (step b c)
  then show ?case using step_wf [of env "fst b" "snd b" "fst c" "snd c"] by simp
qed

section \<open>Properties\<close>

text \<open>
  C6. Every reachable filter is well formed. From the constructor on, through any sequence of rule methods, program reads
  and loads, the default, the flags and every action fit 32 bits, the syscall numbers are
  distinct, every argument condition passed its checks, a cached program is the compiled
  one, and a loaded filter has one.
\<close>

theorem reachable_filters_wf:
  assumes "new_Filter dflt flags = Inr f0" and "(filter_step env)\<^sup>*\<^sup>* (f0, s0) (f, s)"
  shows "wf_filter (e_machine env) f"
  using reach_wf [OF assms] by simp

text \<open>An environment that answers every request the same way and records the requests.\<close>

definition record_env :: "reply \<Rightarrow> request list env" where
  "record_env rep =
     \<lparr>e_platform = ''linux'', e_machine = ''AMD64'', e_kernel = \<lambda>r log. (rep, log @ [r])\<rparr>"

definition idle :: "request list sys" where
  "idle = \<lparr>s_libc = False, s_os = []\<rparr>"

definition empty_filter :: sfilter where
  "empty_filter = \<lparr>f_default = 0x7FFF0000, f_flags = 0, f_rules = [], f_program = None, f_loaded = False\<rparr>"

lemma empty_filter_new: "new_Filter (PyInt 0x7FFF0000) (PyInt 0) = Inr empty_filter"
  by (simp add: new_Filter_def int_in_def empty_filter_def)

lemma kill_step:
  "filter_step (record_env rep) (empty_filter, idle)
     (empty_filter\<lparr>f_rules := [(101, [\<lparr>r_action = 0x80000000, r_args = []\<rparr>])]\<rparr>, idle)"
  by (rule filter_step.kill [where sc = "PyInt 101" and args = NoArgs])
    (simp_all add: filter_kill_def add_def check_mutable_def guardE_def empty_filter_def)

theorem reachable_filters_wf_witness:
  "wf_filter ''AMD64'' (empty_filter\<lparr>f_rules := [(101, [\<lparr>r_action = 0x80000000, r_args = []\<rparr>])]\<rparr>)"
proof -
  let ?E = "record_env \<lparr>rp_ret = 0, rp_errno = 0, rp_out = []\<rparr>"
  have "(filter_step ?E)\<^sup>*\<^sup>* (empty_filter, idle)
      (empty_filter\<lparr>f_rules := [(101, [\<lparr>r_action = 0x80000000, r_args = []\<rparr>])]\<rparr>, idle)"
    using kill_step by (rule r_into_rtranclp [of "filter_step ?E"])
  from reachable_filters_wf [OF empty_filter_new this] show ?thesis by (simp add: record_env_def)
qed

text \<open>The steps up to the installation, when the kernel accepts each of them.\<close>

lemma load_steps:
  assumes "wf_filter (e_machine env) f" and "audit_arch (e_machine env) = Inr audit"
    and "seccomp_nr env = Inr nr" and "linux env s" and "3 * insn_bound f \<le> 4096"
    and "answered env prctl_req s n" and "rp_ret (answer env prctl_req n (s_os s)) \<noteq> -1"
    and "\<And>prog. compile (e_machine env) f = Inr prog \<Longrightarrow>
      answered env (filter_req nr (f_flags f) prog) (after_asking env prctl_req (Suc n) s) k \<and>
      rp_ret (answer env (filter_req nr (f_flags f) prog) k (asked env prctl_req (Suc n) (s_os s))) \<noteq> -1"
  obtains prog where "compile (e_machine env) f = Inr prog"
    and "set_no_new_privs env s = Some (Inr (), after_asking env prctl_req (Suc n) s)"
    and "filter_program (e_machine env) f = Inr (f\<lparr>f_program := Some prog\<rparr>, prog)"
    and "set_mode_filter env prog (f_flags f) (after_asking env prctl_req (Suc n) s) =
      Some (Inr (rp_ret (answer env (filter_req nr (f_flags f) prog) k (asked env prctl_req (Suc n) (s_os s)))),
        after_asking env (filter_req nr (f_flags f) prog) (Suc k) (after_asking env prctl_req (Suc n) s))"
proof -
  let ?s1 = "after_asking env prctl_req (Suc n) s"
  have wf: "is_u32 (f_default f)" "wf_rules (f_rules f)" "is_u32 (f_flags f)" using assms(1) by (simp_all add: wf_filter_def)
  obtain prog where prog: "compile (e_machine env) f = Inr prog"
    using compile_correct [OF assms(2) wf(1,2)] assms(5) by fastforce
  obtain audit where "8 dvd length prog" "8 * length (filter_code audit f) \<le> length prog" "length prog \<le> 24 * insn_bound f"
    using compile_length [OF prog wf(1,2)] by metis
  then have len: "length prog mod 8 = 0" "0 < length prog" "length prog div 8 \<le> 4096"
    using assms(5) by (auto simp: filter_code_def)
  have "set_no_new_privs env s = Some (Inr (), ?s1)"
    using no_new_privs_answer [OF assms(4,6)] assms(7) by (simp add: Let_def)
  moreover have "filter_program (e_machine env) f = Inr (f\<lparr>f_program := Some prog\<rparr>, prog)"
    using prog assms(1) by (auto simp: filter_program_def wf_filter_def split: option.splits)
  moreover have "set_mode_filter env prog (f_flags f) ?s1 =
      Some (Inr (rp_ret (answer env (filter_req nr (f_flags f) prog) k (asked env prctl_req (Suc n) (s_os s)))),
        after_asking env (filter_req nr (f_flags f) prog) (Suc k) ?s1)"
    using set_mode_filter_answer [of env ?s1 nr "f_flags f" prog k, OF _ assms(3) _ _ len] wf(3) assms(4) assms(8) [OF prog]
    by (simp add: linux_def after_asking_def is_u32_def reply_result_def)
  ultimately show thesis using prog that by blast
qed

lemma load_returns:
  assumes "wf_filter (e_machine env) f" and "\<not> f_loaded f" and "audit_arch (e_machine env) = Inr audit"
    and "seccomp_nr env = Inr nr" and "linux env s" and "3 * insn_bound f \<le> 4096"
    and "f_flags f AND flag_value NEW_LISTENER = 0"
    and "answered env prctl_req s n" and "rp_ret (answer env prctl_req n (s_os s)) \<noteq> -1"
    and "\<And>prog. compile (e_machine env) f = Inr prog \<Longrightarrow>
      answered env (filter_req nr (f_flags f) prog) (after_asking env prctl_req (Suc n) s) k \<and>
      rp_ret (answer env (filter_req nr (f_flags f) prog) k (asked env prctl_req (Suc n) (s_os s))) \<noteq> -1"
  shows "\<exists>prog. compile (e_machine env) f = Inr prog \<and>
    load env (f, s) = Some (Inr None, (f\<lparr>f_program := Some prog, f_loaded := True\<rparr>,
      after_asking env (filter_req nr (f_flags f) prog) (Suc k) (after_asking env prctl_req (Suc n) s)))"
proof (rule load_steps [OF assms(1,3-6,8-10)])
  fix prog
  assume "compile (e_machine env) f = Inr prog"
    and "set_no_new_privs env s = Some (Inr (), after_asking env prctl_req (Suc n) s)"
    and "filter_program (e_machine env) f = Inr (f\<lparr>f_program := Some prog\<rparr>, prog)"
    and "set_mode_filter env prog (f_flags f) (after_asking env prctl_req (Suc n) s) =
      Some (Inr (rp_ret (answer env (filter_req nr (f_flags f) prog) k (asked env prctl_req (Suc n) (s_os s)))),
        after_asking env (filter_req nr (f_flags f) prog) (Suc k) (after_asking env prctl_req (Suc n) s))"
  with assms(2,7) show ?thesis
    by (simp add: load_def load_check_def guardE_def program_act_def load_install_def load_finish_def)
qed

lemma record_env_simps [simp]:
  "e_machine (record_env rep) = ''AMD64''" "linux (record_env rep) s"
  "answer (record_env rep) r n w = rep"
  "\<not> interrupted rep \<Longrightarrow> answered (record_env rep) r t 0"
  "snd (e_kernel (record_env rep) r log) = log @ [r]"
  by (simp_all add: record_env_def linux_def answer_def answered_def)

lemma seccomp_nr_record: "seccomp_nr (record_env rep) = Inr 317"
proof -
  have "py_lower ''AMD64'' = ''amd64''" by code_simp
  then show ?thesis by (simp add: seccomp_nr_def arch_nr_def SYS_SECCOMP_def)
qed

definition flagged :: "int \<Rightarrow> sfilter" where
  "flagged fl = sample_filter\<lparr>f_flags := fl\<rparr>"

lemma flagged_simps [simp]:
  "\<not> f_loaded (flagged fl)" "f_flags (flagged fl) = fl" "3 * insn_bound (flagged fl) \<le> 4096"
  "is_u32 fl \<Longrightarrow> wf_filter ''AMD64'' (flagged fl)" "flagged 0 = sample_filter"
  "\<not> f_loaded sample_filter" "f_flags sample_filter = 0" "3 * insn_bound sample_filter \<le> 4096"
  using sample_filter_wf
  by (simp_all add: flagged_def sample_filter_def insn_bound_def sample_cond_def wf_filter_def)

lemma load_flagged:
  assumes "r \<noteq> -1" and "is_u32 fl" and "fl AND flag_value NEW_LISTENER = 0"
  shows "\<exists>prog. load (record_env \<lparr>rp_ret = r, rp_errno = 0, rp_out = []\<rparr>) (flagged fl, idle) =
     Some (Inr None, (flagged fl\<lparr>f_program := Some prog, f_loaded := True\<rparr>,
       \<lparr>s_libc = True, s_os = [prctl_req, filter_req 317 fl prog]\<rparr>))"
  using load_returns [of "record_env \<lparr>rp_ret = r, rp_errno = 0, rp_out = []\<rparr>" "flagged fl" _ 317 idle 0 0]
    seccomp_nr_record audit_amd64 assms
  by (auto simp: interrupted_def after_asking_def idle_def)


text \<open>
  C11. Loading a small filter succeeds. With a supported machine on Linux, and a kernel that accepts no_new_privs and
  the compiled program (each after any number of interruptions), \<open>load\<close> of a filter whose rules are bounded by 4096
  encoded instructions returns and marks it loaded.
\<close>

theorem load_succeeds:
  assumes "wf_filter (e_machine env) f" and "\<not> f_loaded f" and "audit_arch (e_machine env) = Inr audit"
    and "seccomp_nr env = Inr nr" and "linux env s" and "3 * insn_bound f \<le> 4096"
    and "f_flags f AND flag_value NEW_LISTENER = 0"
    and "answered env prctl_req s n" and "rp_ret (answer env prctl_req n (s_os s)) \<noteq> -1"
    and "\<And>prog. compile (e_machine env) f = Inr prog \<Longrightarrow>
      answered env (filter_req nr (f_flags f) prog) (after_asking env prctl_req (Suc n) s) k \<and>
      rp_ret (answer env (filter_req nr (f_flags f) prog) k (asked env prctl_req (Suc n) (s_os s))) \<noteq> -1"
  shows "\<exists>prog. compile (e_machine env) f = Inr prog \<and>
    load env (f, s) = Some (Inr None, (f\<lparr>f_program := Some prog, f_loaded := True\<rparr>,
      after_asking env (filter_req nr (f_flags f) prog) (Suc k) (after_asking env prctl_req (Suc n) s)))"
  using assms by (rule load_returns)

theorem load_succeeds_witness:
  "\<exists>prog. load (record_env \<lparr>rp_ret = 0, rp_errno = 0, rp_out = []\<rparr>) (sample_filter, idle) =
     Some (Inr None, (sample_filter\<lparr>f_program := Some prog, f_loaded := True\<rparr>,
       \<lparr>s_libc = True, s_os = [prctl_req, filter_req 317 0 prog]\<rparr>))"
  using load_succeeds [of "record_env \<lparr>rp_ret = 0, rp_errno = 0, rp_out = []\<rparr>" "flagged 0" _ 317 idle 0 0]
    sample_filter_wf(4) seccomp_nr_record audit_amd64
  by (auto simp: interrupted_def after_asking_def idle_def)

lemma load_empty:
  "\<exists>f' s'. load (record_env \<lparr>rp_ret = 0, rp_errno = 0, rp_out = []\<rparr>) (empty_filter, idle) = Some (Inr None, (f', s')) \<and>
     f_loaded f'"
proof -
  have "wf_filter ''AMD64'' empty_filter" using new_Filter_wf [OF empty_filter_new] by blast
  then show ?thesis
    using load_returns [of "record_env \<lparr>rp_ret = 0, rp_errno = 0, rp_out = []\<rparr>" empty_filter _ 317 idle 0 0]
      seccomp_nr_record audit_amd64
    by (auto simp: interrupted_def empty_filter_def insn_bound_def)
qed

text \<open>
  What seccomp(2) documents about installed programs, \<open>inst\<close> being the list of a thread's programs in a
  state of the world: SECCOMP_SET_MODE_FILTER adds the program it points to, of up to 4096 instructions of 8 bytes, unless it fails with -1 or, under
  TSYNC without NEW_LISTENER, reports a thread that could not be synchronised by its positive id; the
  other requests of a load leave the list as it is.
\<close>

definition tsync_failed :: "int \<Rightarrow> int \<Rightarrow> bool" where
  "tsync_failed flags ret \<longleftrightarrow> flags AND 1 \<noteq> 0 \<and> flags AND 8 = 0 \<and> 0 < ret"

definition seccomp_kernel :: "'w env \<Rightarrow> ('w \<Rightarrow> bytes list) \<Rightarrow> bool" where
  "seccomp_kernel env inst \<longleftrightarrow>
     (\<forall>nr flags prog w. seccomp_nr env = Inr nr \<longrightarrow> 8 dvd length prog \<longrightarrow> length prog div 8 \<in> {1..4096} \<longrightarrow>
        inst (snd (e_kernel env (filter_req nr flags prog) w)) =
          (let ret = rp_ret (fst (e_kernel env (filter_req nr flags prog) w))
           in if ret = -1 \<or> tsync_failed flags ret then inst w else prog # inst w)) \<and>
     (\<forall>w. inst (snd (e_kernel env prctl_req w)) = inst w) \<and>
     (\<forall>nr w. seccomp_nr env = Inr nr \<longrightarrow> inst (snd (e_kernel env (sizes_req nr) w)) = inst w) \<and>
     (\<forall>fd b w. inst (snd (e_kernel env (ReqSetInheritable fd b) w)) = inst w)"

lemma asked_inst: "(\<And>w. inst (snd (e_kernel env r w)) = inst w) \<Longrightarrow> inst (asked env r n w) = inst w"
  by (induction n arbitrary: w) simp_all

lemma installed_programs:
  assumes "seccomp_kernel env inst" and "seccomp_nr env = Inr nr" and "8 dvd length prog" and "length prog div 8 \<in> {1..4096}"
    and "answered env (filter_req nr flags prog) s k"
    and "rp_ret (answer env (filter_req nr flags prog) k (s_os s)) = ret" and "ret \<noteq> -1"
  shows "inst (asked env (filter_req nr flags prog) (Suc k) (s_os s)) =
    (if tsync_failed flags ret then inst (s_os s) else prog # inst (s_os s))"
proof -
  let ?r = "filter_req nr flags prog"
  have step: "inst (asked env ?r (Suc m) (s_os s)) =
      (if rp_ret (answer env ?r m (s_os s)) = -1 \<or> tsync_failed flags (rp_ret (answer env ?r m (s_os s)))
       then inst (asked env ?r m (s_os s)) else prog # inst (asked env ?r m (s_os s)))" for m
    using assms(1-4) by (simp add: seccomp_kernel_def asked_Suc answer_def Let_def del: asked.simps)
  have "m \<le> k \<Longrightarrow> inst (asked env ?r m (s_os s)) = inst (s_os s)" for m
  proof (induction m)
    case (Suc m)
    then have "rp_ret (answer env ?r m (s_os s)) = -1" using assms(5) by (auto simp: answered_def interrupted_def)
    with Suc step [of m] show ?case by simp
  qed simp
  with step [of k] assms(6,7) show ?thesis by simp
qed

text \<open>
  C1. Loading enforces the declared decision. When \<open>load\<close> returns on a well-formed filter, the filter was not loaded before and
  is now, and the requests made are exactly these, each repeated while interrupted: no_new_privs, which was
  granted; seccomp(2) with the compiled program, of 1 to 4096 instructions, and the declared flags, which did not
  return -1; and for a listener the size query and one change of the inheritable flag. Under the documented behaviour of seccomp(2)
  exactly that program has been added to the installed ones, unless a TSYNC failure was reported, and nothing else. Run
  on any system call the program returns the decision the rules declare.
\<close>

theorem load_enforces_decision:
  assumes "wf_filter (e_machine env) f" and "load env (f, s) = Some (Inr l, (f', s'))"
  shows "\<exists>prog audit nr n k s1 s2 ret. \<not> f_loaded f \<and> f' = f\<lparr>f_program := Some prog, f_loaded := True\<rparr> \<and>
    audit_arch (e_machine env) = Inr audit \<and> seccomp_nr env = Inr nr \<and> 8 dvd length prog \<and> length prog div 8 \<in> {1..4096} \<and>
    answered env prctl_req s n \<and> rp_ret (answer env prctl_req n (s_os s)) \<noteq> -1 \<and>
    s1 = after_asking env prctl_req (Suc n) s \<and>
    answered env (filter_req nr (f_flags f) prog) s1 k \<and>
    rp_ret (answer env (filter_req nr (f_flags f) prog) k (s_os s1)) = ret \<and> ret \<noteq> -1 \<and>
    s2 = after_asking env (filter_req nr (f_flags f) prog) (Suc k) s1 \<and>
    (case l of
       None \<Rightarrow> s' = s2
     | Some li \<Rightarrow> \<exists>j. answered env (sizes_req nr) s2 j \<and>
         s' = s2\<lparr>s_os := snd (e_kernel env (ReqSetInheritable ret False) (asked env (sizes_req nr) (Suc j) (s_os s2)))\<rparr>) \<and>
    (\<forall>inst. seccomp_kernel env inst \<longrightarrow>
       inst (s_os s') = (if tsync_failed (f_flags f) ret then inst (s_os s) else prog # inst (s_os s))) \<and>
    (\<forall>d acc. wf_data d \<longrightarrow> run_packed prog (data_bytes d) acc 0 = Inr (decision audit f d))"
proof -
  obtain prog nr n k ret where unloaded: "\<not> f_loaded f" and f': "f' = f\<lparr>f_program := Some prog, f_loaded := True\<rparr>"
    and prog: "compile (e_machine env) f = Inr prog" and nr: "seccomp_nr env = Inr nr" and len: "length prog div 8 \<in> {1..4096}"
    and n: "answered env prctl_req s n" "rp_ret (answer env prctl_req n (s_os s)) \<noteq> -1"
    and k: "answered env (filter_req nr (f_flags f) prog) (after_asking env prctl_req (Suc n) s) k"
      "rp_ret (answer env (filter_req nr (f_flags f) prog) k (s_os (after_asking env prctl_req (Suc n) s))) = ret" "ret \<noteq> -1"
    and fin: "load_ends env nr ret l
      (after_asking env (filter_req nr (f_flags f) prog) (Suc k) (after_asking env prctl_req (Suc n) s)) s'"
    using load_requests [OF assms] by metis
  let ?s1 = "after_asking env prctl_req (Suc n) s"
  let ?s2 = "after_asking env (filter_req nr (f_flags f) prog) (Suc k) ?s1"
  obtain audit where audit: "audit_arch (e_machine env) = Inr audit" and dvd: "8 dvd length prog"
    and run: "\<And>d acc. wf_data d \<Longrightarrow> run_packed prog (data_bytes d) acc 0 = Inr (decision audit f d)"
    by (rule compiled_decides [OF assms(1) prog]) (use len in auto)
  have inst: "inst (s_os s') = (if tsync_failed (f_flags f) ret then inst (s_os s) else prog # inst (s_os s))"
    if "seccomp_kernel env inst" for inst
  proof -
    have "inst (s_os s') = inst (s_os ?s2)"
      using fin that nr asked_inst [of inst env "sizes_req nr"]
      by (auto simp: load_ends_def seccomp_kernel_def split: option.splits)
    also have "\<dots> = (if tsync_failed (f_flags f) ret then inst (s_os ?s1) else prog # inst (s_os ?s1))"
      using installed_programs [OF that nr dvd len k] by (simp add: after_asking_def)
    also have "inst (s_os ?s1) = inst (s_os s)"
      using that asked_inst [of inst env prctl_req] by (simp add: seccomp_kernel_def after_asking_def del: asked.simps)
    finally show ?thesis .
  qed
  from unloaded f' audit nr dvd len n k fin inst run show ?thesis
    by (intro exI [of _ prog] exI [of _ audit] exI [of _ nr] exI [of _ n] exI [of _ k] exI [of _ ?s1] exI [of _ ?s2] exI [of _ ret])
      (simp add: load_ends_def)
qed

text \<open>A kernel that grants no_new_privs and keeps the installed programs.\<close>

fun keeping_kernel :: "request \<Rightarrow> bytes list \<Rightarrow> reply \<times> bytes list" where
  "keeping_kernel (ReqSyscall [KInt nr, KInt op, KInt flags, KRef [c, (off, Ptr sz prog)]]) ps =
     (\<lparr>rp_ret = 0, rp_errno = 0, rp_out = []\<rparr>, prog # ps)"
| "keeping_kernel r ps = (\<lparr>rp_ret = 0, rp_errno = 0, rp_out = []\<rparr>, ps)"

definition keeping_env :: "bytes list env" where
  "keeping_env = \<lparr>e_platform = ''linux'', e_machine = ''AMD64'', e_kernel = keeping_kernel\<rparr>"

lemma keeping_env_simps [simp]:
  "e_machine keeping_env = ''AMD64''" "linux keeping_env s" "rp_ret (answer keeping_env r n w) = 0"
  "answered keeping_env r t 0" "seccomp_kernel keeping_env (\<lambda>ps. ps)" "seccomp_nr keeping_env = Inr 317"
proof -
  have zero: "rp_ret (fst (keeping_kernel r ps)) = 0" for r ps by (cases "(r, ps)" rule: keeping_kernel.cases) simp_all
  have "py_lower ''AMD64'' = ''amd64''" by code_simp
  then show "seccomp_nr keeping_env = Inr 317" by (simp add: seccomp_nr_def arch_nr_def SYS_SECCOMP_def keeping_env_def)
  have ans: "rp_ret (answer keeping_env r n w) = 0" for r n w by (simp add: answer_def keeping_env_def zero)
  then show "rp_ret (answer keeping_env r n w) = 0" .
  show "answered keeping_env r t 0" by (simp add: answered_def interrupted_def ans)
  show "seccomp_kernel keeping_env (\<lambda>ps. ps)"
    by (simp add: seccomp_kernel_def keeping_env_def filter_req_def prctl_req_def sizes_req_def tsync_failed_def)
qed (simp_all add: keeping_env_def linux_def)

theorem load_enforces_decision_witness:
  "\<exists>prog f' s'. load keeping_env (sample_filter, \<lparr>s_libc = False, s_os = []\<rparr>) = Some (Inr None, (f', s')) \<and>
     s_os s' = [prog] \<and> run_packed prog (data_bytes (syscall_data 101 0)) 0 0 = Inr (action_value KILL_PROCESS)"
proof -
  let ?s = "\<lparr>s_libc = False, s_os = []\<rparr> :: bytes list sys"
  have wf: "wf_filter (e_machine keeping_env) sample_filter" using sample_filter_wf(4) by simp
  obtain f' s' where load: "load keeping_env (sample_filter, ?s) = Some (Inr None, (f', s'))"
    using load_returns [OF wf, where nr = 317 and s = ?s and n = 0 and k = 0] audit_amd64 by auto
  from load_enforces_decision [OF wf load] obtain prog where
    "\<forall>inst. seccomp_kernel keeping_env inst \<longrightarrow> inst (s_os s') = prog # inst []"
    and "\<forall>d acc. wf_data d \<longrightarrow> run_packed prog (data_bytes d) acc 0 = Inr (decision 0xC000003E sample_filter d)"
    using audit_amd64 by (auto simp: tsync_failed_def)
  moreover have "decision 0xC000003E sample_filter (syscall_data 101 0) = action_value KILL_PROCESS"
    by (simp add: decision_def syscall_data_def sample_filter_def decide_syscall_def decide_rules_def rule_matches_def)
  moreover have "seccomp_kernel keeping_env (\<lambda>ps. ps)" by simp
  ultimately show ?thesis using load syscall_data_wf by metis
qed

text \<open>
  C7. A loaded filter is frozen. Once \<open>load\<close> has marked a filter as loaded, no sequence of operations changes
  its rules, its program or anything else about it, and none asks the kernel anything:
  a second load and every attempt to add a rule raise RuntimeError.
\<close>

theorem loaded_filter_frozen:
  assumes "new_Filter dflt flags = Inr f0" and "(filter_step env)\<^sup>*\<^sup>* (f0, s0) (f, s)" and "f_loaded f"
    and "(filter_step env)\<^sup>*\<^sup>* (f, s) c"
  shows "c = (f, s) \<and> load env (f, s) = Some (Inl (RuntimeError ''filter is already loaded''), (f, s)) \<and>
    add (e_machine env) f sc act args = Inl (RuntimeError ''filter is already loaded'')"
proof -
  have wf: "wf_filter (e_machine env) f" using reach_wf [OF assms(1,2)] by simp
  from assms(4) have "c = (f, s)"
    by (induction rule: rtranclp_induct) (use loaded_step [OF _ assms(3) wf] in blast)+
  with assms(3) show ?thesis by (simp add: load_loaded add_loaded)
qed

theorem loaded_filter_frozen_witness:
  "\<exists>f' s'. (filter_step (record_env \<lparr>rp_ret = 0, rp_errno = 0, rp_out = []\<rparr>))\<^sup>*\<^sup>* (empty_filter, idle) (f', s') \<and> f_loaded f' \<and>
     (\<exists>c. (filter_step (record_env \<lparr>rp_ret = 0, rp_errno = 0, rp_out = []\<rparr>))\<^sup>*\<^sup>* (f', s') c \<and> c = (f', s'))"
proof -
  let ?E = "record_env \<lparr>rp_ret = 0, rp_errno = 0, rp_out = []\<rparr>"
  obtain f' s' where load: "load ?E (empty_filter, idle) = Some (Inr None, (f', s'))" and loaded: "f_loaded f'"
    using load_empty by blast
  then have reach: "(filter_step ?E)\<^sup>*\<^sup>* (empty_filter, idle) (f', s')"
    using r_into_rtranclp [of "filter_step ?E"] filter_step.load by fast
  have "load ?E (f', s') = Some (Inl (RuntimeError ''filter is already loaded''), (f', s'))"
    using loaded by (rule load_loaded)
  then have again: "(filter_step ?E)\<^sup>*\<^sup>* (f', s') (f', s')"
    using r_into_rtranclp [of "filter_step ?E"] filter_step.load by fast
  from loaded_filter_frozen [OF empty_filter_new reach loaded again] reach loaded again show ?thesis by blast
qed

text \<open>
  C25. A failed load leaves no trace on the rules. When \<open>load\<close> raises on a filter without NEW_LISTENER, the filter is still not loaded and has the
  same rules, default and flags; at most its program cache has been filled.
\<close>

theorem failed_load_keeps_filter:
  assumes "load env (f, s) = Some (Inl e, (f', s'))" and "\<not> f_loaded f" and "f_flags f AND flag_value NEW_LISTENER = 0"
  shows "\<not> f_loaded f' \<and> (f' = f \<or> (\<exists>p. compile (e_machine env) f = Inr p \<and> f' = f\<lparr>f_program := Some p\<rparr>))"
proof -
  have prog: "f1 = f \<or> (\<exists>p. compile (e_machine env) f = Inr p \<and> f1 = f\<lparr>f_program := Some p\<rparr>)"
    if "filter_program (e_machine env) f = Inr (f1, q)" for f1 q
    using that by (auto simp: filter_program_def split: option.splits)
  from assms(1,2) show ?thesis
  proof (cases rule: load_cases)
    case (refused s1 p e)
    with prog assms(2) show ?thesis by fastforce
  next
    case (listening s1 p f1 ret s2 q)
    then have "f_flags f1 = f_flags f" using prog [OF listening(2)] by auto
    with listening(5) assms(3) show ?thesis by simp
  qed (use assms(2) in simp_all)
qed

lemma load_refused_sample:
  "\<exists>f' s'. load (record_env \<lparr>rp_ret = -1, rp_errno = 1, rp_out = []\<rparr>) (sample_filter, idle) =
     Some (Inl (SeccompError 1), (f', s'))"
proof -
  let ?E = "record_env \<lparr>rp_ret = -1, rp_errno = 1, rp_out = []\<rparr>"
  have "set_no_new_privs ?E idle = Some (Inl (SeccompError 1), after_asking ?E prctl_req (Suc 0) idle)"
    using no_new_privs_answer [of ?E idle 0] by (simp add: interrupted_def EINTR_def Let_def)
  then show ?thesis
    by (simp add: load_def load_check_def guardE_def)
qed

theorem failed_load_keeps_filter_witness:
  "\<exists>f' s'. load (record_env \<lparr>rp_ret = -1, rp_errno = 1, rp_out = []\<rparr>) (sample_filter, idle) =
     Some (Inl (SeccompError 1), (f', s')) \<and> \<not> f_loaded f'"
proof -
  obtain f' s' where l: "load (record_env \<lparr>rp_ret = -1, rp_errno = 1, rp_out = []\<rparr>) (sample_filter, idle) =
      Some (Inl (SeccompError 1), (f', s'))" using load_refused_sample by blast
  from failed_load_keeps_filter [OF l] l show ?thesis by simp
qed

text \<open>
  C21. The cached program is the current one. Whatever rule methods, program reads and loads a filter has gone
  through, reading \<open>filter_program\<close> returns what compiling its current rules gives, although the bytes may come from the
  cache; reading it again returns the same bytes and leaves the filter as it is.
\<close>

theorem program_cache_consistent:
  assumes "new_Filter dflt flags = Inr f0" and "(filter_step env)\<^sup>*\<^sup>* (f0, s0) (f, s)"
    and "filter_program (e_machine env) f = Inr (f', p)"
  shows "compile (e_machine env) (f\<lparr>f_program := None\<rparr>) = Inr p \<and> f' = f\<lparr>f_program := Some p\<rparr> \<and>
    filter_program (e_machine env) f' = Inr (f', p)"
proof -
  have wf: "wf_filter (e_machine env) f" using reach_wf [OF assms(1,2)] by simp
  have "compile (e_machine env) (f\<lparr>f_program := None\<rparr>) = compile (e_machine env) f" by (rule compile_cong) simp_all
  with filter_program_result [OF assms(3) wf] show ?thesis by (simp add: filter_program_def)
qed

theorem program_cache_consistent_witness:
  "\<exists>f p f' q g. (filter_step (record_env \<lparr>rp_ret = 0, rp_errno = 0, rp_out = []\<rparr>))\<^sup>*\<^sup>* (empty_filter, idle) (f, idle) \<and>
     f_program f = Some p \<and> filter_kill ''AMD64'' f (PyInt 101) NoArgs = Inr f' \<and>
     filter_program ''AMD64'' f' = Inr (g, q) \<and> compile ''AMD64'' (f'\<lparr>f_program := None\<rparr>) = Inr q"
proof -
  let ?E = "record_env \<lparr>rp_ret = 0, rp_errno = 0, rp_out = []\<rparr>"
  let ?g = "empty_filter\<lparr>f_rules := [(101, [\<lparr>r_action = 0x80000000, r_args = []\<rparr>])]\<rparr>"
  have ok: "\<exists>p. compile ''AMD64'' h = Inr p" if "f_default h = 0x7FFF0000" "f_rules h = [] \<or> f_rules h = f_rules ?g" for h
    by (rule compile_correct [OF audit_amd64, of h]) (use that in \<open>auto simp: is_u32_def wf_rules_def wf_rule_def insn_bound_def\<close>)
  obtain p where p: "compile ''AMD64'' empty_filter = Inr p" using ok [of empty_filter] by (auto simp: empty_filter_def)
  let ?f = "empty_filter\<lparr>f_program := Some p\<rparr>"
  have "filter_step ?E (empty_filter, idle) (?f, idle)"
    by (rule filter_step.program) (use p in \<open>simp add: filter_program_def empty_filter_def\<close>)
  then have reach: "(filter_step ?E)\<^sup>*\<^sup>* (empty_filter, idle) (?f, idle)" by (rule r_into_rtranclp)
  have kill: "filter_kill ''AMD64'' ?f (PyInt 101) NoArgs = Inr ?g"
    by (simp add: filter_kill_def add_def check_mutable_def guardE_def empty_filter_def)
  then have "filter_step ?E (?f, idle) (?g, idle)"
    by (intro filter_step.kill [where sc = "PyInt 101" and args = NoArgs]) simp_all
  with reach have reach2: "(filter_step ?E)\<^sup>*\<^sup>* (empty_filter, idle) (?g, idle)" by (rule rtranclp.rtrancl_into_rtrancl)
  obtain q where "compile ''AMD64'' ?g = Inr q" using ok [of ?g] by (auto simp: empty_filter_def)
  then obtain g where q: "filter_program (e_machine ?E) ?g = Inr (g, q)" by (simp add: filter_program_def empty_filter_def)
  from program_cache_consistent [OF empty_filter_new reach2 q] reach kill q show ?thesis
    by (intro exI [of _ ?f] exI [of _ p] exI [of _ ?g] exI [of _ q] exI [of _ g]) simp
qed

text \<open>
  A positive result of TSYNC counts as success. With the TSYNC flag seccomp(2) reports a thread that could not be
  synchronised by returning its thread id and installs nothing; \<open>load\<close> treats this like zero: it returns
  None and marks the filter loaded.
\<close>

theorem load_ignores_tsync_failure:
  assumes "\<not> f_loaded f" and "f_flags f = flag_value TSYNC"
    and "set_no_new_privs env s = Some (Inr (), s1)" and "filter_program (e_machine env) f = Inr (f1, p)"
    and "set_mode_filter env p (f_flags f1) s1 = Some (Inr tid, s2)" and "0 < tid"
  shows "load env (f, s) = Some (Inr None, (f1\<lparr>f_loaded := True\<rparr>, s2))"
proof -
  have "f_flags f1 = flag_value TSYNC"
    using assms(2,4) by (auto simp: filter_program_def split: option.splits)
  then have "f_flags f1 AND flag_value NEW_LISTENER = 0" by simp
  with assms show ?thesis
    by (simp add: load_def load_check_def guardE_def program_act_def load_install_def load_finish_def)
qed

theorem load_ignores_tsync_failure_witness:
  "\<exists>f' s'. load (record_env \<lparr>rp_ret = 4242, rp_errno = 0, rp_out = []\<rparr>) (flagged 1, idle) = Some (Inr None, (f', s')) \<and>
     f_loaded f'"
proof -
  let ?E = "record_env \<lparr>rp_ret = 4242, rp_errno = 0, rp_out = []\<rparr>"
  obtain f' s' where l: "load ?E (flagged 1, idle) = Some (Inr None, (f', s'))"
    using load_flagged [of 4242 1] by (auto simp: is_u32_def)
  have "\<not> f_loaded (flagged 1)" by simp
  with l show ?thesis
  proof (cases rule: load_cases)
    case (installed s1 p f1 ret)
    have "f_flags f1 = 1" using installed(2) by (auto simp: filter_program_def split: option.splits)
    then have "ret = 4242" using installed(3) set_mode_filter_success [of ?E p 1 s1 ret s'] by auto
    with load_ignores_tsync_failure [OF _ _ installed(1-3)] l show ?thesis by simp
  next
    case (listening s1 p f1 ret s2 q)
    then show ?thesis by (cases q) simp_all
  qed simp_all
qed

end
