(* ===== verification/Policy.thy ===== *)
theory Policy
  imports Filter_Load
begin

text \<open>
  The contract of a Filter, without dicts, labels or programs: a policy decides a system call or leaves
  it open. Building a filter with the rule methods refines building a policy, and the
  compiled program computes the policy of the filter.
\<close>

section \<open>Abstract policies\<close>

type_synonym policy = "seccomp_data \<Rightarrow> int option"

definition undecided :: policy where
  "undecided = (\<lambda>d. None)"

text \<open>A policy amended for the calls of one syscall that meet a condition; decisions taken stay.\<close>

definition amend :: "int \<Rightarrow> (seccomp_data \<Rightarrow> bool) \<Rightarrow> int \<Rightarrow> policy \<Rightarrow> policy" where
  "amend nr meets act p =
     (\<lambda>d. case p d of
            Some a \<Rightarrow> Some a
          | None \<Rightarrow> if uint (sd_nr d) = nr \<and> meets d then Some act else None)"

definition policy_of :: "sfilter \<Rightarrow> policy" where
  "policy_of f = (\<lambda>d. decide_rules d (rules_for f (uint (sd_nr d))))"

lemma policy_extends:
  "extends f nr r f' \<Longrightarrow> policy_of f' = amend nr (\<lambda>d. list_all (cond_holds d) (r_args r)) (r_action r) (policy_of f)"
  by (auto simp: policy_of_def amend_def extends_rules_for decide_rules_snoc rule_matches_def fun_eq_iff split: option.split)

lemma amend_mono: "p d = Some a \<Longrightarrow> amend nr meets act p d = Some a"
  by (simp add: amend_def)

lemma amend_commute:
  "nr \<noteq> nr' \<Longrightarrow> amend nr cs a (amend nr' cs' a' p) = amend nr' cs' a' (amend nr cs a p)"
  by (auto simp: amend_def fun_eq_iff split: option.split)

section \<open>Scripts of rule methods\<close>

datatype rule_op =
    OpAllow pyval args | OpKill pyval args | OpKillThread pyval args | OpTrap pyval args
  | OpErrno pyval pyval args | OpTrace pyval pyval args | OpLog pyval args | OpNotify pyval args

fun run_op :: "string \<Rightarrow> rule_op \<Rightarrow> sfilter \<Rightarrow> sfilter result" where
  "run_op machine (OpAllow sc as) f = filter_allow machine f sc as"
| "run_op machine (OpKill sc as) f = filter_kill machine f sc as"
| "run_op machine (OpKillThread sc as) f = filter_kill_thread machine f sc as"
| "run_op machine (OpTrap sc as) f = filter_trap machine f sc as"
| "run_op machine (OpErrno sc e as) f = filter_errno machine f sc e as"
| "run_op machine (OpTrace sc m as) f = filter_trace machine f sc m as"
| "run_op machine (OpLog sc as) f = filter_log machine f sc as"
| "run_op machine (OpNotify sc as) f = filter_notify machine f sc as"

fun run_ops :: "string \<Rightarrow> rule_op list \<Rightarrow> sfilter \<Rightarrow> sfilter result" where
  "run_ops machine [] f = Inr f"
| "run_ops machine (x # xs) f = bindE (run_op machine x f) (run_ops machine xs)"

text \<open>What each method means: the syscall it names, the action it gives, and, by \<open>args_hold\<close>, which calls it is about.\<close>

fun op_parts :: "rule_op \<Rightarrow> pyval \<times> int \<times> args" where
  "op_parts (OpAllow sc as) = (sc, 0x7FFF0000, as)"
| "op_parts (OpKill sc as) = (sc, 0x80000000, as)"
| "op_parts (OpKillThread sc as) = (sc, 0, as)"
| "op_parts (OpTrap sc as) = (sc, 0x30000, as)"
| "op_parts (OpErrno sc e as) = (sc, 0x50000 + payload e, as)"
| "op_parts (OpTrace sc m as) = (sc, 0x7FF00000 + payload m, as)"
| "op_parts (OpLog sc as) = (sc, 0x7FFC0000, as)"
| "op_parts (OpNotify sc as) = (sc, 0x7FC00000, as)"

definition spec_op :: "string \<Rightarrow> rule_op \<Rightarrow> policy \<Rightarrow> policy" where
  "spec_op machine x p =
     (case op_parts x of
        (sc, act, as) \<Rightarrow>
          (case syscall_nr machine sc of
             Inr nr \<Rightarrow> amend nr (\<lambda>d. args_hold d as) act p
           | Inl e \<Rightarrow> p))"

definition spec_ops :: "string \<Rightarrow> rule_op list \<Rightarrow> policy \<Rightarrow> policy" where
  "spec_ops machine xs p = fold (spec_op machine) xs p"

lemma add_policy:
  assumes "add machine f sc act as = Inr f'"
  shows "\<exists>nr. syscall_nr machine sc = Inr nr \<and>
    policy_of f' = amend nr (\<lambda>d. args_hold d as) act (policy_of f) \<and> f_default f' = f_default f"
proof -
  obtain nr conds where "syscall_nr machine sc = Inr nr" and conds: "conds_of as = Inr conds"
    and "extends f nr \<lparr>r_action = act, r_args = conds\<rparr> f'"
    using assms by (auto simp: add_def extends_def rules_for_def)
  with policy_extends conds_of_means [OF conds] show ?thesis by (fastforce simp: extends_def)
qed

lemma run_op_add:
  assumes "run_op machine x f = Inr f'"
  shows "case op_parts x of (sc, act, as) \<Rightarrow> add machine f sc act as = Inr f'"
  using assms action_payload
  by (cases x) (auto simp: filter_allow_def filter_kill_def filter_kill_thread_def filter_trap_def filter_errno_def
      filter_trace_def filter_log_def filter_notify_def payload_def)

lemma run_op_policy:
  assumes "run_op machine x f = Inr f'"
  shows "policy_of f' = spec_op machine x (policy_of f)" and "f_default f' = f_default f"
proof -
  obtain sc act as where parts: "op_parts x = (sc, act, as)" by (cases "op_parts x")
  with run_op_add [OF assms] have "add machine f sc act as = Inr f'" by simp
  from add_policy [OF this] parts
  show "policy_of f' = spec_op machine x (policy_of f)" and "f_default f' = f_default f"
    by (auto simp: spec_op_def)
qed

lemma run_ops_policy:
  "run_ops machine xs f = Inr f' \<Longrightarrow>
   policy_of f' = spec_ops machine xs (policy_of f) \<and> f_default f' = f_default f"
proof (induction xs arbitrary: f)
  case (Cons x xs)
  then obtain f1 where "run_op machine x f = Inr f1" "run_ops machine xs f1 = Inr f'" by auto
  with Cons.IH [of f1] run_op_policy [of machine x f f1] show ?case by (simp add: spec_ops_def)
qed (simp add: spec_ops_def)

lemma run_op_wf:
  assumes "run_op machine x f = Inr f'" and "wf_args (snd (snd (op_parts x)))" and "wf_filter machine f"
  shows "wf_filter machine f'"
  using assms by (cases x) (auto dest: methods_keep)

lemma run_ops_wf:
  "run_ops machine xs f = Inr f' \<Longrightarrow> list_all (\<lambda>x. wf_args (snd (snd (op_parts x)))) xs \<Longrightarrow>
   wf_filter machine f \<Longrightarrow> wf_filter machine f'"
proof (induction xs arbitrary: f)
  case (Cons x xs)
  then obtain f1 where "run_op machine x f = Inr f1" "run_ops machine xs f1 = Inr f'" by auto
  with Cons run_op_wf [of machine x f f1] show ?case by simp
qed simp

lemma decision_policy:
  "decision audit f d =
     (if uint (sd_arch d) = audit then (case policy_of f d of None \<Rightarrow> f_default f | Some a \<Rightarrow> a) else 0x80000000)"
  by (simp add: decision_def decide_syscall_rules policy_of_def)

text \<open>The program of a filter built by a script computes what the script specifies.\<close>

lemma script_program:
  assumes "new_Filter dflt flags = Inr f0" and "run_ops machine script f0 = Inr f"
    and "list_all (\<lambda>x. wf_args (snd (snd (op_parts x)))) script"
    and "audit_arch machine = Inr audit" and "3 * insn_bound f < 2 ^ 32"
  shows "\<exists>f' prog. filter_program machine f = Inr (f', prog) \<and>
    (\<forall>d acc. wf_data d \<longrightarrow> run_packed prog (data_bytes d) acc 0 =
       Inr (if uint (sd_arch d) = audit
            then (case spec_ops machine script undecided d of None \<Rightarrow> f_default f0 | Some a \<Rightarrow> a)
            else 0x80000000))"
proof -
  have f0: "wf_filter machine f0" "policy_of f0 = undecided"
    using new_Filter_wf [OF assms(1)]
    by (auto simp: policy_of_def undecided_def rules_for_def decide_rules_def fun_eq_iff)
  have pol: "policy_of f = spec_ops machine script undecided" "f_default f = f_default f0"
    using run_ops_policy [OF assms(2)] f0(2) by simp_all
  have wf: "wf_filter machine f" using run_ops_wf [OF assms(2,3) f0(1)] .
  obtain prog where prog: "compile machine f = Inr prog"
    and run: "\<And>d acc. wf_data d \<Longrightarrow> run_packed prog (data_bytes d) acc 0 = Inr (decision audit f d)"
    using compile_correct [OF assms(4) _ _ assms(5)] wf by (auto simp: wf_filter_def)
  have "\<exists>f'. filter_program machine f = Inr (f', prog)"
    using prog wf by (auto simp: filter_program_def wf_filter_def split: option.split)
  then show ?thesis using run by (auto simp: decision_policy pol split: option.split)
qed

text \<open>A call whose number no method of a script gives is left open.\<close>

lemma spec_ops_other:
  assumes "list_all (\<lambda>x. case fst (op_parts x) of PyInt nr \<Rightarrow> nr < 0x40000000 | _ \<Rightarrow> True) script"
    and "0x40000000 \<le> uint (sd_nr d)" and "p d = None"
  shows "spec_ops machine script p d = None"
  using assms(1,3)
proof (induction script arbitrary: p)
  case (Cons x xs)
  have "nr < 0x40000000" if "syscall_nr machine (fst (op_parts x)) = Inr nr" for nr
    using Cons.prems(1) that syscall_nr_native [of machine _ nr]
    by (cases "fst (op_parts x)") (auto split: if_splits simp del: syscall_nr.simps(2))
  then have "spec_op machine x p d = None"
    using Cons.prems(2) assms(2) by (fastforce simp: spec_op_def amend_def split: prod.splits sum.splits)
  with Cons show ?case by (simp add: spec_ops_def)
qed (simp add: spec_ops_def)

lemma x32_number:
  assumes "bit (w :: 32 word) 30"
  shows "0x40000000 \<le> uint w"
proof (rule ccontr)
  assume "\<not> 0x40000000 \<le> uint w"
  then have "take_bit 30 (uint w) = uint w" by (simp add: take_bit_int_eq_self_iff)
  then have "\<not> bit (uint w) 30" by (metis bit_take_bit_iff less_irrefl)
  with assms show False by (simp add: bit_uint_iff)
qed

section \<open>Properties\<close>

text \<open>
  C3. Building a filter refines building a policy. Whatever script of rule methods is run on a new filter, the program
  it compiles to computes the policy the script specifies: each method amends the undecided
  calls of its syscall, the default takes the rest, and a foreign architecture is killed.
\<close>

theorem filter_refines_policy:
  assumes "new_Filter dflt flags = Inr f0" and "run_ops machine script f0 = Inr f"
    and "list_all (\<lambda>x. wf_args (snd (snd (op_parts x)))) script"
    and "audit_arch machine = Inr audit" and "3 * insn_bound f < 2 ^ 32"
  shows "\<exists>f' prog. filter_program machine f = Inr (f', prog) \<and>
    (\<forall>d acc. wf_data d \<longrightarrow> run_packed prog (data_bytes d) acc 0 =
       Inr (if uint (sd_arch d) = audit
            then (case spec_ops machine script undecided d of None \<Rightarrow> f_default f0 | Some a \<Rightarrow> a)
            else 0x80000000))"
  using assms by (rule script_program)

theorem filter_refines_policy_witness:
  "\<exists>f' prog. filter_program ''AMD64'' sample_filter = Inr (f', prog) \<and>
     run_packed prog (data_bytes (syscall_data 1 7)) 0 0 = Inr 0x5000D"
proof -
  let ?f0 = "empty_filter" and ?script = "[OpErrno (PyInt 1) (PyInt 13) (ArgsSeq [CondTuple [PyInt 0, PyInt 4, PyInt 2]]),
      OpKill (PyInt 101) NoArgs]"
  have script: "run_ops ''AMD64'' ?script ?f0 = Inr sample_filter"
    using sample_filter_built by (simp add: empty_filter_new bindE_assoc [symmetric])
  have "spec_ops ''AMD64'' ?script undecided (syscall_data 1 7) = Some 0x5000D"
    by (simp add: spec_ops_def spec_op_def amend_def undecided_def syscall_data_def payload_def tuple_means_def op_means_def)
  with filter_refines_policy [OF empty_filter_new script _ audit_amd64 sample_filter_wf(3)] syscall_data_wf
  show ?thesis by (fastforce simp: syscall_data_def)
qed

text \<open>
  C24. Order across syscalls does not matter. Two rule methods that name different syscalls can be called in either order: the
  filters differ in the order of their dict and in their program, but decide every system
  call alike.
\<close>

theorem rule_order_across_syscalls:
  assumes "run_ops machine [x, y] f = Inr f1" and "run_ops machine [y, x] f = Inr f2"
    and "syscall_nr machine (fst (op_parts x)) \<noteq> syscall_nr machine (fst (op_parts y))"
  shows "decision audit f1 d = decision audit f2 d"
proof -
  have "spec_op machine y (spec_op machine x p) = spec_op machine x (spec_op machine y p)" for p
    using assms(3) amend_commute
    by (auto simp: spec_op_def split: prod.splits sum.splits)
  then have "policy_of f1 = policy_of f2" and "f_default f1 = f_default f2"
    using run_ops_policy [OF assms(1)] run_ops_policy [OF assms(2)] by (simp_all add: spec_ops_def)
  then show ?thesis by (simp add: decision_policy split: option.split)
qed

theorem rule_order_across_syscalls_witness:
  "\<exists>f1 f2. run_ops ''AMD64'' [OpKill (PyInt 101) NoArgs, OpAllow (PyInt 2) NoArgs] empty_filter = Inr f1 \<and>
     run_ops ''AMD64'' [OpAllow (PyInt 2) NoArgs, OpKill (PyInt 101) NoArgs] empty_filter = Inr f2 \<and> f1 \<noteq> f2 \<and>
     decision 0xC000003E f1 (syscall_data 101 0) = decision 0xC000003E f2 (syscall_data 101 0)"
proof -
  obtain f1 f2 where f1: "run_ops ''AMD64'' [OpKill (PyInt 101) NoArgs, OpAllow (PyInt 2) NoArgs] empty_filter = Inr f1"
    and f2: "run_ops ''AMD64'' [OpAllow (PyInt 2) NoArgs, OpKill (PyInt 101) NoArgs] empty_filter = Inr f2" and "f1 \<noteq> f2"
    by (simp add: filter_kill_def filter_allow_def add_def check_mutable_def guardE_def empty_filter_def)
  moreover have "syscall_nr ''AMD64'' (fst (op_parts (OpKill (PyInt 101) NoArgs))) \<noteq>
      syscall_nr ''AMD64'' (fst (op_parts (OpAllow (PyInt 2) NoArgs)))" by simp
  ultimately show ?thesis using rule_order_across_syscalls [OF f1 f2] by blast
qed

text \<open>
  C39. Rules do not reach the x32 ABI. Calls of that ABI report the architecture of x86_64 and set bit 30 of the number. On an
  x86_64 machine a filter built by methods that name their syscalls, or give numbers below that bit, returns
  the default for each of them, whatever native calls the rules refuse.
\<close>

theorem x32_call_gets_default:
  assumes "arch machine = Inr ''x86_64''" and "new_Filter dflt flags = Inr f0" and "run_ops machine script f0 = Inr f"
    and "list_all (\<lambda>x. wf_args (snd (snd (op_parts x)))) script" and "3 * insn_bound f < 2 ^ 32"
    and "list_all (\<lambda>x. case fst (op_parts x) of PyInt nr \<Rightarrow> nr < 0x40000000 | _ \<Rightarrow> True) script"
    and "wf_data d" and "uint (sd_arch d) = 0xC000003E" and "bit (sd_nr d) 30"
  shows "\<exists>f' prog. filter_program machine f = Inr (f', prog) \<and> run_packed prog (data_bytes d) acc 0 = Inr (f_default f0)"
proof -
  obtain audit table where native: "native machine = Inr (''x86_64'', audit, table)" using assms(1) by (auto simp: arch_def)
  then have "audit = 0xC000003E" by (cases rule: native_cases) (simp_all add: AUDIT_ARCH_X86_64_def)
  with native have "audit_arch machine = Inr 0xC000003E" by (simp add: audit_arch_def)
  then obtain f' prog where "filter_program machine f = Inr (f', prog)"
    and "run_packed prog (data_bytes d) acc 0 =
      Inr (case spec_ops machine script undecided d of None \<Rightarrow> f_default f0 | Some a \<Rightarrow> a)"
    using script_program [OF assms(2-4) _ assms(5)] assms(7,8) by fastforce
  moreover have "spec_ops machine script undecided d = None"
    using assms(6) x32_number [OF assms(9)] by (intro spec_ops_other) (simp_all add: undecided_def)
  ultimately show ?thesis by auto
qed

theorem x32_call_gets_default_witness:
  "\<exists>f f' prog. run_ops ''AMD64'' [OpKill (PyStr ''openat'') NoArgs] empty_filter = Inr f \<and>
     policy_of f (syscall_data 257 0) = Some 0x80000000 \<and> filter_program ''AMD64'' f = Inr (f', prog) \<and>
     run_packed prog (data_bytes (syscall_data (0x40000000 + 257) 0)) 0 0 = Inr 0x7FFF0000"
proof -
  let ?f = "empty_filter\<lparr>f_rules := [(257, [\<lparr>r_action = 0x80000000, r_args = []\<rparr>])]\<rparr>"
  have script: "run_ops ''AMD64'' [OpKill (PyStr ''openat'') NoArgs] empty_filter = Inr ?f"
    by (simp add: filter_kill_def add_def check_mutable_def guardE_def empty_filter_def openat_x86_64 del: syscall_nr.simps)
  have arch: "arch ''AMD64'' = Inr ''x86_64''" by (simp add: arch_def native_amd64)
  have "policy_of ?f (syscall_data 257 0) = Some 0x80000000"
    by (simp add: policy_of_def rules_for_def decide_rules_def rule_matches_def syscall_data_def)
  moreover have "\<exists>f' prog. filter_program ''AMD64'' ?f = Inr (f', prog) \<and>
      run_packed prog (data_bytes (syscall_data (0x40000000 + 257) 0)) 0 0 = Inr (f_default empty_filter)"
    by (rule x32_call_gets_default [OF arch empty_filter_new script])
      (simp_all add: syscall_data_wf insn_bound_def, simp_all add: syscall_data_def)
  ultimately show ?thesis using script by (auto simp: empty_filter_def)
qed

end
