(* ===== verification/Public_Api.thy ===== *)
theory Public_Api
  imports Filter_Load
begin

text \<open>
  The feature probes of \<^verbatim>\<open>src/seccompy/__init__.py\<close> and the forked probe of
  \<^verbatim>\<open>src/seccompy/testing.py\<close>.
\<close>

section \<open>Feature probes\<close>

definition supported :: "'w env \<Rightarrow> ('w sys, bool) act" where
  "supported env =
     catchA (bindA (action_avail env (action_value ALLOW)) (\<lambda>_. retA True))
       (\<lambda>e. if is_UnsupportedError e then
              catchA (probe_flag env 0) (\<lambda>e'. if is_UnsupportedError e' then retA False else raiseA e')
            else if is_SeccompError e then
              if exc_errno e = Some EINVAL then retA True else raiseA e
            else raiseA e)"

definition action_supported :: "'w env \<Rightarrow> int \<Rightarrow> ('w sys, bool) act" where
  "action_supported env act =
     catchA (bindA (action_avail env act) (\<lambda>_. retA True))
       (\<lambda>e. if is_UnsupportedError e then retA False
            else if is_SeccompError e then
              if exc_errno e = Some EINVAL then retA False else raiseA e
            else raiseA e)"

definition flag_supported :: "'w env \<Rightarrow> int \<Rightarrow> ('w sys, bool) act" where
  "flag_supported env flag =
     catchA (probe_flag env flag) (\<lambda>e. if is_UnsupportedError e then retA False else raiseA e)"

definition avail_req :: "int \<Rightarrow> int \<Rightarrow> request" where
  "avail_req nr act = ReqSyscall [KInt (word_of_int nr), KInt 2, KInt 0, KBuf (le_bytes 4 act)]"

lemma action_avail_answer:
  assumes "linux env s" and "seccomp_nr env = Inr nr" and "answered env (avail_req nr act) s n"
  shows "action_avail env act s =
    Some (map_sum id rp_ret (reply_result (answer env (avail_req nr act) n (s_os s))),
          after_asking env (avail_req nr act) (Suc n) s)"
proof -
  have "conv_args [AInt nr, AInt SECCOMP_GET_ACTION_AVAIL, AInt 0, ABuf (le_bytes 4 act)] =
      Inr [KInt (word_of_int nr), KInt 2, KInt 0, KBuf (le_bytes 4 act)]"
    using seccomp_nr_range [OF assms(2)] by (simp add: SECCOMP_GET_ACTION_AVAIL_def)
  from call_answer [OF assms(1) this, of n] assms(2,3) show ?thesis
    by (simp add: action_avail_def seccomp_def bindA_retA avail_req_def)
qed

text \<open>
  Asking about an action. \<open>action_supported\<close> is True when the kernel accepts the query, False when it
  answers that the action (EINVAL) or the query (ENOSYS, EOPNOTSUPP) is unknown, and raises any
  other errno.
\<close>

theorem action_supported_answer:
  assumes "linux env s" and "seccomp_nr env = Inr nr" and "answered env (avail_req nr act) s n"
    and "answer env (avail_req nr act) n (s_os s) = rep"
  shows "action_supported env act s =
    Some (if rp_ret rep \<noteq> -1 then Inr True
          else if rp_errno rep \<in> {EINVAL, ENOSYS, EOPNOTSUPP} then Inr False
          else Inl (SeccompError (rp_errno rep)),
          after_asking env (avail_req nr act) (Suc n) s)"
  using action_avail_answer [OF assms(1-3)] assms(4)
  by (auto simp: action_supported_def catchA_def bindA_retA reply_result_def errno_exc_def const_defs)

theorem action_supported_answer_witness:
  "map_option fst (action_supported (record_env \<lparr>rp_ret = -1, rp_errno = EINVAL, rp_out = []\<rparr>) 0x7FC00000 idle) =
     Some (Inr False)"
  by (subst action_supported_answer [where n = 0 and nr = 317, OF _ _ _ refl])
    (simp_all add: seccomp_nr_record interrupted_def const_defs)

text \<open>
  C38. Asking about seccomp itself. \<open>supported\<close> is True when the kernel knows the query or rejects it with EINVAL (a kernel
  before 4.8), and when the query is reported as unsupported but a probe of no flags passes; it is False
  only if that second probe reports an unsupported call or EINVAL.
\<close>

theorem supported_answer:
  assumes "linux env s" and "seccomp_nr env = Inr nr"
    and "answered env (avail_req nr 0x7FFF0000) s n" and "answer env (avail_req nr 0x7FFF0000) n (s_os s) = rep"
    and "answered env (probe_req nr 0) (after_asking env (avail_req nr 0x7FFF0000) (Suc n) s) k"
    and "answer env (probe_req nr 0) k (asked env (avail_req nr 0x7FFF0000) (Suc n) (s_os s)) = rep2"
  shows "map_option fst (supported env s) =
    Some (if rp_ret rep \<noteq> -1 \<or> rp_errno rep = EINVAL then Inr True
          else if rp_errno rep \<in> {ENOSYS, EOPNOTSUPP} then
            (if rp_ret rep2 \<noteq> -1 \<or> rp_errno rep2 \<in> {EFAULT, EACCES} then Inr True
             else if rp_errno rep2 \<in> {EINVAL, ENOSYS, EOPNOTSUPP} then Inr False
             else Inl (SeccompError (rp_errno rep2)))
          else Inl (SeccompError (rp_errno rep)))"
proof -
  let ?s1 = "after_asking env (avail_req nr 0x7FFF0000) (Suc n) s"
  have avail: "action_avail env 0x7FFF0000 s = Some (map_sum id rp_ret (reply_result rep), ?s1)"
    using action_avail_answer [OF assms(1-3)] assms(4) by simp
  have "linux env ?s1" by (simp add: linux_def after_asking_def)
  moreover have "answer env (probe_req nr 0) k (s_os ?s1) = rep2" using assms(6) by (simp add: after_asking_def)
  ultimately have "\<exists>t. probe_flag env 0 ?s1 =
      Some (if rp_ret rep2 \<noteq> -1 then Inr True else if rp_errno rep2 = EINVAL then Inr False
          else if rp_errno rep2 \<in> {EFAULT, EACCES} then Inr True else Inl (errno_exc (rp_errno rep2)), t)"
    using probe_flag_result [OF _ assms(2) _ _ assms(5)] by simp
  with avail show ?thesis
    by (auto simp: supported_def catchA_def bindA_retA reply_result_def errno_exc_def const_defs)
qed

text \<open>A kernel that lacks the action query but knows the filter mode.\<close>

definition old_kernel :: "unit env" where
  "old_kernel =
     \<lparr>e_platform = ''linux'', e_machine = ''AMD64'',
      e_kernel = \<lambda>r w. (\<lparr>rp_ret = -1, rp_errno = (if r = avail_req 317 0x7FFF0000 then ENOSYS else EFAULT), rp_out = []\<rparr>, w)\<rparr>"

lemma old_kernel_simps:
  "linux old_kernel s"
  "answer old_kernel r n w = \<lparr>rp_ret = -1, rp_errno = (if r = avail_req 317 0x7FFF0000 then ENOSYS else EFAULT), rp_out = []\<rparr>"
  "answered old_kernel r s 0"
  by (simp_all add: linux_def old_kernel_def answer_def answered_def interrupted_def const_defs)

lemma seccomp_nr_old: "seccomp_nr old_kernel = Inr 317"
proof -
  have "py_lower ''AMD64'' = ''amd64''" by code_simp
  then show ?thesis by (simp add: seccomp_nr_def arch_nr_def SYS_SECCOMP_def old_kernel_def)
qed

theorem supported_answer_witness:
  "map_option fst (supported old_kernel \<lparr>s_libc = False, s_os = ()\<rparr>) = Some (Inr True)"
  by (subst supported_answer [where n = 0 and k = 0 and nr = 317, OF old_kernel_simps(1) seccomp_nr_old _ refl _ refl])
    (simp_all add: old_kernel_simps avail_req_def probe_req_def const_defs)

text \<open>
  Asking about a flag. \<open>flag_supported\<close> never raises UnsupportedError: a kernel without the call answers False, as does one that
  rejects the flag with EINVAL.
\<close>

theorem flag_supported_answer:
  assumes "linux env s" and "seccomp_nr env = Inr nr" and "0 \<le> flag" and "flag < 2 ^ 32"
    and "answered env (probe_req nr flag) s n" and "answer env (probe_req nr flag) n (s_os s) = rep"
  shows "flag_supported env flag s =
    Some (if rp_ret rep \<noteq> -1 \<or> rp_errno rep \<in> {EFAULT, EACCES} then Inr True
          else if rp_errno rep \<in> {EINVAL, ENOSYS, EOPNOTSUPP} then Inr False
          else Inl (SeccompError (rp_errno rep)),
          after_asking env (probe_req nr flag) (Suc n) s)"
  using probe_flag_result [OF assms]
  by (auto simp: flag_supported_def catchA_def errno_exc_def const_defs)

theorem flag_supported_answer_witness:
  "map_option fst (flag_supported (record_env \<lparr>rp_ret = -1, rp_errno = ENOSYS, rp_out = []\<rparr>) 8 idle) = Some (Inr False)"
  by (subst flag_supported_answer [where n = 0 and nr = 317, OF _ _ _ _ _ refl])
    (simp_all add: seccomp_nr_record interrupted_def const_defs)

section \<open>The forked probe\<close>

record probe_result =
  pr_ok :: bool
  pr_errno :: int
  pr_signal :: int

text \<open>The code the child passes to \<^verbatim>\<open>os._exit\<close>, from the outcome of \<^verbatim>\<open>filt.load(); fn()\<close>.\<close>

definition child_code :: "unit result \<Rightarrow> int" where
  "child_code r =
     (case r of
        Inr _ \<Rightarrow> 0
      | Inl e \<Rightarrow>
          if is_OSError e then
            (let code = (case exc_errno e of Some c \<Rightarrow> c | None \<Rightarrow> 1)
             in if 0 < code \<and> code \<le> 255 then code else 255)
          else 255)"

text \<open>The wait status macros of the os module, and the status of a normal exit.\<close>

definition WTERMSIG :: "int \<Rightarrow> int" where
  "WTERMSIG st = st AND 0x7F"

definition WIFSIGNALED :: "int \<Rightarrow> bool" where
  "WIFSIGNALED st \<longleftrightarrow> 0 < WTERMSIG st \<and> WTERMSIG st < 0x7F"

definition WEXITSTATUS :: "int \<Rightarrow> int" where
  "WEXITSTATUS st = drop_bit 8 st AND 0xFF"

definition exit_status :: "int \<Rightarrow> int" where
  "exit_status code = push_bit 8 (code AND 0xFF)"

definition decode_status :: "int \<Rightarrow> probe_result" where
  "decode_status st =
     (if WIFSIGNALED st then \<lparr>pr_ok = False, pr_errno = 0, pr_signal = WTERMSIG st\<rparr>
      else let code = WEXITSTATUS st
           in if code = 0 then \<lparr>pr_ok = True, pr_errno = 0, pr_signal = 0\<rparr>
              else \<lparr>pr_ok = False, pr_errno = code, pr_signal = 0\<rparr>)"

definition probe_child :: "'w env \<Rightarrow> (sfilter \<times> 'w sys, unit) act \<Rightarrow> (sfilter \<times> 'w sys, unit) act" where
  "probe_child env fn = bindA (load env) (\<lambda>_. fn)"

text \<open>
  \<^verbatim>\<open>probe\<close>, with the two calls of the os module it makes as parameters. \<open>fork\<close> gives the state of the world
  after the fork, or the OSError of a failed one. \<open>waitpid\<close> is given the run of the child with the state it ends in,
  or None when the run does not end by itself: it raises an OSError, or returns the status of a child that a signal
  has ended, or None for a child that called \<^verbatim>\<open>os._exit\<close>; and it gives the state of the world the parent goes on in,
  with what the child did to it. The filter and the libc handle of the parent are its own copies.
\<close>

type_synonym 'w child_run = "(unit result \<times> sfilter \<times> 'w sys) option"

definition probe ::
    "'w env \<Rightarrow> ('w \<Rightarrow> unit result \<times> 'w) \<Rightarrow> ('w child_run \<Rightarrow> int option result \<times> 'w) \<Rightarrow>
     sfilter \<Rightarrow> (sfilter \<times> 'w sys, unit) act \<Rightarrow> ('w sys, probe_result) act" where
  "probe env fork waitpid f fn =
     (\<lambda>s. if f_loaded f then Some (Inl (RuntimeError ''filter is already loaded''), s)
          else (case fork (s_os s) of
                  (Inl e, w) \<Rightarrow> Some (Inl e, s\<lparr>s_os := w\<rparr>)
                | (Inr _, w) \<Rightarrow>
                    (let run = probe_child env fn (f, s\<lparr>s_os := w\<rparr>)
                     in case waitpid run of
                          (Inl e, w') \<Rightarrow> Some (Inl e, s\<lparr>s_os := w'\<rparr>)
                        | (Inr (Some st), w') \<Rightarrow> Some (Inr (decode_status st), s\<lparr>s_os := w'\<rparr>)
                        | (Inr None, w') \<Rightarrow>
                            map_option (\<lambda>(r, _). (Inr (decode_status (exit_status (child_code r))), s\<lparr>s_os := w'\<rparr>)) run)))"

lemma child_code_range: "0 \<le> child_code r \<and> child_code r \<le> 255"
  by (auto simp: child_code_def Let_def split: sum.split option.split)

lemma exit_status_decodes:
  assumes "0 \<le> c" and "c \<le> 255"
  shows "decode_status (exit_status c) =
    (if c = 0 then \<lparr>pr_ok = True, pr_errno = 0, pr_signal = 0\<rparr> else \<lparr>pr_ok = False, pr_errno = c, pr_signal = 0\<rparr>)"
proof -
  have byte: "v AND 0xFF = v mod 256" for v :: int
    using take_bit_eq_mask [of 8 v] by (simp add: take_bit_eq_mod mask_eq_exp_minus_1)
  have "exit_status c = c * 256" using assms by (simp add: exit_status_def byte push_bit_eq_mult)
  moreover have "(c * 256) AND 0x7F = 0"
    using take_bit_eq_mask [of 7 "c * 256"] by (simp add: take_bit_eq_mod mask_eq_exp_minus_1)
  ultimately show ?thesis
    using assms by (simp add: decode_status_def WIFSIGNALED_def WTERMSIG_def WEXITSTATUS_def byte drop_bit_eq_div)
qed

text \<open>
  C40. What a probe reports. When the child ends by itself, the result is ok exactly if loading the filter and calling the function both
  returned; an OSError with an errno from 1 to 255 is reported with that errno. The parent goes on in the world the wait leaves,
  its libc handle as it was.
\<close>

theorem probe_reports_child:
  assumes "\<not> f_loaded f" and "fork (s_os s) = (Inr (), w)"
    and "probe_child env fn (f, s\<lparr>s_os := w\<rparr>) = Some (r, c)" and "waitpid (Some (r, c)) = (Inr None, w')"
  shows "\<exists>res. probe env fork waitpid f fn s = Some (Inr res, s\<lparr>s_os := w'\<rparr>) \<and> pr_signal res = 0 \<and>
    (pr_ok res \<longleftrightarrow> r = Inr ()) \<and>
    (\<forall>e code. r = Inl e \<longrightarrow> is_OSError e \<longrightarrow> exc_errno e = Some code \<longrightarrow> 1 \<le> code \<longrightarrow> code \<le> 255 \<longrightarrow>
       pr_errno res = code)"
proof (intro exI conjI)
  let ?res = "decode_status (exit_status (child_code r))"
  note dec = exit_status_decodes [OF conjunct1 [OF child_code_range] conjunct2 [OF child_code_range], of r]
  have zero: "child_code r = 0 \<longleftrightarrow> r = Inr ()"
    by (auto simp: child_code_def Let_def split: sum.splits option.splits if_splits)
  show "probe env fork waitpid f fn s = Some (Inr ?res, s\<lparr>s_os := w'\<rparr>)"
    using assms by (simp add: probe_def Let_def)
  show "pr_signal ?res = 0" and "pr_ok ?res \<longleftrightarrow> r = Inr ()" by (simp_all add: dec zero)
  show "\<forall>e code. r = Inl e \<longrightarrow> is_OSError e \<longrightarrow> exc_errno e = Some code \<longrightarrow> 1 \<le> code \<longrightarrow> code \<le> 255 \<longrightarrow>
      pr_errno ?res = code"
    using dec by (auto simp: child_code_def Let_def)
qed

text \<open>A wait for a child that exits: the parent finds the world as the child left it.\<close>

definition wait_exit :: "'w \<Rightarrow> 'w child_run \<Rightarrow> int option result \<times> 'w" where
  "wait_exit w run = (Inr None, case run of None \<Rightarrow> w | Some (r, f, s) \<Rightarrow> s_os s)"

theorem probe_reports_child_witness:
  "\<exists>res. probe (record_env \<lparr>rp_ret = -1, rp_errno = 1, rp_out = []\<rparr>) (Pair (Inr ())) (wait_exit []) sample_filter (retA ()) idle =
       Some (Inr res, idle\<lparr>s_os := [prctl_req]\<rparr>) \<and> \<not> pr_ok res \<and> pr_errno res = 1"
proof -
  let ?E = "record_env \<lparr>rp_ret = -1, rp_errno = 1, rp_out = []\<rparr>"
  have "set_no_new_privs ?E idle = Some (Inl (SeccompError 1), after_asking ?E prctl_req (Suc 0) idle)"
    using no_new_privs_answer [of ?E idle 0] by (simp add: interrupted_def EINTR_def Let_def)
  then have "load ?E (sample_filter, idle) = Some (Inl (SeccompError 1), (sample_filter, after_asking ?E prctl_req (Suc 0) idle))"
    by (simp add: load_def load_check_def guardE_def)
  then have child: "probe_child ?E (retA ()) (sample_filter, idle\<lparr>s_os := s_os idle\<rparr>) =
      Some (Inl (SeccompError 1), (sample_filter, after_asking ?E prctl_req (Suc 0) idle))"
    by (simp add: probe_child_def)
  have "wait_exit [] (Some (Inl (SeccompError 1), (sample_filter, after_asking ?E prctl_req (Suc 0) idle))) = (Inr None, [prctl_req])"
    by (simp add: wait_exit_def after_asking_def idle_def)
  from probe_reports_child [where fork = "Pair (Inr ())" and waitpid = "wait_exit []" and s = idle, OF _ _ child this]
  show ?thesis by fastforce
qed

text \<open>
  What a probe cannot tell apart. Exceptions other than OSError, and an OSError whose errno is zero or above 255, are all
  reported as errno 255; an UnsupportedError raised without an errno (no syscall table for the machine, or not Linux) is reported as
  errno 1, which is EPERM.
\<close>

theorem probe_errno_ambiguous:
  assumes "\<not> f_loaded f" and "fork (s_os s) = (Inr (), w)"
    and "probe_child env fn (f, s\<lparr>s_os := w\<rparr>) = Some (Inl e, c)" and "waitpid (Some (Inl e, c)) = (Inr None, w')"
  shows "(\<not> is_OSError e \<or> (\<exists>code. exc_errno e = Some code \<and> (code \<le> 0 \<or> 255 < code)) \<longrightarrow>
      probe env fork waitpid f fn s = Some (Inr \<lparr>pr_ok = False, pr_errno = 255, pr_signal = 0\<rparr>, s\<lparr>s_os := w'\<rparr>)) \<and>
    (e = UnsupportedError None \<longrightarrow>
      probe env fork waitpid f fn s = Some (Inr \<lparr>pr_ok = False, pr_errno = 1, pr_signal = 0\<rparr>, s\<lparr>s_os := w'\<rparr>))"
proof -
  have "probe env fork waitpid f fn s = Some (Inr (decode_status (exit_status (child_code (Inl e)))), s\<lparr>s_os := w'\<rparr>)"
    using assms by (simp add: probe_def Let_def)
  moreover note exit_status_decodes [OF conjunct1 [OF child_code_range] conjunct2 [OF child_code_range], of "Inl e"]
  ultimately show ?thesis by (auto simp: child_code_def Let_def)
qed

theorem probe_errno_ambiguous_witness:
  "probe ((record_env \<lparr>rp_ret = 0, rp_errno = 0, rp_out = []\<rparr>)\<lparr>e_platform := ''darwin''\<rparr>) (Pair (Inr ())) (wait_exit [])
       sample_filter (retA ()) idle =
     Some (Inr \<lparr>pr_ok = False, pr_errno = 1, pr_signal = 0\<rparr>, idle)"
proof -
  let ?E = "(record_env \<lparr>rp_ret = 0, rp_errno = 0, rp_out = []\<rparr>)\<lparr>e_platform := ''darwin''\<rparr>"
  have "set_no_new_privs ?E idle = Some (Inl (UnsupportedError None), idle)"
    unfolding set_no_new_privs_def
    by (rule retry_Done) (simp add: no_new_privs_body_def libc_call_def get_libc_def idle_def)
  then have "load ?E (sample_filter, idle) = Some (Inl (UnsupportedError None), (sample_filter, idle))"
    by (simp add: load_def load_check_def guardE_def)
  then have child: "probe_child ?E (retA ()) (sample_filter, idle\<lparr>s_os := s_os idle\<rparr>) =
      Some (Inl (UnsupportedError None), (sample_filter, idle))"
    by (simp add: probe_child_def)
  have "wait_exit [] (Some (Inl (UnsupportedError None), (sample_filter, idle))) = (Inr None, s_os idle)"
    by (simp add: wait_exit_def)
  from probe_errno_ambiguous [where fork = "Pair (Inr ())" and waitpid = "wait_exit []" and s = idle, OF _ _ child this]
  show ?thesis by simp
qed

end
