(* ===== verification/Spec2Isabelle.thy ===== *)
theory Spec2Isabelle
  imports Bpf_Props Policy Public_Api
begin

text \<open>
  \<^bold>\<open>seccompy: a verified model of a seccomp-BPF library.\<close>

  seccompy lets a Linux process restrict its own system calls. A caller declares a filter
  (\<^verbatim>\<open>filter.py\<close>): a default action and rules per syscall, optionally with conditions on
  the 64-bit arguments. The filter is compiled to symbolic BPF instructions with labels,
  which an assembler (\<^verbatim>\<open>bpf.py\<close>) packs into \<^verbatim>\<open>struct sock_filter\<close> records. Loading passes the
  bytes to seccomp(2) through raw libc bindings (\<^verbatim>\<open>_syscall.py\<close>). With the NEW_LISTENER flag
  loading returns a Listener (\<^verbatim>\<open>notify.py\<close>), with which a supervisor receives and answers the
  calls that a rule delegates. Syscall names are resolved by tables (\<^verbatim>\<open>syscalls.py\<close>);
  \<^verbatim>\<open>__init__.py\<close> has feature probes, \<^verbatim>\<open>testing.py\<close> runs a function under a filter in a forked
  child, \<^verbatim>\<open>errors.py\<close> has the exception types. All paths are below \<^verbatim>\<open>src/src/seccompy\<close>.

  \<^bold>\<open>Theories and what they model.\<close>

  \<^item> \<open>Prelude\<close>: Python values (\<open>pyval\<close>: an int, a float with the int it equals if any, a string,
    and other values, hashable or not; \<open>int_value\<close> is equality with an int), exceptions as the
    datatype \<open>py_error\<close> and fallible results as sums, list indexing with negative indices,
    insertion-ordered dicts, decimal and hexadecimal printing, little-endian bytes.

  \<^item> \<open>Bpf\<close>: \<^verbatim>\<open>bpf.py\<close>, function by function: the instruction classes with their checked
    constructors, label validation, the sizing loop (\<open>resolve_sizes\<close>), offsets, the encoding of
    each instruction (\<open>emit\<close>) and the expansion of far jumps (\<open>emit_expanded\<close>, \<open>ja_bytes\<close>).
    \<open>Bpf_Layout\<close> proves the layout phase correct. \<open>Bpf_Exec\<close> models the two interpreters of
    \<^verbatim>\<open>tests/test_bpf.py\<close>, \<open>run_packed\<close> on bytes and \<open>run_source\<close> on symbolic code, relates
    them and states the assembler interface as the locale \<open>assembler\<close>, interpreted on
    \<open>assemble\<close> and \<open>run_packed\<close>. \<open>Bpf_Props\<close> has the properties.

  \<^item> \<open>Syscall_Tables\<close>, \<open>Syscalls\<close>: the two name tables entry by entry, architecture selection
    and lookups; the locales \<open>syscall_table\<close> and \<open>injective_syscall_table\<close> are interpreted
    on both tables and on the x86_64 table.

  \<^item> \<open>Arg_Cond\<close>: \<open>ArgCmp\<close> with its checks, tuple coercion, \<open>emit_cond\<close>, and the memory image of
    struct seccomp_data (\<open>data_bytes\<close>). \<open>cmp_holds\<close> is the meaning of a condition on
    unsigned 64-bit values.

  \<^item> \<open>Seccomp_Filter\<close>: the Filter as the record \<open>sfilter\<close> (default, flags, rules, cached program,
    loaded), the eight rule methods over \<open>add\<close>, and compilation (\<open>compile_source\<close>, \<open>emit_blocks\<close>,
    \<open>emit_rules\<close>, \<open>emit_conds\<close>). \<open>Filter_Correct\<close> holds the specification \<open>decision\<close> and proves
    that compiled code computes it. \<open>Filter_State\<close> has the invariant \<open>wf_filter\<close>, the meaning
    \<open>args_hold\<close> of what a caller passes as conditions (equality for a mapping, the operator for
    a tuple, all of them at once), stated without the parsing code \<open>conds_of\<close>, and the
    locale \<open>rule_method\<close>, interpreted on every rule method. \<open>Filter_Props\<close> has the properties.

  \<^item> \<open>Kernel\<close>: the boundary to libc and the kernel, and operations that thread its state, may
    raise and may fail to return. \<open>Syscall_Layer\<close>: \<^verbatim>\<open>_syscall.py\<close> with its structures and its three retry loops, which share the locale
    \<open>libc_loop\<close>. A structure is the list of its fields, as ctypes has it; sizes, offsets, reading an attribute
    (\<open>get_int\<close>, \<open>get_array\<close>), building one from keyword arguments (\<open>struct_bytes\<close>) and passing one by
    reference (\<open>struct_cells\<close>) are computed from that list. \<open>Syscall_Props\<close> has the properties.

  \<^item> \<open>Notify\<close>: \<^verbatim>\<open>notify.py\<close>; the Listener is the record \<open>listener\<close>. \<open>Notify_Props\<close>: readers of a buffer as the
    kernel's headers lay it out (\<open>uint_at\<close>, \<open>sint32_at\<close>, \<open>notif_bytes\<close>), independent of the field lists, the locale
    \<open>listener_op\<close>, interpreted on the five ioctl operations, the step relation
    \<open>listener_step\<close> over all operations, and the properties.

  \<^item> \<open>Filter_Load\<close>: \<^verbatim>\<open>Filter.load\<close> on the filter and the process, and the step relation
    \<open>filter_step\<close> over all operations of a filter. \<open>Policy\<close>: an abstract policy (a partial
    function from system calls to actions) that building a filter refines. \<open>Public_Api\<close>: the
    feature probes and \<^verbatim>\<open>testing.probe\<close>. This theory adds the properties that connect components.

  \<^bold>\<open>What the theorems show.\<close>

  \<^item> Assembler: packed code runs like symbolic code, far jumps included; assembly succeeds
    exactly on defined forward labels and raises nothing but ValueError otherwise; the sizing
    loop reaches its fixed point within its bound.

  \<^item> Filters: a compiled filter kills a foreign architecture and otherwise takes the first
    matching rule or the default, comparing all 64 bits of arguments; each rule method
    changes exactly the decisions it should; any script of methods refines the abstract
    policy; every reachable filter satisfies the invariant; a loaded one is frozen.

  \<^item> Loading: if \<open>load\<close> returns, it asked for no_new_privs, which was granted, for the installation of the
    compiled program, and for nothing else but what the listener constructor needs; on a kernel that keeps to the
    documentation of seccomp(2) (\<open>seccomp_kernel\<close>) exactly that program is then installed unless a
    TSYNC failure was reported, and it decides as declared. With a cooperative kernel \<open>load\<close> does return; a
    failed load leaves the rules as they are. A call the installed program delegates reaches the supervisor with the
    number and the arguments of a notify rule.

  \<^item> Bindings and notification: interrupted calls are repeated until they are answered and return
    exactly in that case; errnos become the documented exceptions; structures declared by
    their field lists are encoded and decoded as the kernel's headers require; a listener only touches its own
    descriptor and nothing after it is closed.

  \<^item> Deviations from the documentation that the model makes visible are theorems too:
    \<open>x32_call_gets_default\<close> (in \<open>Policy\<close>), \<open>load_ignores_tsync_failure\<close>, \<open>probe_errno_ambiguous\<close>,
    \<open>addfd_flags_type_error\<close>, \<open>probe_flag_truncates\<close>, and the exception in \<open>new_Listener_owns_fd\<close>.

  \<^bold>\<open>Bounds, loops and parameters.\<close> The sizing loop is bounded in the source by the number of
  instructions plus one, and it is shown never to exhaust that bound. Theorems on encoded
  distances assume that three times the number of instructions (the largest expansion) is below
  \<^verbatim>\<open>2^32\<close>, the range of a JA distance; the kernel's limit of 4096 instructions is far
  below. A loaded program satisfies it without assumption, because \<open>set_mode_filter\<close> checks its
  length. The interpreters recurse on the distance to the end of the program, which only
  shrinks since BPF jumps are forward; \<open>run_source\<close> returns None where a backward label
  could make the test interpreter loop. Retry loops are partial functions in which None stands
  for never returning. The kernel is an arbitrary function from a request and a world to a
  reply and a world; \<open>platform.machine()\<close>, \<open>sys.platform\<close>, and \<^verbatim>\<open>os.fork\<close> and \<^verbatim>\<open>os.waitpid\<close> with
  what they do to the world are parameters as well. Hypotheses on them say only which answers the kernel gives and, in
  \<open>seccomp_kernel\<close>, what an answer to the installation of a program means.

  \<^bold>\<open>Not modelled.\<close> Locating and opening the shared library (\<^verbatim>\<open>find_library\<close>, \<^verbatim>\<open>CDLL\<close>) beyond the
  platform check and the cached handle; message texts with interpolated values and strerror;
  when the interpreter runs a finaliser (what it does is modelled); signal handlers and
  threads between bytecodes; the kernel's own verifier and its choice among several
  installed filters; build files, documentation and the test cases. They contain no logic of the
  library or lie outside its source.
\<close>

section \<open>Properties across components\<close>

lemma tables_hold:
  "map_of x86_64_syscalls_3 ''seccomp'' = Some 317" "map_of x86_64_syscalls_3 ''pidfd_open'' = Some 434"
  "map_of x86_64_syscalls_3 ''pidfd_getfd'' = Some 438" "map_of aarch64_syscalls_3 ''seccomp'' = Some 277"
  "map_of aarch64_syscalls_3 ''pidfd_open'' = Some 434" "map_of aarch64_syscalls_3 ''pidfd_getfd'' = Some 438"
  by code_simp+

lemma x86_entry: "map_of x86_64_syscalls_3 name = Some nr \<Longrightarrow> table_nr X86_64_SYSCALLS name = Inr nr"
  unfolding x86.nr_iff by (drule map_of_SomeD) (simp add: x86_table_eq)

lemma aarch64_entry: "map_of aarch64_syscalls_3 name = Some nr \<Longrightarrow> table_nr AARCH64_SYSCALLS name = Inr nr"
  unfolding aarch64.nr_iff by (drule map_of_SomeD) (simp add: aarch64_table_eq)

lemmas binding_entries = tables_hold(1-3) [THEN x86_entry] tables_hold(4-6) [THEN aarch64_entry]

text \<open>
  C33. The bindings and the tables agree. The numbers \<open>seccomp_nr\<close> and \<open>pidfd_nr\<close> use on a machine are those the syscall tables give for seccomp,
  pidfd_open and pidfd_getfd there, and all of them reject the same machines with UnsupportedError.
\<close>

theorem binding_numbers_agree:
  "case native (e_machine env) of
     Inl e \<Rightarrow> seccomp_nr env = Inl e \<and> pidfd_nr env = Inl e \<and> e = UnsupportedError None
   | Inr _ \<Rightarrow> (\<exists>nr a b. seccomp_nr env = Inr nr \<and> pidfd_nr env = Inr (a, b) \<and>
       syscall_nr (e_machine env) (PyStr ''seccomp'') = Inr nr \<and>
       syscall_nr (e_machine env) (PyStr ''pidfd_open'') = Inr a \<and>
       syscall_nr (e_machine env) (PyStr ''pidfd_getfd'') = Inr b)"
  by (auto simp: native_def ARCHES_def seccomp_nr_def arch_nr_def SYS_SECCOMP_def pidfd_nr_def SYS_PIDFD_def
      binding_entries)

text \<open>
  C34. The filter and the supervisor read the same fields. Take any 64 bytes of struct seccomp_data, as the filter is run on them and as the
  kernel passes them on behind the 16 bytes of a notification's header. The number, the architecture and the arguments that
  \<open>decode_notif\<close> reads there are those of the words at the offsets the compiler loads from, the number up to its sign.
\<close>

theorem filter_and_supervisor_read_same_fields:
  assumes "length hdr = 16" and "length b = 64"
  shows "n_nr (decode_notif (hdr @ b)) mod 2 ^ 32 = load_word b OFF_NR \<and>
    n_arch (decode_notif (hdr @ b)) = load_word b OFF_ARCH \<and>
    n_args (decode_notif (hdr @ b)) =
      map (\<lambda>i. load_word b (OFF_ARG0 + 8 * i) + 2 ^ 32 * load_word b (OFF_ARG0 + 8 * i + 4)) [0, 1, 2, 3, 4, 5]"
proof -
  have word: "load_word b k = le_int (take 4 (drop (nat k) b))" if "0 \<le> k" "k \<le> 60" for k
    using that assms(2) by (simp add: load_word_def slice4_def Let_def)
  have "le_int (take 4 b) < 2 ^ 32" using le_int_range [of "take 4 b"] assms(2) by simp
  then have nr: "sint (word_of_int (le_int (take 4 b)) :: 32 word) mod 4294967296 = le_int (take 4 b)"
    using le_int_range [of "take 4 b"] uint_sint [of "word_of_int (le_int (take 4 b)) :: 32 word"]
    by (simp add: take_bit_eq_mod uint_word_of_int)
  have args: "le_int (take 8 (drop (16 + 8 * i) b)) =
      load_word b (OFF_ARG0 + 8 * int i) + 2 ^ 32 * load_word b (OFF_ARG0 + 8 * int i + 4)" if "i < 6" for i
    using that assms(2) le_int_halves [of "drop (16 + 8 * i) b"]
    by (simp add: word OFF_ARG0_def nat_add_distrib nat_mult_distrib add.commute)
  have "n_args (decode_notif (hdr @ b)) = map (\<lambda>i. le_int (take 8 (drop (16 + 8 * i) b))) [0 ..< 6]"
    using assms(1) by (simp add: decode_notif_layout uint_at_def)
  then have "n_args (decode_notif (hdr @ b)) =
      map (\<lambda>i. load_word b (OFF_ARG0 + 8 * int i) + 2 ^ 32 * load_word b (OFF_ARG0 + 8 * int i + 4)) [0 ..< 6]"
    by (simp add: args)
  then show ?thesis
    using assms(1) nr by (simp add: decode_notif_layout uint_at_def sint32_at_def word OFF_NR_def OFF_ARCH_def upt_rec)
qed

theorem filter_and_supervisor_read_same_fields_witness:
  "n_args (decode_notif (replicate 16 0 @ data_bytes sample_data)) ! 5 =
     load_word (data_bytes sample_data) 56 + 2 ^ 32 * load_word (data_bytes sample_data) 60"
proof -
  have "length (data_bytes sample_data) = 64" by (simp add: data_bytes_def sample_data_def)
  from filter_and_supervisor_read_same_fields [of "replicate 16 0", OF _ this] show ?thesis by (simp add: OFF_ARG0_def)
qed

text \<open>A rule that decides a call holds of its number and arguments.\<close>

lemma deciding_rule:
  assumes "wf_rules (f_rules f)" and "wf_data d" and "decide_rules d (rules_for f (uint (sd_nr d))) = Some act"
  obtains r where "r \<in> set (rules_for f (uint (sd_nr d)))" and "r_action r = act"
    and "\<forall>c \<in> set (r_args r). cmp_holds (ac_op c) (map uint (sd_args d) ! nat (ac_index c)) (ac_value c) (ac_mask c)"
proof -
  obtain r where r: "find (rule_matches d) (rules_for f (uint (sd_nr d))) = Some r" "r_action r = act"
    using assms(3) by (auto simp: decide_rules_def)
  then have mem: "r \<in> set (rules_for f (uint (sd_nr d)))" and conds: "\<forall>c \<in> set (r_args r). cond_holds d c"
    by (auto simp: find_Some_iff rule_matches_def list_all_iff)
  have "wf_rule r" using rules_for_wf [OF assms(1), of "uint (sd_nr d)"] mem by (simp add: list_all_iff)
  then have "nat (ac_index c) < length (sd_args d)" if "c \<in> set (r_args r)" for c
    using that assms(2) by (simp add: wf_rule_def list_all_iff wf_cond_def wf_data_def) fastforce
  then have "\<forall>c \<in> set (r_args r).
      cmp_holds (ac_op c) (map uint (sd_args d) ! nat (ac_index c)) (ac_value c) (ac_mask c)"
    using conds by (simp add: cond_holds_def)
  with r(2) mem that show thesis by blast
qed

text \<open>
  C12. A supervisor sees calls that a rule delegates. Let \<open>load\<close> have returned a listener for a filter whose default is not
  USER_NOTIF. If the installed program, run on the data of a system call, returns USER_NOTIF, and the kernel passes
  these data to the listener, then \<open>recv\<close> returns a notification of the filter's architecture, and some notify rule of the
  filter is for its syscall number and has conditions that all hold of its arguments.
\<close>

theorem supervisor_sees_matching_call:
  assumes "wf_filter (e_machine env) f" and "load env (f, s) = Some (Inr (Some l), (f', s'))"
    and "f_default f \<noteq> 0x7FC00000" and "f_program f' = Some prog" and "wf_data d"
    and "run_packed prog (data_bytes d) acc 0 = Inr 0x7FC00000"
    and "linux env u" and "fd_ok (l_fd l)"
    and "answered env (ioctl_req (l_fd l) IOCTL_NOTIF_RECV (replicate 80 0)) u n"
    and "answer env (ioctl_req (l_fd l) IOCTL_NOTIF_RECV (replicate 80 0)) n (s_os u) = rep"
    and "rp_ret rep \<noteq> -1" and "rp_out rep = notif_bytes nid pid flags d"
  shows "\<exists>note t r. recv env l u = Some (Inr note, t) \<and> audit_arch (e_machine env) = Inr (n_arch note) \<and>
    r \<in> set (rules_for f (n_nr note mod 2 ^ 32)) \<and> r_action r = 0x7FC00000 \<and>
    (\<forall>c \<in> set (r_args r). cmp_holds (ac_op c) (n_args note ! nat (ac_index c)) (ac_value c) (ac_mask c))"
proof -
  have prog: "compile (e_machine env) f = Inr prog" "length prog div 8 \<le> 4096"
    using load_requests [OF assms(1,2)] assms(4) by auto
  obtain audit where audit: "audit_arch (e_machine env) = Inr audit" and "decision audit f d = 0x7FC00000"
    using compiled_decides [OF assms(1) prog] assms(5,6) by (metis Inr_inject)
  then have arch: "uint (sd_arch d) = audit" and "decide_syscall d f = 0x7FC00000"
    by (auto simp: decision_def split: if_splits)
  then have "decide_rules d (rules_for f (uint (sd_nr d))) = Some 0x7FC00000"
    using assms(3) by (auto simp: decide_syscall_rules split: option.splits)
  moreover have "wf_rules (f_rules f)" using assms(1) by (simp add: wf_filter_def)
  ultimately obtain r where "r \<in> set (rules_for f (uint (sd_nr d)))" "r_action r = 0x7FC00000"
    "\<forall>c \<in> set (r_args r). cmp_holds (ac_op c) (map uint (sd_args d) ! nat (ac_index c)) (ac_value c) (ac_mask c)"
    using deciding_rule assms(5) by metis
  moreover have "sint (sd_nr d) mod 2 ^ 32 = uint (sd_nr d)"
    using uint_sint [of "sd_nr d"] by (simp add: take_bit_eq_mod)
  moreover have "\<not> l_closed l" using assms(2) by (rule load_listener)
  ultimately show ?thesis
    using recv_notification_gen [OF _ assms(7,8,5,9-12)] audit arch by auto
qed

text \<open>
  A filter that delegates a call when its first argument is greater than 2, and a kernel that hands out descriptor 5 and
  passes one such call on.
\<close>

definition watching_filter :: sfilter where
  "watching_filter =
     \<lparr>f_default = 0x7FFF0000, f_flags = 8, f_rules = [(101, [\<lparr>r_action = 0x7FC00000, r_args = [sample_cond]\<rparr>])],
      f_program = None, f_loaded = False\<rparr>"

definition watching_env :: "request list env" where
  "watching_env =
     \<lparr>e_platform = ''linux'', e_machine = ''AMD64'',
      e_kernel = \<lambda>r log.
        (if r = ioctl_req 5 IOCTL_NOTIF_RECV (replicate 80 0)
         then \<lparr>rp_ret = 0, rp_errno = 0, rp_out = notif_bytes 9 42 0 (syscall_data 101 7)\<rparr>
         else \<lparr>rp_ret = 5, rp_errno = 0, rp_out = sizes_reply\<rparr>, log @ [r])\<rparr>"

lemma watching_simps [simp]:
  "linux watching_env t" "e_machine watching_env = ''AMD64''"
  "answered watching_env r t 0"
  "answer watching_env r n w = (if r = ioctl_req 5 IOCTL_NOTIF_RECV (replicate 80 0)
     then \<lparr>rp_ret = 0, rp_errno = 0, rp_out = notif_bytes 9 42 0 (syscall_data 101 7)\<rparr>
     else \<lparr>rp_ret = 5, rp_errno = 0, rp_out = sizes_reply\<rparr>)"
  "prctl_req \<noteq> ioctl_req fd c b" "filter_req nr fl prog \<noteq> ioctl_req fd c b" "sizes_req nr \<noteq> ioctl_req fd c b"
  by (simp_all add: watching_env_def linux_def answered_def answer_def interrupted_def prctl_req_def filter_req_def
      sizes_req_def ioctl_req_def)

lemma seccomp_nr_watching: "seccomp_nr watching_env = Inr 317"
  using seccomp_nr_record by (simp add: seccomp_nr_def arch_nr_def record_env_def watching_env_def)

lemma watching_filter_simps [simp]:
  "wf_filter ''AMD64'' watching_filter" "\<not> f_loaded watching_filter" "f_flags watching_filter = 8"
  "f_default watching_filter = 0x7FFF0000" "3 * insn_bound watching_filter \<le> 4096"
  by (simp_all add: watching_filter_def sample_cond_def wf_filter_def wf_rules_def wf_rule_def wf_cond_def is_u32_def
      U64_MAX_def insn_bound_def)

lemma load_watching:
  "\<exists>f' s' prog. load watching_env (watching_filter, idle) = Some (Inr (Some \<lparr>l_fd = 5, l_closed = False\<rparr>), (f', s')) \<and>
     f_program f' = Some prog \<and> compile ''AMD64'' watching_filter = Inr prog \<and> length prog div 8 \<le> 4096"
proof -
  let ?E = watching_env and ?f = watching_filter
  let ?s1 = "after_asking ?E prctl_req (Suc 0) idle"
  have wf: "wf_filter (e_machine ?E) ?f" by simp
  have audit: "audit_arch (e_machine ?E) = Inr 0xC000003E" by (simp add: audit_amd64)
  obtain prog where "set_no_new_privs ?E idle = Some (Inr (), ?s1)"
    and "filter_program (e_machine ?E) ?f = Inr (?f\<lparr>f_program := Some prog\<rparr>, prog)"
    and "set_mode_filter ?E prog (f_flags ?f) ?s1 = Some (Inr 5, after_asking ?E (filter_req 317 8 prog) (Suc 0) ?s1)"
    by (rule load_steps [OF wf audit seccomp_nr_watching, of idle 0 0]) simp_all
  moreover obtain t where "new_Listener ?E 5 (after_asking ?E (filter_req 317 8 prog) (Suc 0) ?s1) =
      Some (Inr \<lparr>l_fd = 5, l_closed = False\<rparr>, t)"
    using sizes_expected [of ?E "after_asking ?E (filter_req 317 8 prog) (Suc 0) ?s1" 317 0] seccomp_nr_watching
    by (simp add: new_Listener_def os_set_inheritable_def) (simp add: watching_env_def ioctl_req_def)
  ultimately have load: "load ?E (?f, idle) =
      Some (Inr (Some \<lparr>l_fd = 5, l_closed = False\<rparr>), (?f\<lparr>f_program := Some prog, f_loaded := True\<rparr>, t))"
    by (simp add: load_def load_check_def guardE_def program_act_def load_install_def load_finish_def)
  from load_requests [OF wf this] have "compile ''AMD64'' ?f = Inr prog \<and> length prog div 8 \<le> 4096"
    by (auto dest: arg_cong [where f = f_program])
  with load show ?thesis by auto
qed

theorem supervisor_sees_matching_call_witness:
  "\<exists>l f' s' note t r. load watching_env (watching_filter, idle) = Some (Inr (Some l), (f', s')) \<and>
     recv watching_env l s' = Some (Inr note, t) \<and> n_arch note = 0xC000003E \<and>
     r \<in> set (rules_for watching_filter (n_nr note mod 2 ^ 32)) \<and> r_action r = 0x7FC00000"
proof -
  let ?l = "\<lparr>l_fd = 5, l_closed = False\<rparr>" and ?d = "syscall_data 101 7"
  obtain f' s' prog where load: "load watching_env (watching_filter, idle) = Some (Inr (Some ?l), (f', s'))"
    and prog: "f_program f' = Some prog" "compile ''AMD64'' watching_filter = Inr prog" "length prog div 8 \<le> 4096"
    using load_watching by blast
  have "decision 0xC000003E watching_filter ?d = 0x7FC00000"
    by (simp add: decision_def syscall_data_def watching_filter_def decide_syscall_def decide_rules_def rule_matches_def
        sample_cond_def cond_holds_def cmp_holds_def)
  moreover obtain audit where "audit_arch ''AMD64'' = Inr audit"
    and "\<And>d acc. wf_data d \<Longrightarrow> run_packed prog (data_bytes d) acc 0 = Inr (decision audit watching_filter d)"
    by (rule compiled_decides [OF watching_filter_simps(1) prog(2,3)]) (rule that)
  ultimately have run: "run_packed prog (data_bytes ?d) 0 0 = Inr 0x7FC00000" using audit_amd64 syscall_data_wf by simp
  have "\<exists>note t r. recv watching_env ?l s' = Some (Inr note, t) \<and> audit_arch (e_machine watching_env) = Inr (n_arch note) \<and>
      r \<in> set (rules_for watching_filter (n_nr note mod 2 ^ 32)) \<and> r_action r = 0x7FC00000 \<and>
      (\<forall>c \<in> set (r_args r). cmp_holds (ac_op c) (n_args note ! nat (ac_index c)) (ac_value c) (ac_mask c))"
    by (rule supervisor_sees_matching_call [OF _ load _ prog(1) syscall_data_wf run, where n = 0, OF _ _ _ _ _ refl])
      (simp_all add: fd_ok_def)
  then show ?thesis using load by (auto simp: audit_amd64)
qed

text \<open>
  C13. The listener of a loaded filter. When \<open>load\<close> returns a listener, the filter carried NEW_LISTENER and is loaded, and the listener
  is open on the very descriptor with which the kernel answered the installation of the
  compiled program.
\<close>

theorem load_returns_listener_fd:
  assumes "wf_filter (e_machine env) f" and "load env (f, s) = Some (Inr (Some l), (f', s'))"
  shows "\<exists>prog nr n k. compile (e_machine env) f = Inr prog \<and> seccomp_nr env = Inr nr \<and>
    f_flags f AND flag_value NEW_LISTENER \<noteq> 0 \<and> f_loaded f' \<and> \<not> l_closed l \<and>
    l_fd l = rp_ret (answer env (filter_req nr (f_flags f) prog) k (asked env prctl_req (Suc n) (s_os s)))"
proof -
  obtain s1 prog f1 s2 where nnp: "set_no_new_privs env s = Some (Inr (), s1)"
    and fp: "filter_program (e_machine env) f = Inr (f1, prog)"
    and smf: "set_mode_filter env prog (f_flags f1) s1 = Some (Inr (l_fd l), s2)"
    and l: "f' = f1\<lparr>f_loaded := True\<rparr>" "f_flags f1 AND flag_value NEW_LISTENER \<noteq> 0" "\<not> l_closed l"
    using assms(2) by (rule load_listener)
  have f1: "compile (e_machine env) f = Inr prog" "f_flags f1 = f_flags f"
    using filter_program_result [OF fp assms(1)] by simp_all
  obtain n where s1: "s_os s1 = asked env prctl_req (Suc n) (s_os s)"
    using nnp by (rule no_new_privs_success) (simp add: after_asking_def)
  have "0 \<le> f_flags f1" "f_flags f1 < 2 ^ 32" using assms(1) f1(2) by (simp_all add: wf_filter_def is_u32_def)
  then obtain nr k where "seccomp_nr env = Inr nr"
    "rp_ret (answer env (filter_req nr (f_flags f1) prog) k (s_os s1)) = l_fd l"
    using set_mode_filter_success [OF smf] by metis
  with f1 l s1 show ?thesis
    by (intro exI [of _ prog] exI [of _ nr] exI [of _ n] exI [of _ k]) simp
qed

theorem load_returns_listener_fd_witness:
  "\<exists>l f' s'. load watching_env (watching_filter, idle) = Some (Inr (Some l), (f', s')) \<and> l_fd l = 5 \<and> f_loaded f'"
proof -
  obtain l f' s' where l: "load watching_env (watching_filter, idle) = Some (Inr (Some l), (f', s'))" using load_watching by blast
  have "wf_filter (e_machine watching_env) watching_filter" by simp
  from load_returns_listener_fd [OF this l] l show ?thesis by auto
qed

end
